theory Spec2Isabelle
  imports Main
begin

section \<open>Semantic versions\<close>

text \<open>
  The release-version generator delegates version arithmetic to the \<^verbatim>\<open>semver\<close> package
  (\<^verbatim>\<open>inc\<close>, \<^verbatim>\<open>gt\<close>, \<^verbatim>\<open>prerelease\<close>, \<^verbatim>\<open>valid\<close>) and to
  \<^verbatim>\<open>deriveNewSemverVersion\<close> of nx. Version strings stay strings, as in the generator; a
  string is parsed into a \<open>SemVer\<close> value (major, minor, patch and the prerelease identifiers,
  each a number or a string), incremented or compared there, and formatted back. The numbers
  are JavaScript numbers that hold integers that are not negative: they are of type \<open>int\<close>.
  Build metadata is accepted by the parser and dropped, as the package's \<^verbatim>\<open>version\<close> field
  drops it. A character is a code unit below 256. The package's limits are part of the model:
  a version string has at most \<^verbatim>\<open>MAX_LENGTH\<close> characters and is trimmed before it is matched,
  major, minor and patch are at most \<^verbatim>\<open>MAX_SAFE_INTEGER\<close>, a numeric prerelease identifier
  from \<^verbatim>\<open>MAX_SAFE_INTEGER\<close> on stays a string, and two numeric strings are compared as
  JavaScript numbers, that is after rounding to the nearest double.
\<close>

datatype error =
    TypeError
  | InvalidSpecifier string
  | InvalidVersionPrefix string
  | NoPackageRoot string
  | NoPyprojectToml string string
  | RegistryUnresolved
  | NoCurrentVersionOnDisk string string
  | NoGitTags string string
  | InvalidCurrentVersionResolver "string option"
  | InvalidResolverForConventionalCommits "string option"
  | NoPreviousVersionRef "string list"
  | VersionPlansNotEnabled string
  | InvalidSpecifierSource "string option"
  | CurrentVersionUnresolved string
  | InvalidSemverVersion string
  | UnableToDeriveVersion string string
  | InvalidSemverSpecifier string
  | CommandFailed "string list" string

datatype pre_id = Numeric int | AlphaNum string

record SemVer =
  v_major :: int
  v_minor :: int
  v_patch :: int
  v_prerelease :: "pre_id list"

definition MAX_SAFE_INTEGER :: int where
  "MAX_SAFE_INTEGER = 9007199254740991"

definition MAX_LENGTH :: nat where
  "MAX_LENGTH = 256"

definition is_digit :: "char \<Rightarrow> bool" where
  "is_digit c = (48 \<le> (of_char c :: nat) \<and> (of_char c :: nat) \<le> 57)"

definition is_ident_char :: "char \<Rightarrow> bool" where
  "is_ident_char c =
     (let n = (of_char c :: nat)
      in (48 \<le> n \<and> n \<le> 57) \<or> (65 \<le> n \<and> n \<le> 90) \<or> (97 \<le> n \<and> n \<le> 122) \<or> n = 45)"

definition is_space :: "char \<Rightarrow> bool" where
  \<comment> \<open>the white space and line terminators of JavaScript below 256: tab, line feed, vertical
      tab, form feed, carriage return, space and no-break space\<close>
  "is_space c =
     (let n = (of_char c :: nat) in (9 \<le> n \<and> n \<le> 13) \<or> n = 32 \<or> n = 160)"

definition trim :: "string \<Rightarrow> string" where
  \<comment> \<open>\<^verbatim>\<open>String.prototype.trim\<close>\<close>
  "trim s = rev (dropWhile is_space (rev (dropWhile is_space s)))"

definition digit_val :: "char \<Rightarrow> int" where
  "digit_val c = of_char c - 48"

definition digit_char :: "int \<Rightarrow> char" where
  "digit_char d = char_of (48 + d)"

definition number_of_digits :: "string \<Rightarrow> int" where
  \<comment> \<open>the value of a string of decimal digits\<close>
  "number_of_digits s = foldl (\<lambda>a c. 10 * a + digit_val c) 0 s"

function show_number :: "int \<Rightarrow> string" where
  \<comment> \<open>the decimal digits of a number that is not negative\<close>
  "show_number n =
     (if n < 10 then [digit_char n] else show_number (n div 10) @ [digit_char (n mod 10)])"
  by pat_completeness auto
termination
  by (relation "measure nat") auto

declare show_number.simps [simp del]

function bit_length :: "int \<Rightarrow> nat" where
  "bit_length n = (if n \<le> 0 then 0 else Suc (bit_length (n div 2)))"
  by pat_completeness auto
termination
  by (relation "measure nat") auto

declare bit_length.simps [simp del]

definition js_number :: "int \<Rightarrow> int" where
  \<comment> \<open>the JavaScript number that a string of digits converts to: the nearest double, ties to
      the even mantissa (53 bits); a string of at most 256 digits is far below the overflow to
      \<^verbatim>\<open>Infinity\<close>\<close>
  "js_number n =
     (if n < 2 ^ 53 then n
      else
        (let e = bit_length n - 53;
             q = n div 2 ^ e;
             r = n mod 2 ^ e;
             half = 2 ^ (e - 1)
         in (if half < r \<or> (r = half \<and> odd q) then q + 1 else q) * 2 ^ e))"

definition numeric_string :: "string \<Rightarrow> bool" where
  \<comment> \<open>\<^verbatim>\<open>/^[0-9]+$/\<close>\<close>
  "numeric_string s = (s \<noteq> [] \<and> list_all is_digit s)"

definition is_numeric_identifier :: "string \<Rightarrow> bool" where
  \<comment> \<open>\<^verbatim>\<open>0|[1-9]\d*\<close>\<close>
  "is_numeric_identifier s = (s \<noteq> [] \<and> list_all is_digit s \<and> (length s = 1 \<or> hd s \<noteq> CHR ''0''))"

fun split_on :: "char \<Rightarrow> string \<Rightarrow> string list" where
  "split_on c [] = [[]]"
| "split_on c (x # xs) =
     (if x = c then [] # split_on c xs
      else (case split_on c xs of w # ws \<Rightarrow> (x # w) # ws | [] \<Rightarrow> [[x]]))"

fun join_with :: "string \<Rightarrow> string list \<Rightarrow> string" where
  "join_with sep [] = []"
| "join_with sep [x] = x"
| "join_with sep (x # y # ys) = x @ sep @ join_with sep (y # ys)"

definition parse_identifier :: "string \<Rightarrow> pre_id option" where
  \<comment> \<open>a prerelease identifier: a number when it is numeric and below \<^verbatim>\<open>MAX_SAFE_INTEGER\<close>,
      the string itself otherwise\<close>
  "parse_identifier s =
     (if s = [] \<or> \<not> list_all is_ident_char s then None
      else if list_all is_digit s
        then (if is_numeric_identifier s
              then (if number_of_digits s < MAX_SAFE_INTEGER then Some (Numeric (number_of_digits s))
                    else Some (AlphaNum s))
              else None)
        else Some (AlphaNum s))"

fun those_list :: "'a option list \<Rightarrow> 'a list option" where
  "those_list [] = Some []"
| "those_list (None # xs) = None"
| "those_list (Some x # xs) = (case those_list xs of None \<Rightarrow> None | Some ys \<Rightarrow> Some (x # ys))"

definition parse_semver :: "string \<Rightarrow> SemVer option" where
  \<comment> \<open>\<^verbatim>\<open>new SemVer(version)\<close> in strict mode; \<open>None\<close> is the \<^verbatim>\<open>TypeError\<close> it throws\<close>
  "parse_semver raw =
     (if MAX_LENGTH < length raw then None
      else
        (let t = trim raw;
             s = (case t of c # r \<Rightarrow> if c = CHR ''v'' then r else t | [] \<Rightarrow> t);
             body = takeWhile (\<lambda>c. c \<noteq> CHR ''+'') s;
             build = dropWhile (\<lambda>c. c \<noteq> CHR ''+'') s;
             build_ok = (build = [] \<or>
                         list_all (\<lambda>b. b \<noteq> [] \<and> list_all is_ident_char b) (split_on (CHR ''.'') (tl build)));
             main = takeWhile (\<lambda>c. c \<noteq> CHR ''-'') body;
             rest = dropWhile (\<lambda>c. c \<noteq> CHR ''-'') body;
             pre = (if rest = [] then Some []
                    else those_list (map parse_identifier (split_on (CHR ''.'') (tl rest))))
         in case (split_on (CHR ''.'') main, pre) of
              ([a, b, c], Some ids) \<Rightarrow>
                if build_ok \<and> is_numeric_identifier a \<and> is_numeric_identifier b \<and> is_numeric_identifier c
                   \<and> number_of_digits a \<le> MAX_SAFE_INTEGER \<and> number_of_digits b \<le> MAX_SAFE_INTEGER
                   \<and> number_of_digits c \<le> MAX_SAFE_INTEGER
                then Some \<lparr>v_major = number_of_digits a, v_minor = number_of_digits b,
                           v_patch = number_of_digits c, v_prerelease = ids\<rparr>
                else None
            | _ \<Rightarrow> None))"

fun show_identifier :: "pre_id \<Rightarrow> string" where
  "show_identifier (Numeric n) = show_number n"
| "show_identifier (AlphaNum s) = s"

definition format_semver :: "SemVer \<Rightarrow> string" where
  "format_semver v =
     show_number (v_major v) @ ''.'' @ show_number (v_minor v) @ ''.'' @ show_number (v_patch v) @
     (if v_prerelease v = [] then [] else ''-'' @ join_with ''.'' (map show_identifier (v_prerelease v)))"

fun str_lt :: "string \<Rightarrow> string \<Rightarrow> bool" where
  "str_lt [] [] = False"
| "str_lt [] (y # ys) = True"
| "str_lt (x # xs) [] = False"
| "str_lt (x # xs) (y # ys) = ((of_char x :: nat) < of_char y \<or> (x = y \<and> str_lt xs ys))"

fun numericValue :: "pre_id \<Rightarrow> int option" where
  \<comment> \<open>the number that \<^verbatim>\<open>compareIdentifiers\<close> compares when the identifier matches
      \<^verbatim>\<open>/^[0-9]+$/\<close>\<close>
  "numericValue (Numeric n) = Some n"
| "numericValue (AlphaNum s) = (if numeric_string s then Some (js_number (number_of_digits s)) else None)"

definition compareIdentifiers_lt :: "pre_id \<Rightarrow> pre_id \<Rightarrow> bool" where
  \<comment> \<open>\<^verbatim>\<open>compareIdentifiers(a, b) < 0\<close>\<close>
  "compareIdentifiers_lt a b =
     (case (numericValue a, numericValue b) of
        (Some m, Some n) \<Rightarrow> m < n
      | (Some m, None) \<Rightarrow> True
      | (None, Some n) \<Rightarrow> False
      | (None, None) \<Rightarrow> str_lt (show_identifier a) (show_identifier b))"

fun comparePre_lt :: "pre_id list \<Rightarrow> pre_id list \<Rightarrow> bool" where
  \<comment> \<open>the loop of \<^verbatim>\<open>comparePre\<close>: the first pair of identifiers that are not identical
      decides\<close>
  "comparePre_lt [] [] = False"
| "comparePre_lt [] (y # ys) = True"
| "comparePre_lt (x # xs) [] = False"
| "comparePre_lt (x # xs) (y # ys) = (if x = y then comparePre_lt xs ys else compareIdentifiers_lt x y)"

definition semver_lt :: "SemVer \<Rightarrow> SemVer \<Rightarrow> bool" where
  "semver_lt a b =
     (v_major a < v_major b \<or> (v_major a = v_major b \<and>
       (v_minor a < v_minor b \<or> (v_minor a = v_minor b \<and>
         (v_patch a < v_patch b \<or> (v_patch a = v_patch b \<and>
           (if v_prerelease a = [] then False
            else if v_prerelease b = [] then True
            else comparePre_lt (v_prerelease a) (v_prerelease b))))))))"

definition compare :: "SemVer \<Rightarrow> SemVer \<Rightarrow> int" where
  "compare a b = (if semver_lt a b then - 1 else if semver_lt b a then 1 else 0)"

datatype ReleaseType = Major | Premajor | Minor | Preminor | Patch | Prepatch | Prerelease

definition release_type_of :: "string \<Rightarrow> ReleaseType option" where
  "release_type_of s =
     (if s = ''major'' then Some Major
      else if s = ''premajor'' then Some Premajor
      else if s = ''minor'' then Some Minor
      else if s = ''preminor'' then Some Preminor
      else if s = ''patch'' then Some Patch
      else if s = ''prepatch'' then Some Prepatch
      else if s = ''prerelease'' then Some Prerelease
      else None)"

fun inc_last_numeric :: "pre_id list \<Rightarrow> pre_id list option" where
  \<comment> \<open>the last identifier that is a number is incremented; a numeric string is not a number\<close>
  "inc_last_numeric [] = None"
| "inc_last_numeric (x # xs) =
     (case inc_last_numeric xs of
        Some ys \<Rightarrow> Some (x # ys)
      | None \<Rightarrow> (case x of Numeric n \<Rightarrow> Some (Numeric (n + 1) # xs) | AlphaNum a \<Rightarrow> None))"

definition identifier_matches :: "pre_id \<Rightarrow> string \<Rightarrow> bool" where
  \<comment> \<open>\<^verbatim>\<open>compareIdentifiers(this.prerelease[0], identifier) === 0\<close>\<close>
  "identifier_matches x s =
     (case (numericValue x, numericValue (AlphaNum s)) of
        (Some m, Some n) \<Rightarrow> m = n
      | (None, None) \<Rightarrow> show_identifier x = s
      | _ \<Rightarrow> False)"

definition all_in :: "string \<Rightarrow> string \<Rightarrow> bool" where
  "all_in allowed s = (s \<noteq> [] \<and> list_all (\<lambda>c. c \<in> set allowed) s)"

definition js_decimal :: "string \<Rightarrow> bool" where
  \<comment> \<open>digits, optionally followed by an exponent, among strings of identifier characters\<close>
  "js_decimal s =
     (let m = takeWhile is_digit s;
          r = dropWhile is_digit s
      in m \<noteq> [] \<and>
         (r = [] \<or>
          (case r of
             c # x \<Rightarrow> (c = CHR ''e'' \<or> c = CHR ''E'')
                      \<and> numeric_string (case x of d # y \<Rightarrow> if d = CHR ''-'' then y else x | [] \<Rightarrow> x)
           | [] \<Rightarrow> True)))"

definition js_numeric_literal :: "string \<Rightarrow> bool" where
  \<comment> \<open>\<^verbatim>\<open>!isNaN(s)\<close> for a string of identifier characters (digits, letters and hyphens): a
      decimal literal or \<^verbatim>\<open>Infinity\<close>, with an optional minus sign, or a hexadecimal, binary or
      octal literal\<close>
  "js_numeric_literal s =
     (let u = (case s of c # r \<Rightarrow> if c = CHR ''-'' then r else s | [] \<Rightarrow> s)
      in u = ''Infinity'' \<or> js_decimal u
         \<or> (case s of
               a # b # r \<Rightarrow>
                 a = CHR ''0'' \<and>
                 (((b = CHR ''x'' \<or> b = CHR ''X'') \<and> all_in ''0123456789abcdefABCDEF'' r)
                  \<or> ((b = CHR ''b'' \<or> b = CHR ''B'') \<and> all_in ''01'' r)
                  \<or> ((b = CHR ''o'' \<or> b = CHR ''O'') \<and> all_in ''01234567'' r))
             | _ \<Rightarrow> False))"

definition not_NaN :: "pre_id list \<Rightarrow> bool" where
  \<comment> \<open>\<^verbatim>\<open>!isNaN(this.prerelease[1])\<close>\<close>
  "not_NaN p =
     (case p of
        a # Numeric n # r \<Rightarrow> True
      | a # AlphaNum s # r \<Rightarrow> js_numeric_literal s
      | _ \<Rightarrow> False)"

definition inc_pre :: "string option \<Rightarrow> pre_id list \<Rightarrow> pre_id list" where
  \<comment> \<open>\<^verbatim>\<open>inc('pre', identifier)\<close>\<close>
  "inc_pre identifier p =
     (let p1 = (if p = [] then [Numeric 0]
                else (case inc_last_numeric p of Some q \<Rightarrow> q | None \<Rightarrow> p @ [Numeric 0]))
      in case identifier of
           None \<Rightarrow> p1
         | Some i \<Rightarrow>
             if i = [] then p1
             else if identifier_matches (hd p1) i
               then (if not_NaN p1 then p1 else [AlphaNum i, Numeric 0])
               else [AlphaNum i, Numeric 0])"

fun incv :: "ReleaseType \<Rightarrow> string option \<Rightarrow> SemVer \<Rightarrow> SemVer" where
  "incv Premajor i v =
     \<lparr>v_major = v_major v + 1, v_minor = 0, v_patch = 0, v_prerelease = inc_pre i []\<rparr>"
| "incv Preminor i v =
     \<lparr>v_major = v_major v, v_minor = v_minor v + 1, v_patch = 0, v_prerelease = inc_pre i []\<rparr>"
| "incv Prepatch i v =
     \<lparr>v_major = v_major v, v_minor = v_minor v, v_patch = v_patch v + 1, v_prerelease = inc_pre i []\<rparr>"
| "incv Prerelease i v =
     (if v_prerelease v = []
      then \<lparr>v_major = v_major v, v_minor = v_minor v, v_patch = v_patch v + 1, v_prerelease = inc_pre i []\<rparr>
      else v\<lparr>v_prerelease := inc_pre i (v_prerelease v)\<rparr>)"
| "incv Major i v =
     \<lparr>v_major = (if v_minor v \<noteq> 0 \<or> v_patch v \<noteq> 0 \<or> v_prerelease v = [] then v_major v + 1 else v_major v),
      v_minor = 0, v_patch = 0, v_prerelease = []\<rparr>"
| "incv Minor i v =
     \<lparr>v_major = v_major v,
      v_minor = (if v_patch v \<noteq> 0 \<or> v_prerelease v = [] then v_minor v + 1 else v_minor v),
      v_patch = 0, v_prerelease = []\<rparr>"
| "incv Patch i v =
     \<lparr>v_major = v_major v, v_minor = v_minor v,
      v_patch = (if v_prerelease v = [] then v_patch v + 1 else v_patch v), v_prerelease = []\<rparr>"

definition valid :: "string \<Rightarrow> string option" where
  "valid version = map_option format_semver (parse_semver version)"

definition inc :: "string option \<Rightarrow> string option \<Rightarrow> string option \<Rightarrow> string option" where
  \<comment> \<open>\<^verbatim>\<open>inc(version, release, identifier)\<close>: \<open>None\<close> is JavaScript's \<^verbatim>\<open>undefined\<close>/\<^verbatim>\<open>null\<close>;
      the package catches every error and returns \<^verbatim>\<open>null\<close>.\<close>
  "inc version release identifier =
     (case (Option.bind version parse_semver, Option.bind release release_type_of) of
        (Some v, Some r) \<Rightarrow> Some (format_semver (incv r identifier v))
      | _ \<Rightarrow> None)"

definition gt :: "string option \<Rightarrow> string option \<Rightarrow> error + bool" where
  "gt a b =
     (case (Option.bind a parse_semver, Option.bind b parse_semver) of
        (Some x, Some y) \<Rightarrow> Inr (compare x y > 0)
      | _ \<Rightarrow> Inl TypeError)"

definition prerelease :: "string \<Rightarrow> pre_id list option" where
  "prerelease version =
     (case parse_semver version of
        Some v \<Rightarrow> if v_prerelease v = [] then None else Some (v_prerelease v)
      | None \<Rightarrow> None)"

definition isRelativeVersionKeyword :: "string \<Rightarrow> bool" where
  "isRelativeVersionKeyword val = (release_type_of val \<noteq> None)"

definition isValidSemverSpecifier :: "string \<Rightarrow> bool" where
  "isValidSemverSpecifier specifier =
     (specifier \<noteq> [] \<and> (valid specifier \<noteq> None \<or> isRelativeVersionKeyword specifier))"

definition deriveNewSemverVersion :: "string \<Rightarrow> string \<Rightarrow> string option \<Rightarrow> error + string" where
  \<comment> \<open>nx: a relative keyword increments the current version, anything else must be a valid
      version and is returned verbatim.\<close>
  "deriveNewSemverVersion currentSemverVersion semverSpecifier preid =
     (if valid currentSemverVersion = None then Inl (InvalidSemverVersion currentSemverVersion)
      else if isRelativeVersionKeyword semverSpecifier then
        (case inc (Some currentSemverVersion) (Some semverSpecifier) preid of
           None \<Rightarrow> Inl (UnableToDeriveVersion currentSemverVersion semverSpecifier)
         | Some derivedVersion \<Rightarrow> Inr derivedVersion)
      else if valid semverSpecifier = None then Inl (InvalidSemverSpecifier semverSpecifier)
      else Inr semverSpecifier)"

section \<open>Data model of the generator\<close>

text \<open>
  JavaScript values that may be \<^verbatim>\<open>undefined\<close> or \<^verbatim>\<open>null\<close> are options; \<open>truthy\<close> is the
  test \<^verbatim>\<open>if (x)\<close> on such a string.
\<close>

definition truthy :: "string option \<Rightarrow> bool" where
  "truthy x = (case x of None \<Rightarrow> False | Some s \<Rightarrow> s \<noteq> [])"

definition template :: "string option \<Rightarrow> string" where
  \<comment> \<open>a value inside a template literal\<close>
  "template x = (case x of None \<Rightarrow> ''undefined'' | Some s \<Rightarrow> s)"

record ProjectGraphProjectNode =
  name :: string
  root :: string

record LocalPackageDependency =
  source :: string
  target :: string
  dependencyCollection :: string
  groupKey :: "string option"

datatype dependency =
    DepString string
  | DepObject (dep_version: "string option") (dep_path: "string option")

type_synonym dependencies = "string \<Rightarrow> dependency option"

record Poetry =
  poetry_name :: string
  poetry_version :: "string option"
  poetry_dependencies :: "dependencies option"
  poetry_group :: "(string \<Rightarrow> dependencies option option) option"

text \<open>
  \<open>poetry_group\<close>: \<^verbatim>\<open>tool.poetry.group\<close> may be missing; \<open>g key = None\<close> is a missing group,
  \<open>g key = Some None\<close> a group without a \<^verbatim>\<open>dependencies\<close> table.
\<close>

record PyprojectToml =
  tool_poetry :: "Poetry option"

type_synonym Tree = "string \<Rightarrow> PyprojectToml option"

record VersionDataEntry =
  currentVersion :: "string option"
  newVersion :: "string option"
  dependentProjects :: "LocalPackageDependency list"

datatype VersionPlan =
    ProjectsVersionPlan string string "string \<Rightarrow> string option"
  | GroupVersionPlan string string string

fun absolutePath :: "VersionPlan \<Rightarrow> string" where
  "absolutePath (ProjectsVersionPlan a r b) = a"
| "absolutePath (GroupVersionPlan a r b) = a"

fun relativePath :: "VersionPlan \<Rightarrow> string" where
  "relativePath (ProjectsVersionPlan a r b) = r"
| "relativePath (GroupVersionPlan a r b) = r"

fun groupVersionBump :: "VersionPlan \<Rightarrow> string option" where
  "groupVersionBump (ProjectsVersionPlan a r b) = None"
| "groupVersionBump (GroupVersionPlan a r b) = Some b"

record ReleaseGroup =
  rg_name :: string
  rg_projectsRelationship :: string
  rg_releaseTagPattern :: string
  rg_versionPlans :: bool
  rg_resolvedVersionPlans :: "VersionPlan list option"

record Options =
  opt_specifier :: "string option"
  opt_versionPrefix :: "string option"
  opt_firstRelease :: bool
  opt_fallbackCurrentVersionResolver :: "string option"
  opt_updateDependents :: "string option"
  opt_projects :: "ProjectGraphProjectNode list"
  opt_packageRoot :: "string option"
  opt_logUnchangedProjects :: "bool option"
  opt_currentVersionResolver :: "string option"
  opt_releaseGroup :: ReleaseGroup
  opt_specifierSource :: "string option"
  opt_preid :: "string option"
  opt_deleteVersionPlans :: bool
  opt_preserveLocalDependencyProtocols :: bool

text \<open>
  The collaborators the generator calls and that are not part of it: the registry, git, the
  commit classifier, the prompt, path helpers of node and nx, the poetry command, and the
  generator's helper modules (local dependency resolution, topological sorting, dependency
  version extraction), each taken as a function of its arguments.
  \<^verbatim>\<open>resolveLocalPackageDependencies\<close> receives the package-root map by reference, so it
  returns the map as it leaves it, with the flattened list of edges. The prompt is asked about
  one project (independent projects) or about the whole group, and answers a specifier.
\<close>

record Env =
  registryVersion :: "string \<Rightarrow> string option"
  getLatestGitTagForPattern :: "string \<Rightarrow> string \<Rightarrow> (string \<times> string) option"
  getFirstGitCommit :: "string option"
  resolveSemverSpecifierFromConventionalCommits :: "string \<Rightarrow> string list \<Rightarrow> string option"
  resolveSemverSpecifierFromPrompt :: "string option \<Rightarrow> string"
  resolveLocalPackageDependencies ::
    "Tree \<Rightarrow> ProjectGraphProjectNode list \<Rightarrow> (string \<Rightarrow> string option) \<Rightarrow> bool
      \<Rightarrow> LocalPackageDependency list \<times> (string \<Rightarrow> string option)"
  extractDependencyVersion :: "Tree \<Rightarrow> string \<Rightarrow> dependencies option \<Rightarrow> string \<Rightarrow> string option"
  sortProjectsTopologically :: "ProjectGraphProjectNode list \<Rightarrow> ProjectGraphProjectNode list"
  interpolate :: "string \<Rightarrow> string \<Rightarrow> string \<Rightarrow> string"
  joinPathFragments :: "string \<Rightarrow> string \<Rightarrow> string"
  dirname :: "string \<Rightarrow> string"
  path_join :: "string \<Rightarrow> string \<Rightarrow> string"
  poetryStatus :: "string list \<Rightarrow> string \<Rightarrow> int"
  tree_root :: string

datatype logmsg =
    LogReading string string
  | LogResolvedCurrentVersion "string option" string
  | LogFallbackToDisk "string option"
  | LogUsingCurrentVersion "string option"
  | LogProvidedSpecifier string
  | LogResolvedSpecifier "string option" string
  | LogNoChanges string
  | LogWarnDependents "string list"
  | LogSkipping string
  | LogNewVersion string string
  | LogApplying string nat

record State =
  tree :: Tree
  versionData :: "string \<Rightarrow> VersionDataEntry option"
  poetryLocks :: "string list"
  projectToDependencyBumps :: "string \<Rightarrow> string set option"
  projectNameToPackageRootMap :: "string \<Rightarrow> string option"
  currentVersion_var :: "string option"
  currentVersionResolvedFromFallback :: bool
  latestMatchingGitTag :: "(string \<times> string) option"
  specifier_var :: "string option option"
  specifierSource :: "string option"
  deleteVersionPlanCallbacks :: "VersionPlan list"
  logs :: "logmsg list"
  flushed :: "(string \<times> logmsg list) list"
  writes :: "string list"
  forcedBumps :: "string list"

text \<open>
  \<open>specifier_var\<close> is the loop variable \<^verbatim>\<open>specifier\<close>: \<open>None\<close> is \<^verbatim>\<open>undefined\<close> (not yet
  resolved), \<open>Some None\<close> is \<^verbatim>\<open>null\<close> (resolved, no change). \<open>specifierSource\<close> is
  \<^verbatim>\<open>options.specifierSource\<close>, which the loop overwrites. \<open>logs\<close> is the buffer of the
  current project's logger and \<open>flushed\<close> the flushed buffers. \<open>writes\<close> records the paths
  given to \<^verbatim>\<open>writePyprojectToml\<close>, in order, and \<open>forcedBumps\<close> the dependents whose own
  version a forced bump has replaced, in order; neither is read by the generator.
\<close>

section \<open>The generator\<close>

definition validReleaseVersionPrefixes :: "string list" where
  \<comment> \<open>the constant of nx\<close>
  "validReleaseVersionPrefixes = [''auto'', [], ''~'', ''^'', ''='']"

definition updateDependentsBump :: string where
  "updateDependentsBump = ''patch''"

definition strip_v :: "string \<Rightarrow> string" where
  \<comment> \<open>\<^verbatim>\<open>specifier.replace(/^v/, '')\<close>\<close>
  "strip_v s = (case s of c # r \<Rightarrow> if c = CHR ''v'' then r else s | [] \<Rightarrow> s)"

definition startsWith :: "string \<Rightarrow> string \<Rightarrow> bool" where
  "startsWith s p = (take (length p) s = p)"

definition validateOptions :: "Options \<Rightarrow> error + Options" where
  "validateOptions options =
     (case (if truthy (opt_specifier options)
            then (if \<not> isValidSemverSpecifier (template (opt_specifier options))
                  then Inl (InvalidSpecifier (template (opt_specifier options)))
                  else Inr (options\<lparr>opt_specifier := Some (strip_v (template (opt_specifier options)))\<rparr>))
            else Inr options) of
        Inl e \<Rightarrow> Inl e
      | Inr options1 \<Rightarrow>
          if truthy (opt_versionPrefix options1)
             \<and> template (opt_versionPrefix options1) \<notin> set validReleaseVersionPrefixes
          then Inl (InvalidVersionPrefix (template (opt_versionPrefix options1)))
          else Inr (if opt_firstRelease options1
                    then options1\<lparr>opt_fallbackCurrentVersionResolver := Some ''disk''\<rparr>
                    else options1))"

definition updateDependentsOf :: "Options \<Rightarrow> string" where
  \<comment> \<open>\<^verbatim>\<open>options.updateDependents ?? 'never'\<close>\<close>
  "updateDependentsOf options = (case opt_updateDependents options of None \<Rightarrow> ''never'' | Some u \<Rightarrow> u)"

definition independent :: "Options \<Rightarrow> bool" where
  "independent options = (rg_projectsRelationship (opt_releaseGroup options) = ''independent'')"

definition createResolvePackageRoot :: "Env \<Rightarrow> string option \<Rightarrow> ProjectGraphProjectNode \<Rightarrow> string" where
  "createResolvePackageRoot env customPackageRoot projectNode =
     (if \<not> truthy customPackageRoot then root projectNode
      else if root projectNode = ''.'' then root projectNode
      else interpolate env (template customPackageRoot) (root projectNode) (name projectNode))"

definition buffer :: "logmsg \<Rightarrow> State \<Rightarrow> State" where
  "buffer msg st = st\<lparr>logs := logs st @ [msg]\<rparr>"

definition flush :: "string \<Rightarrow> State \<Rightarrow> State" where
  "flush projectName st = st\<lparr>flushed := flushed st @ [(projectName, logs st)]\<rparr>"

definition readPyprojectToml :: "Tree \<Rightarrow> string \<Rightarrow> PyprojectToml option" where
  \<comment> \<open>Modelled from the spec: the manifest store's \<^verbatim>\<open>read(path)\<close>; the helper module
      \<^verbatim>\<open>executors/utils/poetry\<close> is not among the sources. A missing file reads as
      \<open>None\<close>.\<close>
  "readPyprojectToml t p = t p"

definition writePyprojectToml :: "string \<Rightarrow> PyprojectToml \<Rightarrow> State \<Rightarrow> State" where
  \<comment> \<open>Modelled from the spec: the manifest store's \<^verbatim>\<open>write(path, document)\<close>, from the same
      missing helper module.\<close>
  "writePyprojectToml p data st = st\<lparr>tree := (tree st)(p \<mapsto> data), writes := writes st @ [p]\<rparr>"

definition resolveCurrentVersion ::
  "Env \<Rightarrow> Options \<Rightarrow> string \<Rightarrow> string \<Rightarrow> string option \<Rightarrow> string \<Rightarrow> State \<Rightarrow> error + State" where
  "resolveCurrentVersion env options projectName packageName currentVersionFromDisk pyprojectTomlPath st =
     (if opt_currentVersionResolver options = Some ''registry'' then
        (if \<not> truthy (currentVersion_var st) \<or> independent options then
           (case registryVersion env packageName of
              Some v \<Rightarrow>
                Inr (buffer (LogResolvedCurrentVersion (Some v) ''pip registry'')
                      (st\<lparr>currentVersion_var := Some v\<rparr>))
            | None \<Rightarrow>
                if opt_fallbackCurrentVersionResolver options = Some ''disk''
                then Inr ((buffer (LogFallbackToDisk currentVersionFromDisk) st)
                           \<lparr>currentVersion_var := currentVersionFromDisk,
                            currentVersionResolvedFromFallback := True\<rparr>)
                else Inl RegistryUnresolved)
         else Inr (buffer (LogUsingCurrentVersion (currentVersion_var st)) st))
      else if opt_currentVersionResolver options = Some ''disk'' then
        (if \<not> truthy currentVersionFromDisk
         then Inl (NoCurrentVersionOnDisk projectName pyprojectTomlPath)
         else Inr (buffer (LogResolvedCurrentVersion currentVersionFromDisk pyprojectTomlPath)
                    (st\<lparr>currentVersion_var := currentVersionFromDisk\<rparr>)))
      else if opt_currentVersionResolver options = Some ''git-tag'' then
        (if \<not> truthy (currentVersion_var st) \<or> independent options then
           (let releaseTagPattern = rg_releaseTagPattern (opt_releaseGroup options);
                found = getLatestGitTagForPattern env releaseTagPattern projectName;
                st1 = st\<lparr>latestMatchingGitTag := found\<rparr>
            in case found of
                 None \<Rightarrow>
                   if opt_fallbackCurrentVersionResolver options = Some ''disk''
                   then Inr ((buffer (LogFallbackToDisk currentVersionFromDisk) st1)
                              \<lparr>currentVersion_var := currentVersionFromDisk,
                               currentVersionResolvedFromFallback := True\<rparr>)
                   else Inl (NoGitTags releaseTagPattern projectName)
               | Some (tag, extractedVersion) \<Rightarrow>
                   Inr (buffer (LogResolvedCurrentVersion (Some extractedVersion) tag)
                         (st1\<lparr>currentVersion_var := Some extractedVersion\<rparr>)))
         else Inr (buffer (LogUsingCurrentVersion (currentVersion_var st)) st))
      else Inl (InvalidCurrentVersionResolver (opt_currentVersionResolver options)))"

fun reduceProjectsVersionPlans ::
  "string option \<Rightarrow> string \<Rightarrow> VersionPlan list \<Rightarrow> string option \<Rightarrow> error + string option" where
  "reduceProjectsVersionPlans current projectName [] spec = Inr spec"
| "reduceProjectsVersionPlans current projectName (plan # plans) spec =
     (case plan of
        GroupVersionPlan a r b \<Rightarrow> Inl TypeError
      | ProjectsVersionPlan a r projectVersionBumps \<Rightarrow>
          if \<not> truthy spec
          then reduceProjectsVersionPlans current projectName plans (projectVersionBumps projectName)
          else if truthy (projectVersionBumps projectName) then
            (let prevNewVersion = inc current spec None;
                 nextNewVersion = inc current (projectVersionBumps projectName) None
             in case gt nextNewVersion prevNewVersion of
                  Inl e \<Rightarrow> Inl e
                | Inr isGreater \<Rightarrow>
                    reduceProjectsVersionPlans current projectName plans
                      (if isGreater then projectVersionBumps projectName else spec))
          else reduceProjectsVersionPlans current projectName plans spec)"

fun reduceGroupVersionPlans ::
  "string option \<Rightarrow> VersionPlan list \<Rightarrow> string option \<Rightarrow> error + string option" where
  "reduceGroupVersionPlans current [] spec = Inr spec"
| "reduceGroupVersionPlans current (plan # plans) spec =
     (if \<not> truthy spec
      then reduceGroupVersionPlans current plans (groupVersionBump plan)
      else
        (let prevNewVersion = inc current spec None;
             nextNewVersion = inc current (groupVersionBump plan) None
         in case gt nextNewVersion prevNewVersion of
              Inl e \<Rightarrow> Inl e
            | Inr isGreater \<Rightarrow>
                reduceGroupVersionPlans current plans
                  (if isGreater then groupVersionBump plan else spec)))"

definition previousVersionRefOf :: "Env \<Rightarrow> Options \<Rightarrow> State \<Rightarrow> string option" where
  \<comment> \<open>\<^verbatim>\<open>previousVersionRef\<close>: the tag of the latest matching git tag, else the first commit
      when the fallback is the version on disk\<close>
  "previousVersionRefOf env options st =
     (case latestMatchingGitTag st of
        Some (tag, extractedVersion) \<Rightarrow> Some tag
      | None \<Rightarrow>
          if opt_fallbackCurrentVersionResolver options = Some ''disk''
          then getFirstGitCommit env else None)"

definition conventionalCommitsSpecifier ::
  "Env \<Rightarrow> Options \<Rightarrow> ProjectGraphProjectNode list \<Rightarrow> string \<Rightarrow> State \<Rightarrow> error + State" where
  \<comment> \<open>\<^verbatim>\<open>case 'conventional-commits'\<close>\<close>
  "conventionalCommitsSpecifier env options projects projectName st =
     (if opt_currentVersionResolver options \<noteq> Some ''git-tag''
      then Inl (InvalidResolverForConventionalCommits (opt_currentVersionResolver options))
      else
        (let affectedProjects = (if independent options then [projectName] else map name projects);
             previousVersionRef = previousVersionRefOf env options st
         in if \<not> truthy previousVersionRef then Inl (NoPreviousVersionRef affectedProjects)
            else
              (let specifier =
                     resolveSemverSpecifierFromConventionalCommits env (template previousVersionRef)
                       affectedProjects
               in if \<not> truthy specifier then
                    (if updateDependentsOf options \<noteq> ''never''
                        \<and> projectToDependencyBumps st projectName \<noteq> None
                     then Inr (buffer (LogResolvedSpecifier (Some updateDependentsBump) ''updateDependents'')
                                (st\<lparr>specifier_var := Some (Some updateDependentsBump)\<rparr>))
                     else Inr (buffer (LogNoChanges ''conventional commits'')
                                (st\<lparr>specifier_var := Some specifier\<rparr>)))
                  else if prerelease (case currentVersion_var st of None \<Rightarrow> [] | Some v \<Rightarrow> v) \<noteq> None
                  then Inr (buffer (LogResolvedSpecifier (Some ''prerelease'') ''prerelease'')
                             (st\<lparr>specifier_var := Some (Some ''prerelease'')\<rparr>))
                  else
                    (let specifier1 =
                           (if truthy (opt_preid options) \<and> \<not> startsWith (template specifier) ''pre''
                            then Some (''pre'' @ template specifier) else specifier)
                     in Inr (buffer (LogResolvedSpecifier specifier1 ''conventional commits'')
                              (st\<lparr>specifier_var := Some specifier1\<rparr>))))))"

definition versionPlansSpecifier :: "Options \<Rightarrow> string \<Rightarrow> State \<Rightarrow> error + State" where
  \<comment> \<open>\<^verbatim>\<open>case 'version-plans'\<close>\<close>
  "versionPlansSpecifier options projectName st =
     (if \<not> rg_versionPlans (opt_releaseGroup options)
      then Inl (VersionPlansNotEnabled (rg_name (opt_releaseGroup options)))
      else
        (case rg_resolvedVersionPlans (opt_releaseGroup options) of
           None \<Rightarrow> Inl TypeError
         | Some plans \<Rightarrow>
             (case (if independent options
                    then reduceProjectsVersionPlans (currentVersion_var st) projectName plans None
                    else reduceGroupVersionPlans (currentVersion_var st) plans None) of
                Inl e \<Rightarrow> Inl e
              | Inr specifier \<Rightarrow>
                  (let st1 =
                         (if \<not> truthy specifier then
                            (if updateDependentsOf options \<noteq> ''never''
                                \<and> projectToDependencyBumps st projectName \<noteq> None
                             then buffer (LogResolvedSpecifier (Some updateDependentsBump) ''updateDependents'')
                                    (st\<lparr>specifier_var := Some (Some updateDependentsBump)\<rparr>)
                             else buffer (LogNoChanges ''version plans'')
                                    (st\<lparr>specifier_var := Some None\<rparr>))
                          else buffer (LogResolvedSpecifier specifier ''version plans'')
                                 (st\<lparr>specifier_var := Some specifier\<rparr>))
                   in Inr (if opt_deleteVersionPlans options
                           then st1\<lparr>deleteVersionPlanCallbacks := deleteVersionPlanCallbacks st1 @ plans\<rparr>
                           else st1)))))"

definition resolveSpecifier ::
  "Env \<Rightarrow> Options \<Rightarrow> ProjectGraphProjectNode list \<Rightarrow> string \<Rightarrow> State \<Rightarrow> error + State" where
  \<comment> \<open>from \<^verbatim>\<open>if (options.specifier)\<close> to the end of the \<^verbatim>\<open>switch (specifierSource)\<close>\<close>
  "resolveSpecifier env options projects projectName st0 =
     (let st = (if truthy (opt_specifier options)
                then (buffer (LogProvidedSpecifier (template (opt_specifier options))) st0)
                       \<lparr>specifierSource := Some ''prompt''\<rparr>
                else st0)
      in if specifier_var st = None \<or> (independent options \<and> \<not> truthy (opt_specifier options)) then
           (if specifierSource st = Some ''conventional-commits''
              then conventionalCommitsSpecifier env options projects projectName st
            else if specifierSource st = Some ''prompt''
              then Inr (st\<lparr>specifier_var :=
                          Some (Some (resolveSemverSpecifierFromPrompt env
                                        (if independent options then Some projectName else None)))\<rparr>)
            else if specifierSource st = Some ''version-plans''
              then versionPlansSpecifier options projectName st
            else Inl (InvalidSpecifierSource (specifierSource st)))
         else Inr st)"

definition specifierOf :: "State \<Rightarrow> string option" where
  \<comment> \<open>the loop variable as \<^verbatim>\<open>if (!specifier)\<close> reads it\<close>
  "specifierOf st = (case specifier_var st of Some (Some s) \<Rightarrow> Some s | _ \<Rightarrow> None)"

definition circularKey :: "string \<Rightarrow> string \<Rightarrow> string" where
  "circularKey a b = a @ '':'' @ b"

definition circularDependenciesOf :: "string \<Rightarrow> LocalPackageDependency list \<Rightarrow> string list" where
  \<comment> \<open>the keys added to the set \<^verbatim>\<open>circularDependencies\<close>, in order\<close>
  "circularDependenciesOf projectName allDependentProjects =
     concat (map (\<lambda>dependentProject.
                    if target dependentProject = projectName
                    then [circularKey (source dependentProject) (target dependentProject),
                          circularKey (target dependentProject) (source dependentProject)]
                    else [])
             allDependentProjects)"

definition isInCurrentBatch :: "Options \<Rightarrow> string option \<Rightarrow> LocalPackageDependency \<Rightarrow> bool" where
  "isInCurrentBatch options specSource dependentProject =
     (let inBatch = list_ex (\<lambda>project. name project = source dependentProject) (opt_projects options)
      in if inBatch \<and> specSource = Some ''version-plans''
         then list_ex (\<lambda>plan. case plan of
                                 ProjectsVersionPlan a r projectVersionBumps \<Rightarrow>
                                   truthy (projectVersionBumps (source dependentProject))
                               | GroupVersionPlan a r b \<Rightarrow> True)
                (case rg_resolvedVersionPlans (opt_releaseGroup options) of None \<Rightarrow> [] | Some ps \<Rightarrow> ps)
         else inBatch)"

definition transitiveLocalPackageDependentsOf ::
  "LocalPackageDependency list \<Rightarrow> LocalPackageDependency list \<Rightarrow> LocalPackageDependency list" where
  "transitiveLocalPackageDependentsOf localPackageDependencies allDependentProjects =
     concat (map (\<lambda>directDependent.
                    filter (\<lambda>localPackageDependency.
                              target localPackageDependency = source directDependent)
                      localPackageDependencies)
             allDependentProjects)"

definition updateDependency :: "dependencies \<Rightarrow> string \<Rightarrow> string \<Rightarrow> error + dependencies" where
  \<comment> \<open>the assignment to \<^verbatim>\<open>group[dependencyPackageName]\<close> or to its \<^verbatim>\<open>version\<close>\<close>
  "updateDependency deps dependencyPackageName newDepVersion =
     (case deps dependencyPackageName of
        None \<Rightarrow> Inl TypeError
      | Some (DepString s) \<Rightarrow> Inr (deps(dependencyPackageName \<mapsto> DepString newDepVersion))
      | Some (DepObject v p) \<Rightarrow>
          Inr (if truthy v then deps(dependencyPackageName \<mapsto> DepObject (Some newDepVersion) p)
               else deps))"

definition inferPrefix :: "Options \<Rightarrow> string option \<Rightarrow> string" where
  \<comment> \<open>\<^verbatim>\<open>versionPrefix\<close> after the \<^verbatim>\<open>'auto'\<close> inference\<close>
  "inferPrefix options currentDependencyVersion =
     (let versionPrefix = (case opt_versionPrefix options of None \<Rightarrow> ''auto'' | Some p \<Rightarrow> p)
      in if versionPrefix = ''auto'' then
           (case currentDependencyVersion of
              Some (c # r) \<Rightarrow> if c = CHR ''~'' \<or> c = CHR ''^'' then [c] else []
            | _ \<Rightarrow> [])
         else versionPrefix)"

definition currentDependencyVersionOf ::
  "Env \<Rightarrow> Tree \<Rightarrow> string \<Rightarrow> Poetry \<Rightarrow> LocalPackageDependency \<Rightarrow> string \<Rightarrow> error + string option" where
  \<comment> \<open>the two calls of \<^verbatim>\<open>extractDependencyVersion\<close>; reading \<^verbatim>\<open>group[groupKey]\<close> of a
      manifest without groups is a \<^verbatim>\<open>TypeError\<close>\<close>
  "currentDependencyVersionOf env t packageRoot poetry dependentProject dependencyPackageName =
     (if dependencyCollection dependentProject = ''dependencies''
      then Inr (extractDependencyVersion env t packageRoot (poetry_dependencies poetry) dependencyPackageName)
      else
        (case poetry_group poetry of
           None \<Rightarrow> Inl TypeError
         | Some groups \<Rightarrow>
             Inr (extractDependencyVersion env t packageRoot
                    (case groups (template (groupKey dependentProject)) of
                       None \<Rightarrow> None | Some g \<Rightarrow> g)
                    dependencyPackageName)))"

definition applyDependencyVersion ::
  "Poetry \<Rightarrow> LocalPackageDependency \<Rightarrow> string \<Rightarrow> string \<Rightarrow> error + Poetry" where
  \<comment> \<open>the body of \<^verbatim>\<open>if (shouldUpdateDependency)\<close>\<close>
  "applyDependencyVersion poetry dependentProject dependencyPackageName newDepVersion =
     (if dependencyCollection dependentProject = ''dependencies'' then
        (case poetry_dependencies poetry of
           None \<Rightarrow> Inl TypeError
         | Some mainGroup \<Rightarrow>
             (case updateDependency mainGroup dependencyPackageName newDepVersion of
                Inl e \<Rightarrow> Inl e
              | Inr g \<Rightarrow> Inr (poetry\<lparr>poetry_dependencies := Some g\<rparr>)))
      else
        (case poetry_group poetry of
           None \<Rightarrow> Inl TypeError
         | Some groups \<Rightarrow>
             (case groups (template (groupKey dependentProject)) of
                Some (Some grp) \<Rightarrow>
                  (case updateDependency grp dependencyPackageName newDepVersion of
                     Inl e \<Rightarrow> Inl e
                   | Inr g \<Rightarrow>
                       Inr (poetry\<lparr>poetry_group :=
                              Some (groups(template (groupKey dependentProject) \<mapsto> Some g))\<rparr>))
              | _ \<Rightarrow> Inl TypeError)))"

definition updateDependentProjectAndAddToVersionData ::
  "Env \<Rightarrow> Options \<Rightarrow> LocalPackageDependency list \<Rightarrow> LocalPackageDependency \<Rightarrow> string
    \<Rightarrow> string option \<Rightarrow> string option \<Rightarrow> State \<Rightarrow> error + State" where
  \<comment> \<open>\<open>forceVersionBump = None\<close> is \<^verbatim>\<open>false\<close>; \<open>newDependencyVersion\<close> may be undefined in the
      transitive pass, which reads it from a manifest\<close>
  "updateDependentProjectAndAddToVersionData env options transitiveLocalPackageDependents
       dependentProject dependencyPackageName newDependencyVersion forceVersionBump st =
     (case projectNameToPackageRootMap st (source dependentProject) of
        None \<Rightarrow> Inl TypeError
      | Some packageRoot \<Rightarrow>
          (let updatedPyprojectFilePath = joinPathFragments env packageRoot ''pyproject.toml'';
               st1 = st\<lparr>poetryLocks := poetryLocks st @ [dirname env updatedPyprojectFilePath]\<rparr>
           in case readPyprojectToml (tree st1) updatedPyprojectFilePath of
                None \<Rightarrow> Inr st1
              | Some updatedPyproject \<Rightarrow>
                  (case tool_poetry updatedPyproject of
                     None \<Rightarrow> Inr st1
                   | Some poetry \<Rightarrow>
                       (case currentDependencyVersionOf env (tree st1) packageRoot poetry
                               dependentProject dependencyPackageName of
                          Inl e \<Rightarrow> Inl e
                        | Inr currentDependencyVersion \<Rightarrow>
                            (let currentPackageVersion = poetry_version poetry;
                                 transitiveDependentProjects =
                                   filter (\<lambda>localPackageDependency.
                                             target localPackageDependency = source dependentProject)
                                     transitiveLocalPackageDependents
                             in if \<not> truthy currentPackageVersion then
                                  Inr (writePyprojectToml updatedPyprojectFilePath updatedPyproject
                                        (if forceVersionBump \<noteq> None
                                         then st1\<lparr>versionData := (versionData st1)
                                                (source dependentProject \<mapsto>
                                                   \<lparr>currentVersion = currentPackageVersion,
                                                    newVersion = currentDependencyVersion,
                                                    dependentProjects = transitiveDependentProjects\<rparr>)\<rparr>
                                         else st1))
                                else
                                  (case (if \<not> opt_preserveLocalDependencyProtocols options
                                         then applyDependencyVersion poetry dependentProject
                                                dependencyPackageName
                                                (inferPrefix options currentDependencyVersion
                                                   @ template newDependencyVersion)
                                         else Inr poetry) of
                                     Inl e \<Rightarrow> Inl e
                                   | Inr poetry1 \<Rightarrow>
                                       (case forceVersionBump of
                                          None \<Rightarrow>
                                            Inr (writePyprojectToml updatedPyprojectFilePath
                                                  (updatedPyproject\<lparr>tool_poetry := Some poetry1\<rparr>) st1)
                                        | Some bump \<Rightarrow>
                                            (case deriveNewSemverVersion (template currentPackageVersion)
                                                    bump (opt_preid options) of
                                               Inl e \<Rightarrow> Inl e
                                             | Inr newPackageVersion \<Rightarrow>
                                                 Inr (writePyprojectToml updatedPyprojectFilePath
                                                       (updatedPyproject\<lparr>tool_poetry :=
                                                          Some (poetry1\<lparr>poetry_version := Some newPackageVersion\<rparr>)\<rparr>)
                                                       (st1\<lparr>versionData := (versionData st1)
                                                          (source dependentProject \<mapsto>
                                                             \<lparr>currentVersion = currentPackageVersion,
                                                              newVersion = Some newPackageVersion,
                                                              dependentProjects = transitiveDependentProjects\<rparr>),
                                                          forcedBumps := forcedBumps st1
                                                            @ [source dependentProject]\<rparr>))))))))))"

fun forEachResult :: "('a \<Rightarrow> State \<Rightarrow> error + State) \<Rightarrow> 'a list \<Rightarrow> State \<Rightarrow> error + State" where
  \<comment> \<open>a \<^verbatim>\<open>for ... of\<close> loop whose body may throw\<close>
  "forEachResult body [] st = Inr st"
| "forEachResult body (x # xs) st =
     (case body x st of Inl e \<Rightarrow> Inl e | Inr st' \<Rightarrow> forEachResult body xs st')"

definition inBatchStep ::
  "Env \<Rightarrow> Options \<Rightarrow> LocalPackageDependency list \<Rightarrow> string \<Rightarrow> string \<Rightarrow> string
    \<Rightarrow> LocalPackageDependency \<Rightarrow> State \<Rightarrow> error + State" where
  \<comment> \<open>the body of \<^verbatim>\<open>for (const dependentProject of dependentProjectsInCurrentBatch)\<close>\<close>
  "inBatchStep env options transitiveLocalPackageDependents projectName packageName newVersion'
       dependentProject st =
     updateDependentProjectAndAddToVersionData env options transitiveLocalPackageDependents
       dependentProject packageName (Some newVersion') None
       (st\<lparr>projectToDependencyBumps := (projectToDependencyBumps st)
              (source dependentProject \<mapsto>
                 (case projectToDependencyBumps st (source dependentProject) of
                    Some dependencyBumps \<Rightarrow> insert projectName dependencyBumps
                  | None \<Rightarrow> {projectName}))\<rparr>)"

definition outsideBatchForce :: "State \<Rightarrow> ProjectGraphProjectNode list \<Rightarrow> LocalPackageDependency \<Rightarrow> string option" where
  \<comment> \<open>\<^verbatim>\<open>forceVersionBump\<close> of the loop over the dependents outside the batch\<close>
  "outsideBatchForce st projects dependentProject =
     (if specifierSource st = Some ''version-plans''
         \<and> list_ex (\<lambda>p. name p = source dependentProject) projects
      then None else Some updateDependentsBump)"

definition outsideBatchStep ::
  "Env \<Rightarrow> Options \<Rightarrow> ProjectGraphProjectNode list \<Rightarrow> LocalPackageDependency list \<Rightarrow> string
    \<Rightarrow> string \<Rightarrow> string \<Rightarrow> LocalPackageDependency \<Rightarrow> State \<Rightarrow> error + State" where
  \<comment> \<open>the body of \<^verbatim>\<open>for (const dependentProject of dependentProjectsOutsideCurrentBatch)\<close>\<close>
  "outsideBatchStep env options projects transitiveLocalPackageDependents projectName packageName
       newVersion' dependentProject st =
     updateDependentProjectAndAddToVersionData env options transitiveLocalPackageDependents
       dependentProject packageName (Some newVersion') (outsideBatchForce st projects dependentProject)
       (if specifierSource st = Some ''version-plans''
           \<and> projectToDependencyBumps st (source dependentProject) = None
        then st\<lparr>projectToDependencyBumps :=
                  (projectToDependencyBumps st)(source dependentProject \<mapsto> {projectName})\<rparr>
        else st)"

definition transitiveForce :: "string list \<Rightarrow> LocalPackageDependency \<Rightarrow> string option" where
  \<comment> \<open>\<^verbatim>\<open>isFromCircularDependency ? false : updateDependentsBump\<close>\<close>
  "transitiveForce circularDependencies transitiveDependentProject =
     (if circularKey (source transitiveDependentProject) (target transitiveDependentProject)
           \<in> set circularDependencies
      then None else Some updateDependentsBump)"

definition transitiveStep ::
  "Env \<Rightarrow> Options \<Rightarrow> LocalPackageDependency list \<Rightarrow> string list
    \<Rightarrow> LocalPackageDependency \<Rightarrow> State \<Rightarrow> error + State" where
  \<comment> \<open>the body of \<^verbatim>\<open>for (const transitiveDependentProject of transitiveLocalPackageDependents)\<close>\<close>
  "transitiveStep env options transitiveLocalPackageDependents circularDependencies
       transitiveDependentProject st =
     (let dependencyProjectName = target transitiveDependentProject
      in if \<not> truthy (projectNameToPackageRootMap st dependencyProjectName)
         then Inl (NoPackageRoot dependencyProjectName)
         else
           (case Option.bind
                   (readPyprojectToml (tree st)
                      (joinPathFragments env
                         (template (projectNameToPackageRootMap st dependencyProjectName))
                         ''pyproject.toml''))
                   tool_poetry of
              None \<Rightarrow> Inl TypeError
            | Some dependencyPoetry \<Rightarrow>
                updateDependentProjectAndAddToVersionData env options transitiveLocalPackageDependents
                  transitiveDependentProject (poetry_name dependencyPoetry)
                  (poetry_version dependencyPoetry)
                  (transitiveForce circularDependencies transitiveDependentProject) st))"

definition stripGroupKey :: "LocalPackageDependency \<Rightarrow> LocalPackageDependency" where
  \<comment> \<open>\<^verbatim>\<open>({ groupKey, ...rest }) => rest\<close>\<close>
  "stripGroupKey d = d\<lparr>groupKey := None\<rparr>"

definition propagate ::
  "Env \<Rightarrow> Options \<Rightarrow> ProjectGraphProjectNode list \<Rightarrow> string \<Rightarrow> string \<Rightarrow> string
    \<Rightarrow> LocalPackageDependency list \<Rightarrow> LocalPackageDependency list \<Rightarrow> LocalPackageDependency list
    \<Rightarrow> string list \<Rightarrow> State \<Rightarrow> error + State" where
  \<comment> \<open>the three loops over the dependents, then the flush of the project's log\<close>
  "propagate env options projects projectName packageName newVersion'
       dependentProjectsInCurrentBatch dependentProjectsOutsideCurrentBatch
       transitiveLocalPackageDependents circularDependencies st =
     (case forEachResult
             (inBatchStep env options transitiveLocalPackageDependents projectName packageName newVersion')
             dependentProjectsInCurrentBatch st of
        Inl e \<Rightarrow> Inl e
      | Inr st1 \<Rightarrow>
          (case (if updateDependentsOf options = ''auto''
                 then forEachResult
                        (outsideBatchStep env options projects transitiveLocalPackageDependents
                           projectName packageName newVersion')
                        dependentProjectsOutsideCurrentBatch st1
                 else Inr st1) of
             Inl e \<Rightarrow> Inl e
           | Inr st2 \<Rightarrow>
               (case forEachResult
                       (transitiveStep env options transitiveLocalPackageDependents circularDependencies)
                       transitiveLocalPackageDependents st2 of
                  Inl e \<Rightarrow> Inl e
                | Inr st3 \<Rightarrow> Inr (flush projectName st3))))"

record Dependents =
  dep_all :: "LocalPackageDependency list"
  dep_transitive :: "LocalPackageDependency list"
  dep_circular :: "string list"
  dep_inBatch :: "LocalPackageDependency list"
  dep_outside :: "LocalPackageDependency list"

text \<open>
  The local variables \<^verbatim>\<open>allDependentProjects\<close>, \<^verbatim>\<open>transitiveLocalPackageDependents\<close>,
  \<^verbatim>\<open>circularDependencies\<close>, \<^verbatim>\<open>dependentProjectsInCurrentBatch\<close> and
  \<^verbatim>\<open>dependentProjectsOutsideCurrentBatch\<close> of one iteration.
\<close>

definition classifyDependents ::
  "Options \<Rightarrow> string option \<Rightarrow> string \<Rightarrow> LocalPackageDependency list \<Rightarrow> Dependents" where
  \<comment> \<open>from \<^verbatim>\<open>const allDependentProjects\<close> to the end of the loop that sorts the dependents into
      those in the current batch and the others\<close>
  "classifyDependents options specSource projectName localPackageDependencies =
     (let allDependentProjects =
            filter (\<lambda>localPackageDependency. target localPackageDependency = projectName)
              localPackageDependencies
      in \<lparr>dep_all = allDependentProjects,
          dep_transitive =
            (if updateDependentsOf options = ''auto''
             then transitiveLocalPackageDependentsOf localPackageDependencies allDependentProjects
             else []),
          dep_circular = circularDependenciesOf projectName allDependentProjects,
          dep_inBatch = filter (isInCurrentBatch options specSource) allDependentProjects,
          dep_outside = filter (\<lambda>d. \<not> isInCurrentBatch options specSource d) allDependentProjects\<rparr>)"

definition recordVersionData ::
  "Options \<Rightarrow> string \<Rightarrow> Dependents \<Rightarrow> State \<Rightarrow> error + State" where
  \<comment> \<open>the warning about skipped dependents, the check of the current version and the
      assignment to \<^verbatim>\<open>versionData[projectName]\<close>\<close>
  "recordVersionData options projectName deps st =
     (let st1 = (if updateDependentsOf options = ''never'' \<and> dep_outside deps \<noteq> []
                 then buffer (LogWarnDependents (map source (dep_outside deps))) st
                 else st)
      in if \<not> truthy (currentVersion_var st1) then Inl (CurrentVersionUnresolved projectName)
         else Inr (st1\<lparr>versionData := (versionData st1)
                     (projectName \<mapsto>
                        \<lparr>currentVersion = currentVersion_var st1,
                         newVersion = None,
                         dependentProjects =
                           (if updateDependentsOf options = ''auto''
                            then map stripGroupKey (dep_all deps)
                            else map stripGroupKey (dep_inBatch deps))\<rparr>)\<rparr>))"

definition skipProject :: "Options \<Rightarrow> string \<Rightarrow> Poetry \<Rightarrow> State \<Rightarrow> State" where
  \<comment> \<open>the body of \<^verbatim>\<open>if (!specifier)\<close>, which ends the iteration\<close>
  "skipProject options projectName poetry st =
     (let st1 = buffer (LogSkipping (poetry_name poetry)) st
      in if (case opt_logUnchangedProjects options of None \<Rightarrow> True | Some b \<Rightarrow> b)
         then flush projectName st1 else st1)"

definition setNewVersion :: "string \<Rightarrow> string \<Rightarrow> State \<Rightarrow> error + State" where
  \<comment> \<open>\<^verbatim>\<open>versionData[projectName].newVersion = newVersion\<close>\<close>
  "setNewVersion projectName newVersion' st =
     (case versionData st projectName of
        None \<Rightarrow> Inl TypeError
      | Some entry \<Rightarrow>
          Inr (st\<lparr>versionData := (versionData st)(projectName \<mapsto> entry\<lparr>newVersion := Some newVersion'\<rparr>)\<rparr>))"

definition bumpProject ::
  "Env \<Rightarrow> Options \<Rightarrow> ProjectGraphProjectNode list \<Rightarrow> string \<Rightarrow> string \<Rightarrow> PyprojectToml
    \<Rightarrow> Poetry \<Rightarrow> Dependents \<Rightarrow> State \<Rightarrow> error + State" where
  \<comment> \<open>from \<^verbatim>\<open>deriveNewSemverVersion\<close> to the end of the iteration\<close>
  "bumpProject env options projects projectName pyprojectTomlPath pyprojectToml poetry deps st =
     (case deriveNewSemverVersion (template (currentVersion_var st)) (template (specifierOf st))
             (opt_preid options) of
        Inl e \<Rightarrow> Inl e
      | Inr newVersion' \<Rightarrow>
          (case setNewVersion projectName newVersion' st of
             Inl e \<Rightarrow> Inl e
           | Inr st0 \<Rightarrow>
               (let st1 = st0\<lparr>poetryLocks := poetryLocks st0 @ [dirname env pyprojectTomlPath]\<rparr>;
                    st2 = buffer (LogNewVersion newVersion' pyprojectTomlPath)
                            (writePyprojectToml pyprojectTomlPath
                               (pyprojectToml\<lparr>tool_poetry :=
                                  Some (poetry\<lparr>poetry_version := Some newVersion'\<rparr>)\<rparr>) st1);
                    totalProjectsToUpdate =
                      (if updateDependentsOf options = ''auto''
                       then length (dep_all deps) + length (dep_transitive deps)
                              - length (remdups (dep_circular deps)) div 2
                       else length (dep_inBatch deps));
                    st3 = (if dep_all deps \<noteq> [] \<and> totalProjectsToUpdate > 0
                           then buffer (LogApplying newVersion' totalProjectsToUpdate) st2
                           else st2)
                in propagate env options projects projectName (poetry_name poetry) newVersion'
                     (dep_inBatch deps) (dep_outside deps) (dep_transitive deps) (dep_circular deps)
                     st3)))"

definition applyVersion ::
  "Env \<Rightarrow> Options \<Rightarrow> ProjectGraphProjectNode list \<Rightarrow> ProjectGraphProjectNode \<Rightarrow> string
    \<Rightarrow> PyprojectToml \<Rightarrow> Poetry \<Rightarrow> State \<Rightarrow> error + State" where
  \<comment> \<open>the loop body from \<^verbatim>\<open>resolveLocalPackageDependencies\<close> on: the dependents of the
      project, its version data, the skip of an unchanged project, the new version and its
      propagation\<close>
  "applyVersion env options projects project pyprojectTomlPath pyprojectToml poetry st0 =
     (let resolved = resolveLocalPackageDependencies env (tree st0) projects
                       (projectNameToPackageRootMap st0) (independent options);
          st = st0\<lparr>projectNameToPackageRootMap := snd resolved\<rparr>;
          deps = classifyDependents options (specifierSource st) (name project) (fst resolved)
      in case recordVersionData options (name project) deps st of
           Inl e \<Rightarrow> Inl e
         | Inr st1 \<Rightarrow>
             if \<not> truthy (specifierOf st1) then Inr (skipProject options (name project) poetry st1)
             else bumpProject env options projects (name project) pyprojectTomlPath pyprojectToml
                    poetry deps st1)"

definition resolveProject ::
  "Env \<Rightarrow> Options \<Rightarrow> ProjectGraphProjectNode list \<Rightarrow> ProjectGraphProjectNode \<Rightarrow> State
    \<Rightarrow> error + (string \<times> PyprojectToml \<times> Poetry \<times> State)" where
  \<comment> \<open>the loop body up to the end of the \<^verbatim>\<open>switch (specifierSource)\<close>: the manifest of the
      project, its current version and its specifier\<close>
  "resolveProject env options projects project st0 =
     (let projectName = name project
      in if \<not> truthy (projectNameToPackageRootMap st0 projectName)
         then Inl (NoPackageRoot projectName)
         else
           (let pyprojectTomlPath =
                  joinPathFragments env (template (projectNameToPackageRootMap st0 projectName))
                    ''pyproject.toml''
            in case tree st0 pyprojectTomlPath of
                 None \<Rightarrow> Inl (NoPyprojectToml projectName pyprojectTomlPath)
               | Some pyprojectToml \<Rightarrow>
                   (case tool_poetry pyprojectToml of
                      None \<Rightarrow> Inl TypeError
                    | Some poetry \<Rightarrow>
                        (case resolveCurrentVersion env options projectName (poetry_name poetry)
                                (poetry_version poetry) pyprojectTomlPath
                                (buffer (LogReading (poetry_name poetry) pyprojectTomlPath)
                                   (st0\<lparr>logs := []\<rparr>)) of
                           Inl e \<Rightarrow> Inl e
                         | Inr st1 \<Rightarrow>
                             (case resolveSpecifier env options projects projectName st1 of
                                Inl e \<Rightarrow> Inl e
                              | Inr st2 \<Rightarrow> Inr (pyprojectTomlPath, pyprojectToml, poetry, st2))))))"

definition processProject ::
  "Env \<Rightarrow> Options \<Rightarrow> ProjectGraphProjectNode list \<Rightarrow> ProjectGraphProjectNode \<Rightarrow> State
    \<Rightarrow> error + State" where
  \<comment> \<open>the body of \<^verbatim>\<open>for (const project of projects)\<close>\<close>
  "processProject env options projects project st0 =
     (case resolveProject env options projects project st0 of
        Inl e \<Rightarrow> Inl e
      | Inr (pyprojectTomlPath, pyprojectToml, poetry, st) \<Rightarrow>
          applyVersion env options projects project pyprojectTomlPath pyprojectToml poetry st)"

definition initialState :: "Env \<Rightarrow> Options \<Rightarrow> ProjectGraphProjectNode list \<Rightarrow> Tree \<Rightarrow> State" where
  \<comment> \<open>the declarations before the loop\<close>
  "initialState env options projects t =
     \<lparr>tree = t,
      versionData = Map.empty,
      poetryLocks = [],
      projectToDependencyBumps = Map.empty,
      projectNameToPackageRootMap =
        foldl (\<lambda>m project. m(name project \<mapsto> createResolvePackageRoot env (opt_packageRoot options) project))
          Map.empty projects,
      currentVersion_var = None,
      currentVersionResolvedFromFallback = False,
      latestMatchingGitTag = None,
      specifier_var = (if truthy (opt_specifier options) then Some (opt_specifier options) else None),
      specifierSource = opt_specifierSource options,
      deleteVersionPlanCallbacks = [],
      logs = [],
      flushed = [],
      writes = [],
      forcedBumps = []\<rparr>"

definition processingOrder :: "Env \<Rightarrow> Options \<Rightarrow> ProjectGraphProjectNode list" where
  \<comment> \<open>\<^verbatim>\<open>const projects = updateDependents === 'never' ? options.projects : sortProjectsTopologically(...)\<close>\<close>
  "processingOrder env options =
     (if updateDependentsOf options = ''never'' then opt_projects options
      else sortProjectsTopologically env (opt_projects options))"

definition releaseVersionGenerator :: "Env \<Rightarrow> Tree \<Rightarrow> Options \<Rightarrow> error + State" where
  \<comment> \<open>The state after the loop: \<open>versionData\<close> is the \<^verbatim>\<open>data\<close> of the result, and the result's
      callback is \<open>callback\<close> below on this state. \<^verbatim>\<open>formatFiles\<close> reformats the files' text
      and does not change a manifest's content. An error is the \<^verbatim>\<open>catch\<close> block, which ends
      the process.\<close>
  "releaseVersionGenerator env t options0 =
     (case validateOptions options0 of
        Inl e \<Rightarrow> Inl e
      | Inr options \<Rightarrow>
          forEachResult (processProject env options (processingOrder env options))
            (processingOrder env options)
            (initialState env options (processingOrder env options) t))"

datatype effect = Rm string | RunPoetry "string list" string

record CallbackResult =
  changedFiles :: "string list"
  deletedFiles :: "string list"

fun runDeleteVersionPlanCallbacks :: "bool \<Rightarrow> VersionPlan list \<Rightarrow> effect list \<times> string list \<Rightarrow> effect list \<times> string list" where
  \<comment> \<open>\<^verbatim>\<open>for (const cb of deleteVersionPlanCallbacks) deletedFiles.push(...(await cb(opts.dryRun)))\<close>\<close>
  "runDeleteVersionPlanCallbacks dryRun [] acc = acc"
| "runDeleteVersionPlanCallbacks dryRun (p # ps) (effects, deleted) =
     runDeleteVersionPlanCallbacks dryRun ps
       (if \<not> dryRun then (effects @ [Rm (absolutePath p)], deleted @ [relativePath p])
        else (effects, deleted @ []))"

definition runPoetry :: "Env \<Rightarrow> string list \<Rightarrow> string \<Rightarrow> effect list \<Rightarrow> effect list \<times> error option" where
  \<comment> \<open>runs the command; a non-zero exit status throws\<close>
  "runPoetry env args cwd effects =
     (effects @ [RunPoetry args cwd],
      if poetryStatus env args cwd \<noteq> 0 then Some (CommandFailed args cwd) else None)"

fun lockAll :: "Env \<Rightarrow> string list \<Rightarrow> effect list \<Rightarrow> effect list \<times> error option" where
  \<comment> \<open>\<^verbatim>\<open>for (const lockDir of poetryLocks) runPoetry(['lock', '--no-update'], { cwd: lockDir })\<close>\<close>
  "lockAll env [] effects = (effects, None)"
| "lockAll env (lockDir # lockDirs) effects =
     (case runPoetry env [''lock'', ''--no-update''] lockDir effects of
        (effects1, Some e) \<Rightarrow> (effects1, Some e)
      | (effects1, None) \<Rightarrow> lockAll env lockDirs effects1)"

definition callback :: "Env \<Rightarrow> State \<Rightarrow> Tree \<Rightarrow> bool \<Rightarrow> effect list \<times> (error + CallbackResult)" where
  \<comment> \<open>The callback of the result, on the generator's final state; its first component is the
      list of commands run and files removed, in order.\<close>
  "callback env st t dryRun =
     (let deleted = runDeleteVersionPlanCallbacks dryRun (deleteVersionPlanCallbacks st) ([], []);
          changedFiles1 = map (\<lambda>lockDir. path_join env lockDir ''poetry.lock'') (poetryLocks st);
          locked = (if \<not> dryRun then lockAll env (poetryLocks st) (fst deleted) else (fst deleted, None))
      in case snd locked of
           Some e \<Rightarrow> (fst locked, Inl e)
         | None \<Rightarrow>
             if \<not> dryRun \<and> t ''pyproject.toml'' \<noteq> None then
               (case runPoetry env [''lock'', ''--no-update''] (tree_root env) (fst locked) of
                  (effects, Some e) \<Rightarrow> (effects, Inl e)
                | (effects, None) \<Rightarrow>
                    (effects, Inr \<lparr>changedFiles = changedFiles1 @ [''poetry.lock''],
                                   deletedFiles = snd deleted\<rparr>))
             else (fst locked, Inr \<lparr>changedFiles = changedFiles1, deletedFiles = snd deleted\<rparr>))"

section \<open>The topological order, from the specification\<close>

definition readyToEmit ::
  "LocalPackageDependency list \<Rightarrow> ProjectGraphProjectNode list \<Rightarrow> ProjectGraphProjectNode \<Rightarrow> bool" where
  "readyToEmit edges remaining p =
     list_all (\<lambda>e. source e = name p \<longrightarrow> target e \<notin> set (map name remaining)) edges"

function sortProjectsTopologically_spec ::
  "LocalPackageDependency list \<Rightarrow> ProjectGraphProjectNode list \<Rightarrow> ProjectGraphProjectNode list" where
  \<comment> \<open>Modelled from the spec: \<^verbatim>\<open>utils/sort-projects-topologically\<close> is not among the
      sources. The specification asks for a dependency-first order over the local edges
      restricted to the selected projects (Kahn's algorithm), which does not loop on a cycle
      and still emits each project of a cycle once. A project is emitted when none of the
      projects it depends on remains to be emitted; when no remaining project is in that
      position (a cycle), the first remaining one is emitted.\<close>
  "sortProjectsTopologically_spec edges [] = []"
| "sortProjectsTopologically_spec edges (p # ps) =
     (case find (readyToEmit edges (p # ps)) (p # ps) of
        Some q \<Rightarrow> q # sortProjectsTopologically_spec edges (remove1 q (p # ps))
      | None \<Rightarrow> p # sortProjectsTopologically_spec edges ps)"
  by pat_completeness auto
termination
  by (relation "measure (\<lambda>(edges, ps). length ps)")
     (auto simp: find_Some_iff length_remove1 split: if_splits)

section \<open>Example workspaces\<close>

text \<open>
  Concrete collaborators and workspaces, on which the theorems below are instantiated: paths
  are joined with a slash, edges and package roots outside the batch are given, every
  external query fails or answers a fixed value, and each command exits with status 0.
\<close>

definition demo_join :: "string \<Rightarrow> string \<Rightarrow> string" where
  "demo_join a b = a @ ''/'' @ b"

definition demo_dirname :: "string \<Rightarrow> string" where
  "demo_dirname p = rev (drop 1 (dropWhile (\<lambda>c. c \<noteq> CHR ''/'') (rev p)))"

definition demo_extract :: "Tree \<Rightarrow> string \<Rightarrow> dependencies option \<Rightarrow> string \<Rightarrow> string option" where
  "demo_extract t packageRoot deps dependencyName =
     (case deps of
        None \<Rightarrow> None
      | Some d \<Rightarrow>
          (case d dependencyName of
             Some (DepString s) \<Rightarrow> Some s
           | Some (DepObject v p) \<Rightarrow> v
           | None \<Rightarrow> None))"

definition demoEnv :: "LocalPackageDependency list \<Rightarrow> (string \<times> string) list \<Rightarrow> Env" where
  "demoEnv edges roots =
     \<lparr>registryVersion = (\<lambda>packageName. None),
      getLatestGitTagForPattern = (\<lambda>pattern projectName. None),
      getFirstGitCommit = Some ''0000000'',
      resolveSemverSpecifierFromConventionalCommits = (\<lambda>ref affected. None),
      resolveSemverSpecifierFromPrompt = (\<lambda>projectName. ''patch''),
      resolveLocalPackageDependencies = (\<lambda>t projects m includeAll. (edges, m ++ map_of roots)),
      extractDependencyVersion = demo_extract,
      sortProjectsTopologically = sortProjectsTopologically_spec edges,
      interpolate = (\<lambda>customPackageRoot projectRoot projectName. projectRoot),
      joinPathFragments = demo_join,
      dirname = demo_dirname,
      path_join = demo_join,
      poetryStatus = (\<lambda>args cwd. 0),
      tree_root = ''/workspace''\<rparr>"

definition edge :: "string \<Rightarrow> string \<Rightarrow> LocalPackageDependency" where
  "edge s t = \<lparr>source = s, target = t, dependencyCollection = ''dependencies'', groupKey = None\<rparr>"

definition projectNode :: "string \<Rightarrow> ProjectGraphProjectNode" where
  "projectNode n = \<lparr>name = n, root = n\<rparr>"

definition manifest :: "string \<Rightarrow> string option \<Rightarrow> (string \<times> dependency) list \<Rightarrow> PyprojectToml" where
  "manifest n v deps =
     \<lparr>tool_poetry = Some \<lparr>poetry_name = n, poetry_version = v,
                           poetry_dependencies = Some (map_of deps), poetry_group = None\<rparr>\<rparr>"

definition demoOptions :: "string list \<Rightarrow> Options" where
  \<comment> \<open>the explicit specifier \<^verbatim>\<open>patch\<close>, versions read from disk, propagation \<^verbatim>\<open>auto\<close>,
      independent projects\<close>
  "demoOptions names =
     \<lparr>opt_specifier = Some ''patch'',
      opt_versionPrefix = None,
      opt_firstRelease = False,
      opt_fallbackCurrentVersionResolver = None,
      opt_updateDependents = Some ''auto'',
      opt_projects = map projectNode names,
      opt_packageRoot = None,
      opt_logUnchangedProjects = None,
      opt_currentVersionResolver = Some ''disk'',
      opt_releaseGroup = \<lparr>rg_name = ''__default__'', rg_projectsRelationship = ''independent'',
                          rg_releaseTagPattern = ''v{version}'', rg_versionPlans = False,
                          rg_resolvedVersionPlans = None\<rparr>,
      opt_specifierSource = Some ''prompt'',
      opt_preid = None,
      opt_deleteVersionPlans = False,
      opt_preserveLocalDependencyProtocols = False\<rparr>"

definition plansOptions :: "string list \<Rightarrow> VersionPlan list \<Rightarrow> Options" where
  \<comment> \<open>as \<open>demoOptions\<close>, with version plans as the source of the specifier\<close>
  "plansOptions names plans =
     (demoOptions names)
       \<lparr>opt_specifier := None,
        opt_specifierSource := Some ''version-plans'',
        opt_deleteVersionPlans := True,
        opt_releaseGroup := \<lparr>rg_name = ''__default__'', rg_projectsRelationship = ''independent'',
                          rg_releaseTagPattern = ''v{version}'', rg_versionPlans = True,
                          rg_resolvedVersionPlans = Some plans\<rparr>\<rparr>"

definition scenarioTree :: Tree where
  \<comment> \<open>\<^verbatim>\<open>lib-a\<close> at 1.0.0 and \<^verbatim>\<open>app-b\<close> at 2.0.0, which depends on \<^verbatim>\<open>lib-a\<close>\<close>
  "scenarioTree = map_of
     [(''lib-a/pyproject.toml'', manifest ''lib-a'' (Some ''1.0.0'') []),
      (''app-b/pyproject.toml'',
         manifest ''app-b'' (Some ''2.0.0'') [(''lib-a'', DepString ''^1.0.0'')])]"

definition scenarioEnv :: Env where
  "scenarioEnv = demoEnv [edge ''app-b'' ''lib-a''] [(''app-b'', ''app-b'')]"

definition minorPlan :: VersionPlan where
  "minorPlan =
     ProjectsVersionPlan ''/workspace/.nx/version-plans/one.md'' ''.nx/version-plans/one.md''
       (map_of [(''lib-a'', ''minor'')])"

definition patchPlan :: VersionPlan where
  "patchPlan =
     ProjectsVersionPlan ''/workspace/.nx/version-plans/two.md'' ''.nx/version-plans/two.md''
       (map_of [(''lib-a'', ''patch'')])"

definition plansRun :: "error + State" where
  "plansRun =
     releaseVersionGenerator scenarioEnv scenarioTree (plansOptions [''lib-a''] [minorPlan, patchPlan])"

definition rootedTree :: Tree where
  \<comment> \<open>as \<open>scenarioTree\<close>, with a manifest at the root of the workspace\<close>
  "rootedTree = scenarioTree(''pyproject.toml'' \<mapsto> manifest ''workspace'' (Some ''0.0.0'') [])"

definition rootedRun :: "error + State" where
  "rootedRun =
     releaseVersionGenerator scenarioEnv rootedTree (plansOptions [''lib-a''] [minorPlan, patchPlan])"

definition unversionedTree :: Tree where
  \<comment> \<open>as \<open>scenarioTree\<close>, but the manifest of \<^verbatim>\<open>app-b\<close> has no version\<close>
  "unversionedTree = map_of
     [(''lib-a/pyproject.toml'', manifest ''lib-a'' (Some ''1.0.0'') []),
      (''app-b/pyproject.toml'', manifest ''app-b'' None [(''lib-a'', DepString ''^1.0.0'')])]"

definition demoState :: "Tree \<Rightarrow> string list \<Rightarrow> State" where
  \<comment> \<open>the state before the loop, for the given projects\<close>
  "demoState t names = initialState scenarioEnv (demoOptions names) (map projectNode names) t"

definition sameStore :: "State \<Rightarrow> State \<Rightarrow> bool" where
  \<comment> \<open>a step that changes neither the tree, the version data, the lock directories, the
      traces, the flushed logs, the dependency bumps nor the package roots\<close>
  "sameStore st st' =
     (tree st' = tree st \<and> versionData st' = versionData st \<and> poetryLocks st' = poetryLocks st
      \<and> writes st' = writes st \<and> forcedBumps st' = forcedBumps st \<and> flushed st' = flushed st
      \<and> projectToDependencyBumps st' = projectToDependencyBumps st
      \<and> projectNameToPackageRootMap st' = projectNameToPackageRootMap st)"

definition plansState :: "string list \<Rightarrow> VersionPlan list \<Rightarrow> State" where
  \<comment> \<open>the state before the loop of a run on \<open>scenarioTree\<close> with version plans\<close>
  "plansState names plans =
     initialState scenarioEnv (plansOptions names plans) (map projectNode names) scenarioTree"

definition ccEnv :: Env where
  \<comment> \<open>the latest tag is a prerelease and the commits since classify as \<^verbatim>\<open>minor\<close>\<close>
  "ccEnv = scenarioEnv
     \<lparr>getLatestGitTagForPattern := (\<lambda>pattern projectName. Some (''v1.0.0-beta.1'', ''1.0.0-beta.1'')),
      resolveSemverSpecifierFromConventionalCommits := (\<lambda>ref affected. Some ''minor'')\<rparr>"

definition ccOptions :: "string list \<Rightarrow> Options" where
  "ccOptions names =
     (demoOptions names)
       \<lparr>opt_specifier := None,
        opt_specifierSource := Some ''conventional-commits'',
        opt_currentVersionResolver := Some ''git-tag''\<rparr>"

definition untaggedOptions :: Options where
  \<comment> \<open>conventional commits on \<^verbatim>\<open>app-b\<close> alone, versions from git tags with the fallback to the
      version on disk\<close>
  "untaggedOptions =
     (ccOptions [''app-b''])\<lparr>opt_fallbackCurrentVersionResolver := Some ''disk''\<rparr>"

definition graduateEnv :: Env where
  \<comment> \<open>\<^verbatim>\<open>lib-a\<close> is tagged 1.0.0 and has a \<^verbatim>\<open>minor\<close> change; \<^verbatim>\<open>app-b\<close>, which depends on it, is
      tagged 2.0.0-beta.1 and has no change of its own\<close>
  "graduateEnv = scenarioEnv
     \<lparr>getLatestGitTagForPattern :=
        (\<lambda>pattern projectName.
           if projectName = ''lib-a'' then Some (''lib-a@1.0.0'', ''1.0.0'')
           else Some (''app-b@2.0.0-beta.1'', ''2.0.0-beta.1'')),
      resolveSemverSpecifierFromConventionalCommits :=
        (\<lambda>ref affected. if affected = [''lib-a''] then Some ''minor'' else None)\<rparr>"

definition cascadeEnv :: Env where
  \<comment> \<open>\<^verbatim>\<open>lib-a\<close> is tagged 1.0.0 and has a \<^verbatim>\<open>minor\<close> change; \<^verbatim>\<open>app-b\<close>, which depends on it, is
      tagged 2.0.0 and has no change of its own\<close>
  "cascadeEnv = scenarioEnv
     \<lparr>getLatestGitTagForPattern :=
        (\<lambda>pattern projectName.
           if projectName = ''lib-a'' then Some (''lib-a@1.0.0'', ''1.0.0'')
           else Some (''app-b@2.0.0'', ''2.0.0'')),
      resolveSemverSpecifierFromConventionalCommits :=
        (\<lambda>ref affected. if affected = [''lib-a''] then Some ''minor'' else None)\<rparr>"

definition sameControl :: "State \<Rightarrow> State \<Rightarrow> bool" where
  \<comment> \<open>a step that changes none of the loop variables \<^verbatim>\<open>specifier\<close>, \<^verbatim>\<open>currentVersion\<close> and
      \<^verbatim>\<open>options.specifierSource\<close>\<close>
  "sameControl st st' =
     (specifier_var st' = specifier_var st \<and> specifierSource st' = specifierSource st
      \<and> currentVersion_var st' = currentVersion_var st)"

definition vOptions :: Options where
  \<comment> \<open>the explicit version \<^verbatim>\<open>v1.5.0\<close> for two independent projects\<close>
  "vOptions = (demoOptions [''lib-a'', ''app-b''])\<lparr>opt_specifier := Some ''v1.5.0''\<rparr>"


definition cycleTree :: Tree where
  \<comment> \<open>three projects at 1.0.0: \<^verbatim>\<open>a\<close> and \<^verbatim>\<open>b\<close> depend on each other, \<^verbatim>\<open>c\<close> depends on \<^verbatim>\<open>a\<close>,
      and \<^verbatim>\<open>b\<close> also depends on \<^verbatim>\<open>c\<close>\<close>
  "cycleTree = map_of
     [(''a/pyproject.toml'', manifest ''a'' (Some ''1.0.0'') [(''b'', DepString ''^1.0.0'')]),
      (''b/pyproject.toml'',
         manifest ''b'' (Some ''1.0.0'') [(''a'', DepString ''^1.0.0''), (''c'', DepString ''^1.0.0'')]),
      (''c/pyproject.toml'', manifest ''c'' (Some ''1.0.0'') [(''a'', DepString ''^1.0.0'')])]"

definition diamondEnv :: Env where
  \<comment> \<open>all four edges of \<open>cycleTree\<close>\<close>
  "diamondEnv =
     demoEnv [edge ''a'' ''b'', edge ''b'' ''a'', edge ''b'' ''c'', edge ''c'' ''a'']
       [(''b'', ''b''), (''c'', ''c'')]"

definition mutualEnv :: Env where
  \<comment> \<open>only the two edges between \<^verbatim>\<open>a\<close> and \<^verbatim>\<open>b\<close>\<close>
  "mutualEnv = demoEnv [edge ''a'' ''b'', edge ''b'' ''a''] [(''b'', ''b'')]"

fun safe_identifier :: "pre_id \<Rightarrow> bool" where
  \<comment> \<open>a number, or a string that is not numeric: identifiers that \<^verbatim>\<open>compareIdentifiers\<close>
      compares exactly\<close>
  "safe_identifier (Numeric n) = True"
| "safe_identifier (AlphaNum s) = (\<not> numeric_string s)"

definition safe_version :: "string option \<Rightarrow> bool" where
  \<comment> \<open>a version that \<^verbatim>\<open>semver\<close> accepts and whose numeric prerelease identifiers are below
      \<^verbatim>\<open>MAX_SAFE_INTEGER\<close>\<close>
  "safe_version a =
     (case Option.bind a parse_semver of
        None \<Rightarrow> False
      | Some v \<Rightarrow> list_all safe_identifier (v_prerelease v))"

definition projectVersionBump :: "string \<Rightarrow> VersionPlan \<Rightarrow> string option" where
  \<comment> \<open>\<^verbatim>\<open>plan.projectVersionBumps[projectName]\<close>\<close>
  "projectVersionBump projectName plan =
     (case plan of ProjectsVersionPlan a r bumps \<Rightarrow> bumps projectName | GroupVersionPlan a r b \<Rightarrow> None)"

definition planMatchesGroup :: "Options \<Rightarrow> VersionPlan \<Rightarrow> bool" where
  \<comment> \<open>a plan of the kind that the release group resolves: a map of bumps per project for
      independent projects, one bump for the group otherwise\<close>
  "planMatchesGroup options plan =
     (case plan of
        ProjectsVersionPlan a r bumps \<Rightarrow> independent options
      | GroupVersionPlan a r b \<Rightarrow> \<not> independent options \<and> b \<noteq> [])"

definition requestedBumps :: "Options \<Rightarrow> string \<Rightarrow> VersionPlan list \<Rightarrow> string option list" where
  \<comment> \<open>the bumps that the plans request for the project, in the order of the plans\<close>
  "requestedBumps options projectName plans =
     filter truthy
       (map (if independent options then projectVersionBump projectName else groupVersionBump) plans)"

definition firstGreatest :: "string option \<Rightarrow> string option list \<Rightarrow> string option \<Rightarrow> bool" where
  \<comment> \<open>\<open>spec\<close> is one of \<open>bumps\<close>, no bump gives a greater version, and every bump before its
      first occurrence gives a smaller one\<close>
  "firstGreatest current bumps spec =
     (spec \<in> set bumps
      \<and> (\<forall>x\<in>set bumps. gt (inc current x None) (inc current spec None) \<noteq> Inr True)
      \<and> (\<forall>x\<in>set (takeWhile (\<lambda>x. x \<noteq> spec) bumps).
            gt (inc current spec None) (inc current x None) = Inr True))"

definition groupPatchPlan :: VersionPlan where
  "groupPatchPlan =
     GroupVersionPlan ''/workspace/.nx/version-plans/three.md'' ''.nx/version-plans/three.md'' ''patch''"

definition groupMinorPlan :: VersionPlan where
  "groupMinorPlan =
     GroupVersionPlan ''/workspace/.nx/version-plans/four.md'' ''.nx/version-plans/four.md'' ''minor''"

definition fixedOptions :: "string list \<Rightarrow> VersionPlan list \<Rightarrow> Options" where
  \<comment> \<open>version plans for a fixed release group, versions read from disk, no propagation\<close>
  "fixedOptions names plans =
     (plansOptions names plans)
       \<lparr>opt_updateDependents := None,
        opt_releaseGroup := \<lparr>rg_name = ''__default__'', rg_projectsRelationship = ''fixed'',
                          rg_releaseTagPattern = ''v{version}'', rg_versionPlans = True,
                          rg_resolvedVersionPlans = Some plans\<rparr>\<rparr>"

definition prereleaseTree :: Tree where
  \<comment> \<open>\<^verbatim>\<open>lib-a\<close> at the prerelease 1.0.0-beta.1 and \<^verbatim>\<open>app-b\<close> at 2.0.0\<close>
  "prereleaseTree = map_of
     [(''lib-a/pyproject.toml'', manifest ''lib-a'' (Some ''1.0.0-beta.1'') []),
      (''app-b/pyproject.toml'',
         manifest ''app-b'' (Some ''2.0.0'') [(''lib-a'', DepString ''^1.0.0-beta.1'')])]"

section \<open>Properties\<close>

subsection \<open>The result callback\<close>

lemma runDelete_dry: "runDeleteVersionPlanCallbacks True cbs acc = acc"
  by (induction cbs arbitrary: acc) (auto split: prod.splits)

lemma runDelete_real:
  "runDeleteVersionPlanCallbacks False cbs (effects, deleted) =
     (effects @ map (\<lambda>p. Rm (absolutePath p)) cbs, deleted @ map relativePath cbs)"
  by (induction cbs arbitrary: effects deleted) auto

lemma lockAll_ok:
  "(\<And>args cwd. poetryStatus env args cwd = 0) \<Longrightarrow>
   lockAll env dirs effects = (effects @ map (RunPoetry [''lock'', ''--no-update'']) dirs, None)"
  by (induction dirs arbitrary: effects) (auto simp: runPoetry_def)

text \<open>
  C8 (as the code has it). Called with \<^verbatim>\<open>dryRun: true\<close>, the callback runs no command and
  removes no file; it reports no deleted file, and as changed files the \<^verbatim>\<open>poetry.lock\<close> of
  every directory recorded during the run, and nothing else. Called with
  \<^verbatim>\<open>dryRun: false\<close>, and every command succeeding, it removes each version-plan file
  scheduled for deletion and reports its relative path, runs \<^verbatim>\<open>poetry lock --no-update\<close> in
  every recorded directory and, when the workspace root has a \<^verbatim>\<open>pyproject.toml\<close>, in the root,
  and reports the same lock files, followed in that case by the \<^verbatim>\<open>poetry.lock\<close> of the root.
\<close>

theorem callback_dry_run_and_real_run:
  "callback env st t True
     = ([], Inr \<lparr>changedFiles = map (\<lambda>lockDir. path_join env lockDir ''poetry.lock'') (poetryLocks st),
                  deletedFiles = []\<rparr>)
   \<and> ((\<forall>args cwd. poetryStatus env args cwd = 0) \<longrightarrow>
        callback env st t False
          = (map (\<lambda>p. Rm (absolutePath p)) (deleteVersionPlanCallbacks st)
               @ map (RunPoetry [''lock'', ''--no-update'']) (poetryLocks st)
               @ (if t ''pyproject.toml'' \<noteq> None
                  then [RunPoetry [''lock'', ''--no-update''] (tree_root env)] else []),
             Inr \<lparr>changedFiles =
                    map (\<lambda>lockDir. path_join env lockDir ''poetry.lock'') (poetryLocks st)
                      @ (if t ''pyproject.toml'' \<noteq> None then [''poetry.lock''] else []),
                  deletedFiles = map relativePath (deleteVersionPlanCallbacks st)\<rparr>))"
proof -
  have dry: "callback env st t True =
      ([], Inr \<lparr>changedFiles = map (\<lambda>lockDir. path_join env lockDir ''poetry.lock'') (poetryLocks st),
                deletedFiles = []\<rparr>)"
    by (simp add: callback_def runDelete_dry)
  have real: "callback env st t False
          = (map (\<lambda>p. Rm (absolutePath p)) (deleteVersionPlanCallbacks st)
               @ map (RunPoetry [''lock'', ''--no-update'']) (poetryLocks st)
               @ (if t ''pyproject.toml'' \<noteq> None
                  then [RunPoetry [''lock'', ''--no-update''] (tree_root env)] else []),
             Inr \<lparr>changedFiles =
                    map (\<lambda>lockDir. path_join env lockDir ''poetry.lock'') (poetryLocks st)
                      @ (if t ''pyproject.toml'' \<noteq> None then [''poetry.lock''] else []),
                  deletedFiles = map relativePath (deleteVersionPlanCallbacks st)\<rparr>)"
    if ok: "\<forall>args cwd. poetryStatus env args cwd = 0"
    using ok by (simp add: callback_def runDelete_real lockAll_ok runPoetry_def)
  show ?thesis using dry real by simp
qed

theorem callback_dry_run_and_real_run_witness:
  "(case rootedRun of
      Inl e \<Rightarrow> False
    | Inr st \<Rightarrow>
       (\<forall>args cwd. poetryStatus scenarioEnv args cwd = 0)
       \<and> callback scenarioEnv st rootedTree True
           = ([], Inr \<lparr>changedFiles = [''lib-a/poetry.lock'', ''app-b/poetry.lock''],
                        deletedFiles = []\<rparr>)
       \<and> callback scenarioEnv st rootedTree False
           = ([Rm ''/workspace/.nx/version-plans/one.md'', Rm ''/workspace/.nx/version-plans/two.md'',
               RunPoetry [''lock'', ''--no-update''] ''lib-a'',
               RunPoetry [''lock'', ''--no-update''] ''app-b'',
               RunPoetry [''lock'', ''--no-update''] ''/workspace''],
              Inr \<lparr>changedFiles = [''lib-a/poetry.lock'', ''app-b/poetry.lock'', ''poetry.lock''],
                   deletedFiles = [''.nx/version-plans/one.md'', ''.nx/version-plans/two.md'']\<rparr>))"
proof -
  have ok: "\<forall>args cwd. poetryStatus scenarioEnv args cwd = 0"
    by (simp add: scenarioEnv_def demoEnv_def)
  have facts: "(case rootedRun of
      Inl e \<Rightarrow> False
    | Inr st \<Rightarrow> map absolutePath (deleteVersionPlanCallbacks st)
          = [''/workspace/.nx/version-plans/one.md'', ''/workspace/.nx/version-plans/two.md'']
        \<and> map relativePath (deleteVersionPlanCallbacks st)
          = [''.nx/version-plans/one.md'', ''.nx/version-plans/two.md'']
        \<and> poetryLocks st = [''lib-a'', ''app-b''])"
    by code_simp
  have root: "rootedTree ''pyproject.toml'' \<noteq> None"
    by code_simp
  have env: "tree_root scenarioEnv = ''/workspace''"
    "path_join scenarioEnv ''lib-a'' ''poetry.lock'' = ''lib-a/poetry.lock''"
    "path_join scenarioEnv ''app-b'' ''poetry.lock'' = ''app-b/poetry.lock''"
    by (simp_all add: scenarioEnv_def demoEnv_def demo_join_def)
  show ?thesis
  proof (cases rootedRun)
    case (Inl e)
    from facts show ?thesis unfolding Inl by simp
  next
    case (Inr st)
    from facts have st: "map absolutePath (deleteVersionPlanCallbacks st)
          = [''/workspace/.nx/version-plans/one.md'', ''/workspace/.nx/version-plans/two.md'']"
      "map relativePath (deleteVersionPlanCallbacks st)
          = [''.nx/version-plans/one.md'', ''.nx/version-plans/two.md'']"
      "poetryLocks st = [''lib-a'', ''app-b'']"
      unfolding Inr by simp_all
    have rm: "map (\<lambda>p. Rm (absolutePath p)) (deleteVersionPlanCallbacks st)
                = map Rm (map absolutePath (deleteVersionPlanCallbacks st))"
      by simp
    from callback_dry_run_and_real_run [of scenarioEnv st rootedTree] ok root
    show ?thesis unfolding Inr rm
      by (simp add: st env)
  qed
qed

text \<open>
  The dry run does not report what the real run reports: after a run that consumed two version
  plans in a workspace whose root has a \<^verbatim>\<open>pyproject.toml\<close>, the dry run's \<^verbatim>\<open>deletedFiles\<close> is
  empty where the real run's lists both plan files, and its \<^verbatim>\<open>changedFiles\<close> lacks the
  \<^verbatim>\<open>poetry.lock\<close> of the root.
\<close>

theorem callback_dry_run_counterexample:
  "(case rootedRun of
      Inl e \<Rightarrow> False
    | Inr st \<Rightarrow>
        snd (callback scenarioEnv st rootedTree True)
          = Inr \<lparr>changedFiles = [''lib-a/poetry.lock'', ''app-b/poetry.lock''], deletedFiles = []\<rparr>
        \<and> snd (callback scenarioEnv st rootedTree False)
          = Inr \<lparr>changedFiles = [''lib-a/poetry.lock'', ''app-b/poetry.lock'', ''poetry.lock''],
                 deletedFiles = [''.nx/version-plans/one.md'', ''.nx/version-plans/two.md'']\<rparr>)"
  by code_simp

lemma writePyprojectToml_same:
  "tree st p = Some pp \<Longrightarrow> tree (writePyprojectToml p pp st) = tree st"
  by (auto simp: writePyprojectToml_def)

subsection \<open>A dependent without a version\<close>

text \<open>
  C10. A dependent whose manifest has no version is never given one by a forced bump: the
  manifest is written back as it was read, and, when a bump was to be forced, the version data
  of the dependent records the current version \<^verbatim>\<open>null\<close> and, as new version, the version
  string the dependent declares for the bumped dependency. Without a forced bump the version
  data is left alone.
\<close>

theorem forced_bump_without_version:
  assumes root: "projectNameToPackageRootMap st (source dependentProject) = Some packageRoot"
    and manifest: "readPyprojectToml (tree st) (joinPathFragments env packageRoot ''pyproject.toml'') = Some pp"
    and poetry: "tool_poetry pp = Some poetry"
    and noversion: "poetry_version poetry = None"
    and declared: "currentDependencyVersionOf env (tree st) packageRoot poetry dependentProject
                     dependencyPackageName = Inr currentDependencyVersion"
  shows "\<exists>st'. updateDependentProjectAndAddToVersionData env options transitiveLocalPackageDependents
                 dependentProject dependencyPackageName newDependencyVersion forceVersionBump st = Inr st'
          \<and> tree st' = tree st
          \<and> writes st' = writes st @ [joinPathFragments env packageRoot ''pyproject.toml'']
          \<and> forcedBumps st' = forcedBumps st
          \<and> versionData st' =
              (if forceVersionBump \<noteq> None
               then (versionData st)
                      (source dependentProject \<mapsto>
                         \<lparr>currentVersion = None,
                          newVersion = currentDependencyVersion,
                          dependentProjects =
                            filter (\<lambda>d. target d = source dependentProject)
                              transitiveLocalPackageDependents\<rparr>)
               else versionData st)"
proof -
  let ?p = "joinPathFragments env packageRoot ''pyproject.toml''"
  have t: "tree st ?p = Some pp"
    using manifest by (simp add: readPyprojectToml_def)
  have same: "(tree st)(?p \<mapsto> pp) = tree st"
    using t by (rule map_upd_triv)
  show ?thesis
    using root manifest poetry noversion declared same
    by (simp add: updateDependentProjectAndAddToVersionData_def Let_def truthy_def
          writePyprojectToml_def)
qed

theorem forced_bump_without_version_witness:
  "projectNameToPackageRootMap (demoState unversionedTree [''lib-a'', ''app-b''])
       (source (edge ''app-b'' ''lib-a'')) = Some ''app-b''
   \<and> readPyprojectToml (tree (demoState unversionedTree [''lib-a'', ''app-b'']))
        (joinPathFragments scenarioEnv ''app-b'' ''pyproject.toml'')
       = Some (manifest ''app-b'' None [(''lib-a'', DepString ''^1.0.0'')])
   \<and> (\<exists>st'. updateDependentProjectAndAddToVersionData scenarioEnv (demoOptions [''lib-a'', ''app-b''])
                 [] (edge ''app-b'' ''lib-a'') ''lib-a'' (Some ''1.0.1'') (Some ''patch'')
                 (demoState unversionedTree [''lib-a'', ''app-b'']) = Inr st'
          \<and> tree st' = unversionedTree
          \<and> versionData st' ''app-b''
              = Some \<lparr>currentVersion = None, newVersion = Some ''^1.0.0'', dependentProjects = []\<rparr>)"
proof -
  let ?st = "demoState unversionedTree [''lib-a'', ''app-b'']"
  let ?poetry = "\<lparr>poetry_name = ''app-b'', poetry_version = None,
                   poetry_dependencies = Some (map_of [(''lib-a'', DepString ''^1.0.0'')]),
                   poetry_group = None\<rparr>"
  have root: "projectNameToPackageRootMap ?st (source (edge ''app-b'' ''lib-a'')) = Some ''app-b''"
    by (simp add: demoState_def initialState_def edge_def projectNode_def createResolvePackageRoot_def
          demoOptions_def truthy_def)
  have t: "tree ?st = unversionedTree"
    by (simp add: demoState_def initialState_def)
  have vd: "versionData ?st = Map.empty"
    by (simp add: demoState_def initialState_def)
  have path: "joinPathFragments scenarioEnv ''app-b'' ''pyproject.toml'' = ''app-b/pyproject.toml''"
    by (simp add: scenarioEnv_def demoEnv_def demo_join_def)
  have manifest: "readPyprojectToml (tree ?st) (joinPathFragments scenarioEnv ''app-b'' ''pyproject.toml'')
                    = Some (manifest ''app-b'' None [(''lib-a'', DepString ''^1.0.0'')])"
    unfolding t path readPyprojectToml_def by (simp add: unversionedTree_def)
  have poetry: "tool_poetry (manifest ''app-b'' None [(''lib-a'', DepString ''^1.0.0'')]) = Some ?poetry"
    by (simp add: manifest_def)
  have declared: "currentDependencyVersionOf scenarioEnv (tree ?st) ''app-b'' ?poetry
                    (edge ''app-b'' ''lib-a'') ''lib-a'' = Inr (Some ''^1.0.0'')"
    unfolding t by (simp add: currentDependencyVersionOf_def edge_def scenarioEnv_def demoEnv_def demo_extract_def)
  from forced_bump_without_version [OF root manifest poetry _ declared,
         of "demoOptions [''lib-a'', ''app-b'']" "[]" "Some ''1.0.1''" "Some ''patch''"]
  show ?thesis using root manifest by (auto simp add: t vd edge_def)
qed

subsection \<open>What the resolution of a project leaves alone\<close>

lemma buffer_fields [simp]:
  "tree (buffer msg st) = tree st"
  "versionData (buffer msg st) = versionData st"
  "poetryLocks (buffer msg st) = poetryLocks st"
  "writes (buffer msg st) = writes st"
  "forcedBumps (buffer msg st) = forcedBumps st"
  "flushed (buffer msg st) = flushed st"
  "currentVersion_var (buffer msg st) = currentVersion_var st"
  "specifier_var (buffer msg st) = specifier_var st"
  "specifierSource (buffer msg st) = specifierSource st"
  "deleteVersionPlanCallbacks (buffer msg st) = deleteVersionPlanCallbacks st"
  "projectNameToPackageRootMap (buffer msg st) = projectNameToPackageRootMap st"
  "projectToDependencyBumps (buffer msg st) = projectToDependencyBumps st"
  "logs (buffer msg st) = logs st @ [msg]"
  by (simp_all add: buffer_def)

lemma sameStore_simps [simp]:
  "sameStore st st"
  "sameStore st (buffer msg st') = sameStore st st'"
  "sameStore st (st'\<lparr>currentVersion_var := a\<rparr>) = sameStore st st'"
  "sameStore st (st'\<lparr>currentVersionResolvedFromFallback := b\<rparr>) = sameStore st st'"
  "sameStore st (st'\<lparr>latestMatchingGitTag := c\<rparr>) = sameStore st st'"
  "sameStore st (st'\<lparr>specifier_var := d\<rparr>) = sameStore st st'"
  "sameStore st (st'\<lparr>specifierSource := e\<rparr>) = sameStore st st'"
  "sameStore st (st'\<lparr>deleteVersionPlanCallbacks := f\<rparr>) = sameStore st st'"
  "sameStore st (st'\<lparr>logs := g\<rparr>) = sameStore st st'"
  by (simp_all add: sameStore_def)

lemma resolveCurrentVersion_sameStore:
  "case resolveCurrentVersion env options projectName packageName fromDisk path st of
     Inl e \<Rightarrow> True | Inr st' \<Rightarrow> sameStore st st'"
  by (simp add: resolveCurrentVersion_def Let_def split: option.split prod.split)

lemma sameStore_trans: "sameStore a b \<Longrightarrow> sameStore b c \<Longrightarrow> sameStore a c"
  by (simp add: sameStore_def)

lemma conventionalCommitsSpecifier_sameStore:
  "case conventionalCommitsSpecifier env options projects projectName st of
     Inl e \<Rightarrow> True | Inr st' \<Rightarrow> sameStore st st'"
  by (simp add: conventionalCommitsSpecifier_def Let_def split: option.split prod.split)

lemma versionPlansSpecifier_sameStore:
  "case versionPlansSpecifier options projectName st of
     Inl e \<Rightarrow> True | Inr st' \<Rightarrow> sameStore st st'"
  by (simp add: versionPlansSpecifier_def Let_def split: option.split prod.split sum.split)

lemma resolveSpecifier_sameStore:
  "case resolveSpecifier env options projects projectName st of
     Inl e \<Rightarrow> True | Inr st' \<Rightarrow> sameStore st st'"
proof -
  define st1 where "st1 = (if truthy (opt_specifier options)
                then (buffer (LogProvidedSpecifier (template (opt_specifier options))) st)
                       \<lparr>specifierSource := Some ''prompt''\<rparr>
                else st)"
  have a: "sameStore st st1" by (simp add: st1_def)
  have b: "case resolveSpecifier env options projects projectName st of
     Inl e \<Rightarrow> True | Inr st' \<Rightarrow> sameStore st1 st'"
    using conventionalCommitsSpecifier_sameStore
            [where env = env and options = options and projects = projects
               and projectName = projectName and st = st1]
      versionPlansSpecifier_sameStore
            [where options = options and projectName = projectName and st = st1]
    by (simp add: resolveSpecifier_def Let_def st1_def [symmetric])
  show ?thesis
    using a b by (auto split: sum.splits intro: sameStore_trans)
qed

lemma resolveProject_sameStore:
  assumes "resolveProject env options projects project st = Inr (path, pp, poetry, st')"
  shows "sameStore st st'"
proof -
  define st0 where "st0 = buffer (LogReading (poetry_name poetry) path) (st\<lparr>logs := []\<rparr>)"
  obtain st1 where
    cv: "resolveCurrentVersion env options (name project) (poetry_name poetry) (poetry_version poetry)
           path st0 = Inr st1"
    and sp: "resolveSpecifier env options projects (name project) st1 = Inr st'"
    using assms unfolding resolveProject_def Let_def st0_def
    by (auto split: if_splits option.splits sum.splits)
  have "sameStore st st0" by (simp add: st0_def)
  moreover have "sameStore st0 st1"
    using resolveCurrentVersion_sameStore
            [where env = env and options = options and projectName = "name project"
               and packageName = "poetry_name poetry" and fromDisk = "poetry_version poetry"
               and path = path and st = st0] cv by simp
  moreover have "sameStore st1 st'"
    using resolveSpecifier_sameStore
            [where env = env and options = options and projects = projects
               and projectName = "name project" and st = st1] sp by simp
  ultimately show ?thesis by (blast intro: sameStore_trans)
qed

lemma specifierOf_update [simp]:
  "specifierOf (st\<lparr>logs := l\<rparr>) = specifierOf st"
  "specifierOf (st\<lparr>versionData := v\<rparr>) = specifierOf st"
  "specifierOf (st\<lparr>projectNameToPackageRootMap := m\<rparr>) = specifierOf st"
  "specifierOf (buffer msg st) = specifierOf st"
  by (simp_all add: specifierOf_def buffer_def)

lemma flush_fields [simp]:
  "tree (flush n st) = tree st"
  "versionData (flush n st) = versionData st"
  "poetryLocks (flush n st) = poetryLocks st"
  "writes (flush n st) = writes st"
  "forcedBumps (flush n st) = forcedBumps st"
  "flushed (flush n st) = flushed st @ [(n, logs st)]"
  "specifier_var (flush n st) = specifier_var st"
  by (simp_all add: flush_def)

lemma recordVersionData_result:
  "case recordVersionData options n deps st of
     Inl e \<Rightarrow> \<not> truthy (currentVersion_var st)
   | Inr st' \<Rightarrow>
       truthy (currentVersion_var st)
       \<and> tree st' = tree st \<and> writes st' = writes st \<and> poetryLocks st' = poetryLocks st
       \<and> forcedBumps st' = forcedBumps st \<and> flushed st' = flushed st
       \<and> specifierOf st' = specifierOf st
       \<and> specifier_var st' = specifier_var st
       \<and> currentVersion_var st' = currentVersion_var st
       \<and> specifierSource st' = specifierSource st
       \<and> projectNameToPackageRootMap st' = projectNameToPackageRootMap st
       \<and> projectToDependencyBumps st' = projectToDependencyBumps st
       \<and> versionData st' = (versionData st)
           (n \<mapsto> \<lparr>currentVersion = currentVersion_var st, newVersion = None,
                   dependentProjects =
                     (if updateDependentsOf options = ''auto''
                      then map stripGroupKey (dep_all deps)
                      else map stripGroupKey (dep_inBatch deps))\<rparr>)"
  by (simp add: recordVersionData_def Let_def specifierOf_def)

lemma skipProject_frame:
  "tree (skipProject options n poetry st) = tree st"
  "writes (skipProject options n poetry st) = writes st"
  "poetryLocks (skipProject options n poetry st) = poetryLocks st"
  "forcedBumps (skipProject options n poetry st) = forcedBumps st"
  "versionData (skipProject options n poetry st) = versionData st"
  "specifier_var (skipProject options n poetry st) = specifier_var st"
  by (simp_all add: skipProject_def Let_def)

lemma skipProject_flushed:
  "(case opt_logUnchangedProjects options of
      Some False \<Rightarrow> flushed (skipProject options n poetry st) = flushed st
    | _ \<Rightarrow> (\<exists>msgs. flushed (skipProject options n poetry st) = flushed st @ [(n, msgs)]))"
  by (simp add: skipProject_def Let_def split: option.splits bool.splits)

lemma applyVersion_unfold:
  "applyVersion env options projects project path pp poetry st0 =
     (case recordVersionData options (name project)
             (classifyDependents options (specifierSource st0) (name project)
                (fst (resolveLocalPackageDependencies env (tree st0) projects
                        (projectNameToPackageRootMap st0) (independent options))))
             (st0\<lparr>projectNameToPackageRootMap :=
                    snd (resolveLocalPackageDependencies env (tree st0) projects
                           (projectNameToPackageRootMap st0) (independent options))\<rparr>) of
        Inl e \<Rightarrow> Inl e
      | Inr st1 \<Rightarrow>
          if \<not> truthy (specifierOf st1) then Inr (skipProject options (name project) poetry st1)
          else bumpProject env options projects (name project) path pp poetry
                 (classifyDependents options (specifierSource st0) (name project)
                    (fst (resolveLocalPackageDependencies env (tree st0) projects
                            (projectNameToPackageRootMap st0) (independent options))))
                 st1)"
  by (simp add: applyVersion_def Let_def cong: sum.case_cong if_cong)

lemma applyVersion_skip:
  assumes nospec: "\<not> truthy (specifierOf st)"
    and current: "truthy (currentVersion_var st)"
  shows "\<exists>st'. applyVersion env options projects project path pp poetry st = Inr st'
          \<and> tree st' = tree st
          \<and> writes st' = writes st
          \<and> poetryLocks st' = poetryLocks st
          \<and> forcedBumps st' = forcedBumps st
          \<and> versionData st' = (versionData st)
                (name project \<mapsto>
                   \<lparr>currentVersion = currentVersion_var st, newVersion = None,
                    dependentProjects =
                      map stripGroupKey
                        ((if updateDependentsOf options = ''auto'' then dep_all else dep_inBatch)
                           (classifyDependents options (specifierSource st) (name project)
                              (fst (resolveLocalPackageDependencies env (tree st) projects
                                      (projectNameToPackageRootMap st) (independent options)))))\<rparr>)
          \<and> (case opt_logUnchangedProjects options of
                Some False \<Rightarrow> flushed st' = flushed st
              | _ \<Rightarrow> (\<exists>msgs. flushed st' = flushed st @ [(name project, msgs)]))"
proof -
  define resolved where "resolved = resolveLocalPackageDependencies env (tree st) projects
                       (projectNameToPackageRootMap st) (independent options)"
  define st0 where "st0 = st\<lparr>projectNameToPackageRootMap := snd resolved\<rparr>"
  define deps where "deps = classifyDependents options (specifierSource st) (name project) (fst resolved)"
  have st0: "tree st0 = tree st" "writes st0 = writes st" "poetryLocks st0 = poetryLocks st"
     "forcedBumps st0 = forcedBumps st" "flushed st0 = flushed st" "versionData st0 = versionData st"
     "specifierOf st0 = specifierOf st" "currentVersion_var st0 = currentVersion_var st"
    by (simp_all add: st0_def)
  have unf: "applyVersion env options projects project path pp poetry st =
     (case recordVersionData options (name project) deps st0 of
        Inl e \<Rightarrow> Inl e
      | Inr st1 \<Rightarrow>
          if \<not> truthy (specifierOf st1) then Inr (skipProject options (name project) poetry st1)
          else bumpProject env options projects (name project) path pp poetry deps st1)"
    unfolding applyVersion_unfold deps_def st0_def resolved_def ..
  note r = recordVersionData_result [where options = options and n = "name project" and deps = deps and st = st0]
  obtain st1 where rec: "recordVersionData options (name project) deps st0 = Inr st1"
    using r current st0 by (cases "recordVersionData options (name project) deps st0") simp_all
  from r have f1: "tree st1 = tree st" "writes st1 = writes st" "poetryLocks st1 = poetryLocks st"
     "forcedBumps st1 = forcedBumps st" "flushed st1 = flushed st" "specifierOf st1 = specifierOf st"
     and vd1: "versionData st1 = (versionData st)
           (name project \<mapsto> \<lparr>currentVersion = currentVersion_var st, newVersion = None,
                   dependentProjects =
                     (if updateDependentsOf options = ''auto''
                      then map stripGroupKey (dep_all deps)
                      else map stripGroupKey (dep_inBatch deps))\<rparr>)"
    unfolding rec by (simp_all add: st0)
  have ap: "applyVersion env options projects project path pp poetry st
              = Inr (skipProject options (name project) poetry st1)"
    unfolding unf rec using nospec by (simp add: f1)
  have vd: "versionData st1 = (versionData st)
                (name project \<mapsto>
                   \<lparr>currentVersion = currentVersion_var st, newVersion = None,
                    dependentProjects =
                      map stripGroupKey
                        ((if updateDependentsOf options = ''auto'' then dep_all else dep_inBatch)
                           (classifyDependents options (specifierSource st) (name project)
                              (fst (resolveLocalPackageDependencies env (tree st) projects
                                      (projectNameToPackageRootMap st) (independent options)))))\<rparr>)"
    unfolding vd1 deps_def resolved_def by simp
  from skipProject_flushed [of options "name project" poetry st1]
  have fl: "(case opt_logUnchangedProjects options of
                Some False \<Rightarrow> flushed (skipProject options (name project) poetry st1) = flushed st
              | _ \<Rightarrow> (\<exists>msgs. flushed (skipProject options (name project) poetry st1)
                                = flushed st @ [(name project, msgs)]))"
    unfolding f1 .
  show ?thesis
    unfolding ap using fl by (simp add: skipProject_frame f1 vd)
qed

lemma applyVersion_unresolved:
  assumes "\<not> truthy (currentVersion_var st)"
  shows "applyVersion env options projects project path pp poetry st
           = Inl (CurrentVersionUnresolved (name project))"
  using assms unfolding applyVersion_unfold by (simp add: recordVersionData_def Let_def)

subsection \<open>A project without a specifier\<close>

text \<open>
  C7 (as the code has it). When the specifier resolved for a project is \<^verbatim>\<open>null\<close> (or falsy)
  and its current version was resolved, the iteration ends without writing any manifest: the
  tree, the list of written paths and the list of lock directories are as before; the version
  data of the project is \<^verbatim>\<open>{currentVersion, newVersion: null, dependentProjects}\<close>, with all
  the dependents of the project when propagation is \<^verbatim>\<open>auto\<close> and those in the batch
  otherwise; and the buffered log of the project is flushed, unless \<^verbatim>\<open>logUnchangedProjects\<close>
  is \<^verbatim>\<open>false\<close>. When the current version could not be resolved the iteration throws before
  anything is recorded.
\<close>

theorem unchanged_project_is_not_written:
  assumes resolved: "resolveProject env options projects project st = Inr (path, pp, poetry, st2)"
    and nospec: "\<not> truthy (specifierOf st2)"
  shows "(truthy (currentVersion_var st2) \<longrightarrow>
           (\<exists>st'. processProject env options projects project st = Inr st'
              \<and> tree st' = tree st
              \<and> writes st' = writes st
              \<and> poetryLocks st' = poetryLocks st
              \<and> forcedBumps st' = forcedBumps st
              \<and> versionData st' = (versionData st)
                    (name project \<mapsto>
                       \<lparr>currentVersion = currentVersion_var st2, newVersion = None,
                        dependentProjects =
                          map stripGroupKey
                            ((if updateDependentsOf options = ''auto'' then dep_all else dep_inBatch)
                               (classifyDependents options (specifierSource st2) (name project)
                                  (fst (resolveLocalPackageDependencies env (tree st) projects
                                          (projectNameToPackageRootMap st) (independent options)))))\<rparr>)
              \<and> (case opt_logUnchangedProjects options of
                    Some False \<Rightarrow> flushed st' = flushed st
                  | _ \<Rightarrow> (\<exists>msgs. flushed st' = flushed st @ [(name project, msgs)]))))
       \<and> (\<not> truthy (currentVersion_var st2) \<longrightarrow>
             processProject env options projects project st
               = Inl (CurrentVersionUnresolved (name project)))"
proof -
  from resolveProject_sameStore [OF resolved]
  have fr: "tree st2 = tree st" "writes st2 = writes st" "poetryLocks st2 = poetryLocks st"
    "forcedBumps st2 = forcedBumps st" "versionData st2 = versionData st" "flushed st2 = flushed st"
    "projectNameToPackageRootMap st2 = projectNameToPackageRootMap st"
    by (simp_all add: sameStore_def)
  have run: "processProject env options projects project st
               = applyVersion env options projects project path pp poetry st2"
    by (simp add: processProject_def resolved)
  show ?thesis
  proof (intro conjI impI)
    assume current: "truthy (currentVersion_var st2)"
    from applyVersion_skip [OF nospec current, of env options projects project path pp poetry]
    show "\<exists>st'. processProject env options projects project st = Inr st'
              \<and> tree st' = tree st
              \<and> writes st' = writes st
              \<and> poetryLocks st' = poetryLocks st
              \<and> forcedBumps st' = forcedBumps st
              \<and> versionData st' = (versionData st)
                    (name project \<mapsto>
                       \<lparr>currentVersion = currentVersion_var st2, newVersion = None,
                        dependentProjects =
                          map stripGroupKey
                            ((if updateDependentsOf options = ''auto'' then dep_all else dep_inBatch)
                               (classifyDependents options (specifierSource st2) (name project)
                                  (fst (resolveLocalPackageDependencies env (tree st) projects
                                          (projectNameToPackageRootMap st) (independent options)))))\<rparr>)
              \<and> (case opt_logUnchangedProjects options of
                    Some False \<Rightarrow> flushed st' = flushed st
                  | _ \<Rightarrow> (\<exists>msgs. flushed st' = flushed st @ [(name project, msgs)]))"
      unfolding run fr .
  next
    assume "\<not> truthy (currentVersion_var st2)"
    then show "processProject env options projects project st
               = Inl (CurrentVersionUnresolved (name project))"
      unfolding run by (rule applyVersion_unresolved)
  qed
qed

theorem unchanged_project_is_not_written_witness:
  "(case resolveProject scenarioEnv (plansOptions [''lib-a'', ''app-b''] [minorPlan])
           (map projectNode [''lib-a'', ''app-b'']) (projectNode ''app-b'')
           (plansState [''lib-a'', ''app-b''] [minorPlan]) of
      Inl e \<Rightarrow> False
    | Inr (path, pp, poetry, st2) \<Rightarrow>
        \<not> truthy (specifierOf st2) \<and> currentVersion_var st2 = Some ''2.0.0''
        \<and> (\<exists>st'. processProject scenarioEnv (plansOptions [''lib-a'', ''app-b''] [minorPlan])
                     (map projectNode [''lib-a'', ''app-b'']) (projectNode ''app-b'')
                     (plansState [''lib-a'', ''app-b''] [minorPlan]) = Inr st'
               \<and> tree st' = tree (plansState [''lib-a'', ''app-b''] [minorPlan])
               \<and> writes st' = []
               \<and> versionData st' ''app-b''
                   = Some \<lparr>currentVersion = Some ''2.0.0'', newVersion = None, dependentProjects = []\<rparr>
               \<and> (\<exists>msgs. flushed st' = [(''app-b'', msgs)])))"
proof -
  let ?o = "plansOptions [''lib-a'', ''app-b''] [minorPlan]"
  let ?p = "map projectNode [''lib-a'', ''app-b'']"
  let ?s = "plansState [''lib-a'', ''app-b''] [minorPlan]"
  have facts: "(case resolveProject scenarioEnv ?o ?p (projectNode ''app-b'') ?s of
      Inl e \<Rightarrow> False
    | Inr (path, pp, poetry, st2) \<Rightarrow>
        \<not> truthy (specifierOf st2) \<and> currentVersion_var st2 = Some ''2.0.0''
        \<and> specifierSource st2 = Some ''version-plans'')"
    by code_simp
  have log: "opt_logUnchangedProjects ?o = None"
    by (simp add: plansOptions_def demoOptions_def)
  have fl: "flushed ?s = []" "writes ?s = []"
    by (simp_all add: plansState_def initialState_def)
  have nm: "name (projectNode ''app-b'') = ''app-b''"
    by (simp add: projectNode_def)
  have deps: "map stripGroupKey
                ((if updateDependentsOf ?o = ''auto'' then dep_all else dep_inBatch)
                   (classifyDependents ?o (Some ''version-plans'') ''app-b''
                      (fst (resolveLocalPackageDependencies scenarioEnv (tree ?s) ?p
                              (projectNameToPackageRootMap ?s) (independent ?o))))) = []"
    by code_simp
  show ?thesis
  proof (cases "resolveProject scenarioEnv ?o ?p (projectNode ''app-b'') ?s")
    case (Inl e)
    from facts show ?thesis unfolding Inl by simp
  next
    case (Inr r)
    obtain path pp poetry st2 where r: "r = (path, pp, poetry, st2)"
      by (cases r) auto
    from facts have h: "\<not> truthy (specifierOf st2)" "currentVersion_var st2 = Some ''2.0.0''"
      "specifierSource st2 = Some ''version-plans''"
      unfolding Inr r by simp_all
    from h(2) have t: "truthy (currentVersion_var st2)" by (simp add: truthy_def)
    from unchanged_project_is_not_written [OF Inr [unfolded r] h(1), THEN conjunct1, rule_format, OF t]
    obtain st' where st': "processProject scenarioEnv ?o ?p (projectNode ''app-b'') ?s = Inr st'"
      "tree st' = tree ?s" "writes st' = writes ?s"
      "versionData st' = (versionData ?s)
         (name (projectNode ''app-b'') \<mapsto>
            \<lparr>currentVersion = currentVersion_var st2, newVersion = None,
             dependentProjects =
               map stripGroupKey
                 ((if updateDependentsOf ?o = ''auto'' then dep_all else dep_inBatch)
                    (classifyDependents ?o (specifierSource st2) (name (projectNode ''app-b''))
                       (fst (resolveLocalPackageDependencies scenarioEnv (tree ?s) ?p
                               (projectNameToPackageRootMap ?s) (independent ?o)))))\<rparr>)"
      "(case opt_logUnchangedProjects ?o of
          Some False \<Rightarrow> flushed st' = flushed ?s
        | _ \<Rightarrow> (\<exists>msgs. flushed st' = flushed ?s @ [(name (projectNode ''app-b''), msgs)]))"
      by blast
    from st'(4) have vd: "versionData st' ''app-b''
        = Some \<lparr>currentVersion = Some ''2.0.0'', newVersion = None, dependentProjects = []\<rparr>"
      unfolding nm h(2) h(3) deps by simp
    from st'(5) have fl': "\<exists>msgs. flushed st' = [(''app-b'', msgs)]"
      unfolding log nm fl by simp
    from st'(1) st'(2) st'(3) vd fl' h show ?thesis unfolding Inr r fl by simp
  qed
qed

text \<open>
  Without a current version nothing is recorded: with conventional commits, versions from git
  tags with the fallback to the manifest, no tag, no change in the history and a manifest
  without a version, the specifier of \<^verbatim>\<open>app-b\<close> resolves to \<^verbatim>\<open>null\<close>, its current version is
  undefined, and the iteration throws.
\<close>

theorem unchanged_project_unresolved_counterexample:
  "(case resolveProject scenarioEnv untaggedOptions [projectNode ''app-b''] (projectNode ''app-b'')
           (initialState scenarioEnv untaggedOptions [projectNode ''app-b''] unversionedTree) of
      Inl e \<Rightarrow> False
    | Inr (path, pp, poetry, st2) \<Rightarrow> specifier_var st2 = Some None \<and> currentVersion_var st2 = None)
   \<and> (case processProject scenarioEnv untaggedOptions [projectNode ''app-b''] (projectNode ''app-b'')
              (initialState scenarioEnv untaggedOptions [projectNode ''app-b''] unversionedTree) of
         Inl e \<Rightarrow> e = CurrentVersionUnresolved ''app-b''
       | Inr st' \<Rightarrow> False)
   \<and> (case releaseVersionGenerator scenarioEnv unversionedTree untaggedOptions of
         Inl e \<Rightarrow> e = CurrentVersionUnresolved ''app-b''
       | Inr st' \<Rightarrow> False)"
  by code_simp

lemma resolveSpecifier_unresolved:
  assumes "\<not> truthy (opt_specifier options)"
    and "specifier_var st = None \<or> independent options"
  shows "resolveSpecifier env options projects projectName st =
     (if specifierSource st = Some ''conventional-commits''
        then conventionalCommitsSpecifier env options projects projectName st
      else if specifierSource st = Some ''prompt''
        then Inr (st\<lparr>specifier_var :=
                    Some (Some (resolveSemverSpecifierFromPrompt env
                                  (if independent options then Some projectName else None)))\<rparr>)
      else if specifierSource st = Some ''version-plans''
        then versionPlansSpecifier options projectName st
      else Inl (InvalidSpecifierSource (specifierSource st)))"
  using assms by (auto simp: resolveSpecifier_def Let_def)

subsection \<open>Fallbacks of the specifier resolution\<close>

text \<open>
  Under the conventional-commits source, when the history of the project classifies to a bump
  level and the current version is a prerelease, the specifier is \<^verbatim>\<open>prerelease\<close> whatever the
  level.
\<close>

lemma classified_prerelease_stays_prerelease:
  assumes nooverride: "\<not> truthy (opt_specifier options)"
    and unresolved: "specifier_var st = None \<or> independent options"
    and source: "specifierSource st = Some ''conventional-commits''"
    and resolver: "opt_currentVersionResolver options = Some ''git-tag''"
    and ref: "truthy (previousVersionRefOf env options st)"
    and classified: "truthy (resolveSemverSpecifierFromConventionalCommits env
                               (template (previousVersionRefOf env options st))
                               (if independent options then [projectName] else map name projects))"
    and pre: "prerelease (case currentVersion_var st of None \<Rightarrow> [] | Some v \<Rightarrow> v) \<noteq> None"
  shows "\<exists>st'. resolveSpecifier env options projects projectName st = Inr st'
            \<and> specifier_var st' = Some (Some ''prerelease'')"
proof -
  have "resolveSpecifier env options projects projectName st
          = conventionalCommitsSpecifier env options projects projectName st"
    using resolveSpecifier_unresolved [OF nooverride unresolved] source by simp
  moreover have "\<exists>st'. conventionalCommitsSpecifier env options projects projectName st = Inr st'
            \<and> specifier_var st' = Some (Some ''prerelease'')"
    using resolver ref classified pre
    by (simp add: conventionalCommitsSpecifier_def Let_def buffer_def)
  ultimately show ?thesis by simp
qed

lemma classified_prerelease_example:
  "resolveSemverSpecifierFromConventionalCommits ccEnv ''v1.0.0-beta.1'' [''lib-a''] = Some ''minor''
   \<and> prerelease ''1.0.0-beta.1'' = Some [AlphaNum ''beta'', Numeric 1]
   \<and> (case releaseVersionGenerator ccEnv scenarioTree (ccOptions [''lib-a'']) of
         Inl e \<Rightarrow> False
       | Inr st \<Rightarrow>
           specifier_var st = Some (Some ''prerelease'')
           \<and> map_option (\<lambda>e. (currentVersion e, newVersion e)) (versionData st ''lib-a'')
               = Some (Some ''1.0.0-beta.1'', Some ''1.0.0-beta.2''))"
  by code_simp

text \<open>
  C5. Under the conventional-commits source a project whose current version is a prerelease
  keeps a prerelease version, and graduates to a release only by an explicit specifier. The
  generator does not meet this when the history of the project shows no change and the
  project depends on a project bumped earlier in the run: the check for no change comes first
  and resolves to the fallback \<^verbatim>\<open>patch\<close>. With no specifier given, \<^verbatim>\<open>lib-a\<close> at 1.0.0 with a
  \<^verbatim>\<open>minor\<close> change and \<^verbatim>\<open>app-b\<close> at 2.0.0-beta.1 with no change of its own, \<^verbatim>\<open>app-b\<close> becomes
  the release 2.0.0.
\<close>

theorem prerelease_graduates_by_fallback:
  "opt_specifier (ccOptions [''lib-a'', ''app-b'']) = None
   \<and> getLatestGitTagForPattern graduateEnv ''v{version}'' ''app-b''
       = Some (''app-b@2.0.0-beta.1'', ''2.0.0-beta.1'')
   \<and> prerelease ''2.0.0-beta.1'' = Some [AlphaNum ''beta'', Numeric 1]
   \<and> resolveSemverSpecifierFromConventionalCommits graduateEnv ''app-b@2.0.0-beta.1'' [''app-b''] = None
   \<and> (case releaseVersionGenerator graduateEnv scenarioTree (ccOptions [''lib-a'', ''app-b'']) of
         Inl e \<Rightarrow> False
       | Inr st \<Rightarrow>
           specifier_var st = Some (Some ''patch'')
           \<and> map (\<lambda>n. map_option (\<lambda>e. (currentVersion e, newVersion e)) (versionData st n))
                 [''lib-a'', ''app-b'']
               = [Some (Some ''1.0.0'', Some ''1.1.0''), Some (Some ''2.0.0-beta.1'', Some ''2.0.0'')]
           \<and> Option.bind (Option.bind (tree st ''app-b/pyproject.toml'') tool_poetry) poetry_version
               = Some ''2.0.0'')"
  by code_simp

text \<open>
  C6. When the strategy consulted for a project (conventional commits or version plans) finds
  no specifier for it, propagation is not \<^verbatim>\<open>never\<close>, and the project is recorded in
  \<^verbatim>\<open>projectToDependencyBumps\<close>, the specifier is the fixed \<^verbatim>\<open>patch\<close>.
\<close>

theorem dependency_bump_fallback:
  assumes nooverride: "\<not> truthy (opt_specifier options)"
    and unresolved: "specifier_var st = None \<or> independent options"
    and enabled: "updateDependentsOf options \<noteq> ''never''"
    and recorded: "projectToDependencyBumps st projectName \<noteq> None"
    and strategy:
      "(specifierSource st = Some ''conventional-commits''
          \<and> opt_currentVersionResolver options = Some ''git-tag''
          \<and> truthy (previousVersionRefOf env options st)
          \<and> \<not> truthy (resolveSemverSpecifierFromConventionalCommits env
                          (template (previousVersionRefOf env options st))
                          (if independent options then [projectName] else map name projects)))
       \<or> (specifierSource st = Some ''version-plans''
          \<and> rg_versionPlans (opt_releaseGroup options)
          \<and> (\<exists>plans spec. rg_resolvedVersionPlans (opt_releaseGroup options) = Some plans
                \<and> (if independent options
                    then reduceProjectsVersionPlans (currentVersion_var st) projectName plans None
                    else reduceGroupVersionPlans (currentVersion_var st) plans None) = Inr spec
                \<and> \<not> truthy spec))"
  shows "\<exists>st'. resolveSpecifier env options projects projectName st = Inr st'
            \<and> specifier_var st' = Some (Some ''patch'')"
  using strategy
proof
  assume cc: "specifierSource st = Some ''conventional-commits''
          \<and> opt_currentVersionResolver options = Some ''git-tag''
          \<and> truthy (previousVersionRefOf env options st)
          \<and> \<not> truthy (resolveSemverSpecifierFromConventionalCommits env
                          (template (previousVersionRefOf env options st))
                          (if independent options then [projectName] else map name projects))"
  have "resolveSpecifier env options projects projectName st
          = conventionalCommitsSpecifier env options projects projectName st"
    using resolveSpecifier_unresolved [OF nooverride unresolved] cc by simp
  moreover have "\<exists>st'. conventionalCommitsSpecifier env options projects projectName st = Inr st'
            \<and> specifier_var st' = Some (Some ''patch'')"
    using cc enabled recorded
    by (simp add: conventionalCommitsSpecifier_def Let_def buffer_def updateDependentsBump_def)
  ultimately show ?thesis by simp
next
  assume vp: "specifierSource st = Some ''version-plans''
          \<and> rg_versionPlans (opt_releaseGroup options)
          \<and> (\<exists>plans spec. rg_resolvedVersionPlans (opt_releaseGroup options) = Some plans
                \<and> (if independent options
                    then reduceProjectsVersionPlans (currentVersion_var st) projectName plans None
                    else reduceGroupVersionPlans (currentVersion_var st) plans None) = Inr spec
                \<and> \<not> truthy spec)"
  then obtain plans spec where
    plans: "rg_resolvedVersionPlans (opt_releaseGroup options) = Some plans"
    and red: "(if independent options
                    then reduceProjectsVersionPlans (currentVersion_var st) projectName plans None
                    else reduceGroupVersionPlans (currentVersion_var st) plans None) = Inr spec"
    and none: "\<not> truthy spec"
    by blast
  have "resolveSpecifier env options projects projectName st
          = versionPlansSpecifier options projectName st"
    using resolveSpecifier_unresolved [OF nooverride unresolved] vp by simp
  moreover have "\<exists>st'. versionPlansSpecifier options projectName st = Inr st'
            \<and> specifier_var st' = Some (Some ''patch'')"
    using vp plans red none enabled recorded
    by (simp add: versionPlansSpecifier_def Let_def buffer_def updateDependentsBump_def)
  ultimately show ?thesis by simp
qed

theorem dependency_bump_fallback_witness:
  "(case processProject cascadeEnv (ccOptions [''lib-a'', ''app-b''])
           (map projectNode [''lib-a'', ''app-b'']) (projectNode ''lib-a'')
           (initialState cascadeEnv (ccOptions [''lib-a'', ''app-b''])
              (map projectNode [''lib-a'', ''app-b'']) scenarioTree) of
      Inl e \<Rightarrow> False
    | Inr st1 \<Rightarrow>
        (case resolveCurrentVersion cascadeEnv (ccOptions [''lib-a'', ''app-b'']) ''app-b'' ''app-b''
                (Some ''2.0.0'') ''app-b/pyproject.toml''
                (buffer (LogReading ''app-b'' ''app-b/pyproject.toml'') (st1\<lparr>logs := []\<rparr>)) of
           Inl e \<Rightarrow> False
         | Inr st \<Rightarrow>
             \<not> truthy (resolveSemverSpecifierFromConventionalCommits cascadeEnv ''app-b@2.0.0'' [''app-b''])
             \<and> (\<exists>st'. resolveSpecifier cascadeEnv (ccOptions [''lib-a'', ''app-b''])
                         (map projectNode [''lib-a'', ''app-b'']) ''app-b'' st = Inr st'
                    \<and> specifier_var st' = Some (Some ''patch''))))
   \<and> (case processProject scenarioEnv (plansOptions [''lib-a'', ''app-b''] [minorPlan])
           (map projectNode [''lib-a'', ''app-b'']) (projectNode ''lib-a'')
           (plansState [''lib-a'', ''app-b''] [minorPlan]) of
      Inl e \<Rightarrow> False
    | Inr st1 \<Rightarrow>
        (case resolveCurrentVersion scenarioEnv (plansOptions [''lib-a'', ''app-b''] [minorPlan])
                ''app-b'' ''app-b'' (Some ''2.0.0'') ''app-b/pyproject.toml''
                (buffer (LogReading ''app-b'' ''app-b/pyproject.toml'') (st1\<lparr>logs := []\<rparr>)) of
           Inl e \<Rightarrow> False
         | Inr st \<Rightarrow>
             reduceProjectsVersionPlans (Some ''2.0.0'') ''app-b'' [minorPlan] None = Inr None
             \<and> (\<exists>st'. resolveSpecifier scenarioEnv (plansOptions [''lib-a'', ''app-b''] [minorPlan])
                         (map projectNode [''lib-a'', ''app-b'']) ''app-b'' st = Inr st'
                    \<and> specifier_var st' = Some (Some ''patch''))))
   \<and> (case releaseVersionGenerator cascadeEnv scenarioTree (ccOptions [''lib-a'', ''app-b'']) of
         Inl e \<Rightarrow> False
       | Inr st \<Rightarrow>
           map (\<lambda>n. map_option (\<lambda>e. (currentVersion e, newVersion e)) (versionData st n))
               [''lib-a'', ''app-b'']
             = [Some (Some ''1.0.0'', Some ''1.1.0''), Some (Some ''2.0.0'', Some ''2.0.1'')])"
proof -
  let ?E = cascadeEnv
  let ?O = "ccOptions [''lib-a'', ''app-b'']"
  let ?P = "map projectNode [''lib-a'', ''app-b'']"
  let ?S = "initialState ?E ?O ?P scenarioTree"
  let ?O' = "plansOptions [''lib-a'', ''app-b''] [minorPlan]"
  let ?S' = "plansState [''lib-a'', ''app-b''] [minorPlan]"
  have a: "\<not> truthy (opt_specifier ?O)"
    by (simp add: ccOptions_def demoOptions_def truthy_def)
  have b: "independent ?O"
    by (simp add: independent_def ccOptions_def demoOptions_def)
  have c: "updateDependentsOf ?O \<noteq> ''never''"
    by (simp add: updateDependentsOf_def ccOptions_def demoOptions_def)
  have d: "opt_currentVersionResolver ?O = Some ''git-tag''"
    by (simp add: ccOptions_def)
  have cl: "\<not> truthy (resolveSemverSpecifierFromConventionalCommits ?E ''app-b@2.0.0'' [''app-b''])"
    by (simp add: cascadeEnv_def truthy_def)
  have a': "\<not> truthy (opt_specifier ?O')"
    by (simp add: plansOptions_def demoOptions_def truthy_def)
  have b': "independent ?O'"
    by (simp add: independent_def plansOptions_def demoOptions_def)
  have c': "updateDependentsOf ?O' \<noteq> ''never''"
    by (simp add: updateDependentsOf_def plansOptions_def demoOptions_def)
  have e': "rg_versionPlans (opt_releaseGroup ?O')"
    "rg_resolvedVersionPlans (opt_releaseGroup ?O') = Some [minorPlan]"
    by (simp_all add: plansOptions_def)
  have r: "reduceProjectsVersionPlans (Some ''2.0.0'') ''app-b'' [minorPlan] None = Inr None"
    by (simp add: minorPlan_def truthy_def)
  have facts: "(case processProject ?E ?O ?P (projectNode ''lib-a'') ?S of
      Inl e \<Rightarrow> False
    | Inr st1 \<Rightarrow>
        (case resolveCurrentVersion ?E ?O ''app-b'' ''app-b'' (Some ''2.0.0'') ''app-b/pyproject.toml''
                (buffer (LogReading ''app-b'' ''app-b/pyproject.toml'') (st1\<lparr>logs := []\<rparr>)) of
           Inl e \<Rightarrow> False
         | Inr st \<Rightarrow>
             specifierSource st = Some ''conventional-commits''
             \<and> latestMatchingGitTag st = Some (''app-b@2.0.0'', ''2.0.0'')
             \<and> (case projectToDependencyBumps st ''app-b'' of None \<Rightarrow> False | Some bumps \<Rightarrow> True)))"
    by code_simp
  have facts': "(case processProject scenarioEnv ?O' ?P (projectNode ''lib-a'') ?S' of
      Inl e \<Rightarrow> False
    | Inr st1 \<Rightarrow>
        (case resolveCurrentVersion scenarioEnv ?O' ''app-b'' ''app-b'' (Some ''2.0.0'')
                ''app-b/pyproject.toml''
                (buffer (LogReading ''app-b'' ''app-b/pyproject.toml'') (st1\<lparr>logs := []\<rparr>)) of
           Inl e \<Rightarrow> False
         | Inr st \<Rightarrow>
             specifierSource st = Some ''version-plans''
             \<and> currentVersion_var st = Some ''2.0.0''
             \<and> (case projectToDependencyBumps st ''app-b'' of None \<Rightarrow> False | Some bumps \<Rightarrow> True)))"
    by code_simp
  have run: "(case releaseVersionGenerator ?E scenarioTree ?O of
         Inl e \<Rightarrow> False
       | Inr st \<Rightarrow>
           map (\<lambda>n. map_option (\<lambda>e. (currentVersion e, newVersion e)) (versionData st n))
               [''lib-a'', ''app-b'']
             = [Some (Some ''1.0.0'', Some ''1.1.0''), Some (Some ''2.0.0'', Some ''2.0.1'')])"
    by code_simp
  have cc: "(case processProject ?E ?O ?P (projectNode ''lib-a'') ?S of
      Inl e \<Rightarrow> False
    | Inr st1 \<Rightarrow>
        (case resolveCurrentVersion ?E ?O ''app-b'' ''app-b'' (Some ''2.0.0'') ''app-b/pyproject.toml''
                (buffer (LogReading ''app-b'' ''app-b/pyproject.toml'') (st1\<lparr>logs := []\<rparr>)) of
           Inl e \<Rightarrow> False
         | Inr st \<Rightarrow>
             \<not> truthy (resolveSemverSpecifierFromConventionalCommits ?E ''app-b@2.0.0'' [''app-b''])
             \<and> (\<exists>st'. resolveSpecifier ?E ?O ?P ''app-b'' st = Inr st'
                    \<and> specifier_var st' = Some (Some ''patch''))))"
  proof (cases "processProject ?E ?O ?P (projectNode ''lib-a'') ?S")
    case (Inl e)
    from facts show ?thesis unfolding Inl by simp
  next
    case 1: (Inr st1)
    show ?thesis
    proof (cases "resolveCurrentVersion ?E ?O ''app-b'' ''app-b'' (Some ''2.0.0'') ''app-b/pyproject.toml''
                (buffer (LogReading ''app-b'' ''app-b/pyproject.toml'') (st1\<lparr>logs := []\<rparr>))")
      case (Inl e)
      from facts show ?thesis unfolding 1 by (simp add: Inl)
    next
      case (Inr st)
      from facts have f: "specifierSource st = Some ''conventional-commits''"
        "latestMatchingGitTag st = Some (''app-b@2.0.0'', ''2.0.0'')"
        "projectToDependencyBumps st ''app-b'' \<noteq> None"
        unfolding 1 by (auto simp: Inr split: option.splits)
      have ref: "previousVersionRefOf ?E ?O st = Some ''app-b@2.0.0''"
        by (simp add: previousVersionRefOf_def f(2))
      have s: "specifierSource st = Some ''conventional-commits''
          \<and> opt_currentVersionResolver ?O = Some ''git-tag''
          \<and> truthy (previousVersionRefOf ?E ?O st)
          \<and> \<not> truthy (resolveSemverSpecifierFromConventionalCommits ?E
                          (template (previousVersionRefOf ?E ?O st))
                          (if independent ?O then [''app-b''] else map name ?P))"
        using f(1) d cl b by (simp add: ref truthy_def template_def)
      from dependency_bump_fallback [OF a disjI2 [OF b] c f(3) disjI1 [OF s]]
      show ?thesis unfolding 1 using cl by (simp add: Inr)
    qed
  qed
  have vp: "(case processProject scenarioEnv ?O' ?P (projectNode ''lib-a'') ?S' of
      Inl e \<Rightarrow> False
    | Inr st1 \<Rightarrow>
        (case resolveCurrentVersion scenarioEnv ?O' ''app-b'' ''app-b'' (Some ''2.0.0'')
                ''app-b/pyproject.toml''
                (buffer (LogReading ''app-b'' ''app-b/pyproject.toml'') (st1\<lparr>logs := []\<rparr>)) of
           Inl e \<Rightarrow> False
         | Inr st \<Rightarrow>
             reduceProjectsVersionPlans (Some ''2.0.0'') ''app-b'' [minorPlan] None = Inr None
             \<and> (\<exists>st'. resolveSpecifier scenarioEnv ?O' ?P ''app-b'' st = Inr st'
                    \<and> specifier_var st' = Some (Some ''patch''))))"
  proof (cases "processProject scenarioEnv ?O' ?P (projectNode ''lib-a'') ?S'")
    case (Inl e)
    from facts' show ?thesis unfolding Inl by simp
  next
    case 1: (Inr st1)
    show ?thesis
    proof (cases "resolveCurrentVersion scenarioEnv ?O' ''app-b'' ''app-b'' (Some ''2.0.0'')
                ''app-b/pyproject.toml''
                (buffer (LogReading ''app-b'' ''app-b/pyproject.toml'') (st1\<lparr>logs := []\<rparr>))")
      case (Inl e)
      from facts' show ?thesis unfolding 1 by (simp add: Inl)
    next
      case (Inr st)
      from facts' have f: "specifierSource st = Some ''version-plans''"
        "currentVersion_var st = Some ''2.0.0''"
        "projectToDependencyBumps st ''app-b'' \<noteq> None"
        unfolding 1 by (auto simp: Inr split: option.splits)
      have s: "specifierSource st = Some ''version-plans''
          \<and> rg_versionPlans (opt_releaseGroup ?O')
          \<and> (\<exists>plans spec. rg_resolvedVersionPlans (opt_releaseGroup ?O') = Some plans
                \<and> (if independent ?O'
                    then reduceProjectsVersionPlans (currentVersion_var st) ''app-b'' plans None
                    else reduceGroupVersionPlans (currentVersion_var st) plans None) = Inr spec
                \<and> \<not> truthy spec)"
        using f(1) e' b' r by (simp add: f(2) truthy_def)
      from dependency_bump_fallback [OF a' disjI2 [OF b'] c' f(3) disjI2 [OF s]]
      show ?thesis unfolding 1 using r by (simp add: Inr)
    qed
  qed
  from cc vp run show ?thesis by (intro conjI)
qed

subsection \<open>An explicit specifier\<close>



lemma sameControl_updates [simp]:
  "sameControl st (st'\<lparr>tree := a\<rparr>) = sameControl st st'"
  "sameControl st (st'\<lparr>versionData := b\<rparr>) = sameControl st st'"
  "sameControl st (st'\<lparr>poetryLocks := c\<rparr>) = sameControl st st'"
  "sameControl st (st'\<lparr>writes := d\<rparr>) = sameControl st st'"
  "sameControl st (st'\<lparr>forcedBumps := e\<rparr>) = sameControl st st'"
  "sameControl st (st'\<lparr>projectToDependencyBumps := f\<rparr>) = sameControl st st'"
  "sameControl st (st'\<lparr>logs := g\<rparr>) = sameControl st st'"
  "sameControl st (st'\<lparr>projectNameToPackageRootMap := h\<rparr>) = sameControl st st'"
  "sameControl st (st'\<lparr>flushed := i\<rparr>) = sameControl st st'"
  "sameControl st (flush n st') = sameControl st st'"
  "sameControl st (buffer msg st') = sameControl st st'"
  "sameControl st (writePyprojectToml p pp st') = sameControl st st'"
  by (simp_all add: sameControl_def writePyprojectToml_def flush_def)























text \<open>
  A leading \<^verbatim>\<open>v\<close> is removed from the given specifier; a specifier that \<^verbatim>\<open>semver\<close> accepts
  after trimming, such as a version after a space, is kept and written as it is.
\<close>

lemma explicit_version_examples:
  "(case validateOptions vOptions of
      Inl e \<Rightarrow> False | Inr options \<Rightarrow> opt_specifier options = Some ''1.5.0'')
   \<and> (case releaseVersionGenerator scenarioEnv scenarioTree vOptions of
         Inl e \<Rightarrow> False
       | Inr st' \<Rightarrow>
           map (\<lambda>n. map_option newVersion (versionData st' n)) [''lib-a'', ''app-b'']
             = [Some (Some ''1.5.0''), Some (Some ''1.5.0'')])
   \<and> (case validateOptions (vOptions\<lparr>opt_specifier := Some '' v1.2.3''\<rparr>) of
         Inl e \<Rightarrow> False | Inr options \<Rightarrow> opt_specifier options = Some '' v1.2.3'')
   \<and> (case releaseVersionGenerator scenarioEnv scenarioTree
              (vOptions\<lparr>opt_specifier := Some '' v1.2.3''\<rparr>) of
         Inl e \<Rightarrow> False
       | Inr st' \<Rightarrow>
           map (\<lambda>n. map_option newVersion (versionData st' n)) [''lib-a'', ''app-b'']
             = [Some (Some '' v1.2.3''), Some (Some '' v1.2.3'')])"
  by code_simp

subsection \<open>Forced bumps of one iteration\<close>

lemma writePyprojectToml_forcedBumps [simp]:
  "forcedBumps (writePyprojectToml p pp st) = forcedBumps st"
  by (simp add: writePyprojectToml_def)

lemma updateDependent_forcedBumps:
  "case updateDependentProjectAndAddToVersionData env options transitive dependentProject
          dependencyPackageName newDependencyVersion forceVersionBump st of
     Inl e \<Rightarrow> True
   | Inr st' \<Rightarrow>
       forcedBumps st' = forcedBumps st
       \<or> (forceVersionBump \<noteq> None \<and> forcedBumps st' = forcedBumps st @ [source dependentProject])"
  by (simp add: updateDependentProjectAndAddToVersionData_def Let_def
        split: option.split sum.split)

lemma updateDependent_count:
  "case updateDependentProjectAndAddToVersionData env options transitive dependentProject
          dependencyPackageName newDependencyVersion forceVersionBump st of
     Inl e \<Rightarrow> True
   | Inr st' \<Rightarrow>
       count_list (forcedBumps st') N
         \<le> count_list (forcedBumps st) N
             + (if source dependentProject = N \<and> forceVersionBump \<noteq> None then 1 else 0)"
  using updateDependent_forcedBumps
          [where env = env and options = options and transitive = transitive
             and dependentProject = dependentProject
             and dependencyPackageName = dependencyPackageName
             and newDependencyVersion = newDependencyVersion
             and forceVersionBump = forceVersionBump and st = st]
  by (auto split: sum.splits)

lemma forEachResult_count:
  fixes c :: "State \<Rightarrow> nat"
  assumes step: "\<And>x s. case body x s of
                    Inl e \<Rightarrow> True | Inr s' \<Rightarrow> c s' \<le> c s + (if Q x then 1 else 0)"
  shows "case forEachResult body xs st of
           Inl e \<Rightarrow> True | Inr st' \<Rightarrow> c st' \<le> c st + length (filter Q xs)"
proof (induction xs arbitrary: st)
  case Nil
  show ?case by simp
next
  case (Cons x xs)
  show ?case
  proof (cases "body x st")
    case (Inl e)
    then show ?thesis by simp
  next
    case (Inr s1)
    with step [where x = x and s = st] have r1: "c s1 \<le> c st + (if Q x then 1 else 0)" by simp
    show ?thesis
    proof (cases "forEachResult body xs s1")
      case (Inl e)
      with Inr show ?thesis by simp
    next
      case inr2: (Inr s2)
      with Cons.IH [where st = s1] have "c s2 \<le> c s1 + length (filter Q xs)" by simp
      with r1 Inr inr2 show ?thesis by (auto split: if_splits)
    qed
  qed
qed

lemma inBatchStep_count:
  "case inBatchStep env options transitive projectName packageName nv dependentProject st of
     Inl e \<Rightarrow> True
   | Inr st' \<Rightarrow> count_list (forcedBumps st') N \<le> count_list (forcedBumps st) N + (if False then 1 else 0)"
  using updateDependent_count
          [where env = env and options = options and transitive = transitive
             and dependentProject = dependentProject and dependencyPackageName = packageName
             and newDependencyVersion = "Some nv" and forceVersionBump = None and N = N
             and st = "st\<lparr>projectToDependencyBumps := (projectToDependencyBumps st)
              (source dependentProject \<mapsto>
                 (case projectToDependencyBumps st (source dependentProject) of
                    Some dependencyBumps \<Rightarrow> insert projectName dependencyBumps
                  | None \<Rightarrow> {projectName}))\<rparr>"]
  by (simp add: inBatchStep_def split: sum.splits)

lemma outsideBatchStep_count:
  "case outsideBatchStep env options projects transitive projectName packageName nv
          dependentProject st of
     Inl e \<Rightarrow> True
   | Inr st' \<Rightarrow>
       count_list (forcedBumps st') N
         \<le> count_list (forcedBumps st) N + (if source dependentProject = N then 1 else 0)"
proof -
  define st0 where "st0 = (if specifierSource st = Some ''version-plans''
           \<and> projectToDependencyBumps st (source dependentProject) = None
        then st\<lparr>projectToDependencyBumps :=
                  (projectToDependencyBumps st)(source dependentProject \<mapsto> {projectName})\<rparr>
        else st)"
  have a: "forcedBumps st0 = forcedBumps st" by (simp add: st0_def)
  show ?thesis
    using updateDependent_count
          [where env = env and options = options and transitive = transitive
             and dependentProject = dependentProject and dependencyPackageName = packageName
             and newDependencyVersion = "Some nv"
             and forceVersionBump = "outsideBatchForce st projects dependentProject"
             and N = N and st = st0]
    by (auto simp: outsideBatchStep_def st0_def [symmetric] a split: sum.splits if_splits)
qed

lemma transitiveStep_count:
  "case transitiveStep env options transitive circular dependentProject st of
     Inl e \<Rightarrow> True
   | Inr st' \<Rightarrow>
       count_list (forcedBumps st') N
         \<le> count_list (forcedBumps st) N
             + (if source dependentProject = N \<and> transitiveForce circular dependentProject \<noteq> None
                then 1 else 0)"
proof (cases "truthy (projectNameToPackageRootMap st (target dependentProject))")
  case False
  then show ?thesis by (simp add: transitiveStep_def Let_def)
next
  case True
  show ?thesis
  proof (cases "Option.bind
                   (readPyprojectToml (tree st)
                      (joinPathFragments env
                         (template (projectNameToPackageRootMap st (target dependentProject)))
                         ''pyproject.toml''))
                   tool_poetry")
    case None
    with True show ?thesis by (simp add: transitiveStep_def Let_def)
  next
    case (Some dp)
    have run: "transitiveStep env options transitive circular dependentProject st =
      updateDependentProjectAndAddToVersionData env options transitive dependentProject
        (poetry_name dp) (poetry_version dp) (transitiveForce circular dependentProject) st"
      using True Some by (simp add: transitiveStep_def Let_def)
    show ?thesis
      unfolding run
      by (rule updateDependent_count)
  qed
qed

lemma propagate_count:
  "case propagate env options projects projectName packageName nv inBatch outside transitive
          circular st of
     Inl e \<Rightarrow> True
   | Inr st' \<Rightarrow>
       count_list (forcedBumps st') N
         \<le> count_list (forcedBumps st) N
             + length (filter (\<lambda>d. source d = N) outside)
             + length (filter (\<lambda>d. source d = N \<and> transitiveForce circular d \<noteq> None) transitive)"
proof -
  note l1 = forEachResult_count [where c = "\<lambda>s. count_list (forcedBumps s) N"
      and body = "inBatchStep env options transitive projectName packageName nv"
      and Q = "\<lambda>d. False", OF inBatchStep_count]
  note l2 = forEachResult_count [where c = "\<lambda>s. count_list (forcedBumps s) N"
      and body = "outsideBatchStep env options projects transitive projectName packageName nv"
      and Q = "\<lambda>d. source d = N", OF outsideBatchStep_count]
  note l3 = forEachResult_count [where c = "\<lambda>s. count_list (forcedBumps s) N"
      and body = "transitiveStep env options transitive circular"
      and Q = "\<lambda>d. source d = N \<and> transitiveForce circular d \<noteq> None", OF transitiveStep_count]
  show ?thesis
  proof (cases "forEachResult (inBatchStep env options transitive projectName packageName nv) inBatch st")
    case (Inl e)
    then show ?thesis by (simp add: propagate_def)
  next
    case r1: (Inr st1)
    with l1 [where xs = inBatch and st = st]
    have s1: "count_list (forcedBumps st1) N \<le> count_list (forcedBumps st) N" by simp
    show ?thesis
    proof (cases "(if updateDependentsOf options = ''auto''
                 then forEachResult
                        (outsideBatchStep env options projects transitive projectName packageName nv)
                        outside st1
                 else Inr st1)")
      case (Inl e)
      with r1 show ?thesis by (simp add: propagate_def)
    next
      case r2: (Inr st2)
      with l2 [where xs = outside and st = st1]
      have s2: "count_list (forcedBumps st2) N
                  \<le> count_list (forcedBumps st1) N + length (filter (\<lambda>d. source d = N) outside)"
        by (auto split: if_splits)
      show ?thesis
      proof (cases "forEachResult (transitiveStep env options transitive circular) transitive st2")
        case (Inl e)
        with r1 r2 show ?thesis by (simp add: propagate_def)
      next
        case r3: (Inr st3)
        with l3 [where xs = transitive and st = st2]
        have s3: "count_list (forcedBumps st3) N
                  \<le> count_list (forcedBumps st2) N
                      + length (filter (\<lambda>d. source d = N \<and> transitiveForce circular d \<noteq> None)
                                  transitive)"
          by simp
        from s1 s2 s3 r1 r2 r3 show ?thesis by (simp add: propagate_def flush_def)
      qed
    qed
  qed
qed

lemma setNewVersion_forcedBumps:
  "case setNewVersion n nv st of Inl e \<Rightarrow> True | Inr st' \<Rightarrow> forcedBumps st' = forcedBumps st"
  by (simp add: setNewVersion_def split: option.split)

lemma bumpProject_count:
  "case bumpProject env options projects projectName path pp poetry deps st of
     Inl e \<Rightarrow> True
   | Inr st' \<Rightarrow>
       count_list (forcedBumps st') N
         \<le> count_list (forcedBumps st) N
             + length (filter (\<lambda>d. source d = N) (dep_outside deps))
             + length (filter (\<lambda>d. source d = N \<and> transitiveForce (dep_circular deps) d \<noteq> None)
                         (dep_transitive deps))"
proof (cases "deriveNewSemverVersion (template (currentVersion_var st)) (template (specifierOf st))
             (opt_preid options)")
  case (Inl e)
  then show ?thesis by (simp add: bumpProject_def)
next
  case d: (Inr nv)
  show ?thesis
  proof (cases "setNewVersion projectName nv st")
    case (Inl e)
    with d show ?thesis by (simp add: bumpProject_def)
  next
    case s: (Inr st0)
    with setNewVersion_forcedBumps [where n = projectName and nv = nv and st = st]
    have a: "forcedBumps st0 = forcedBumps st" by simp
    define st3 where "st3 =
      (let st1 = st0\<lparr>poetryLocks := poetryLocks st0 @ [dirname env path]\<rparr>;
           st2 = buffer (LogNewVersion nv path)
                   (writePyprojectToml path
                      (pp\<lparr>tool_poetry := Some (poetry\<lparr>poetry_version := Some nv\<rparr>)\<rparr>) st1);
           totalProjectsToUpdate =
             (if updateDependentsOf options = ''auto''
              then length (dep_all deps) + length (dep_transitive deps)
                     - length (remdups (dep_circular deps)) div 2
              else length (dep_inBatch deps))
       in (if dep_all deps \<noteq> [] \<and> totalProjectsToUpdate > 0
           then buffer (LogApplying nv totalProjectsToUpdate) st2
           else st2))"
    have b: "forcedBumps st3 = forcedBumps st" by (simp add: st3_def Let_def a)
    have run: "bumpProject env options projects projectName path pp poetry deps st =
      propagate env options projects projectName (poetry_name poetry) nv
        (dep_inBatch deps) (dep_outside deps) (dep_transitive deps) (dep_circular deps) st3"
      by (simp add: bumpProject_def d s st3_def Let_def)
    from propagate_count [where env = env and options = options and projects = projects
        and projectName = projectName and packageName = "poetry_name poetry" and nv = nv
        and inBatch = "dep_inBatch deps" and outside = "dep_outside deps"
        and transitive = "dep_transitive deps" and circular = "dep_circular deps" and st = st3
        and N = N]
    show ?thesis unfolding run b .
  qed
qed

lemma applyVersion_count:
  "case applyVersion env options projects project path pp poetry st of
     Inl e \<Rightarrow> True
   | Inr st' \<Rightarrow>
       count_list (forcedBumps st') N
         \<le> count_list (forcedBumps st) N
             + length (filter (\<lambda>d. source d = N)
                 (dep_outside (classifyDependents options (specifierSource st) (name project)
                    (fst (resolveLocalPackageDependencies env (tree st) projects
                            (projectNameToPackageRootMap st) (independent options))))))
             + length (filter (\<lambda>d. source d = N
                   \<and> transitiveForce
                        (dep_circular (classifyDependents options (specifierSource st) (name project)
                           (fst (resolveLocalPackageDependencies env (tree st) projects
                                   (projectNameToPackageRootMap st) (independent options))))) d
                      \<noteq> None)
                 (dep_transitive (classifyDependents options (specifierSource st) (name project)
                    (fst (resolveLocalPackageDependencies env (tree st) projects
                            (projectNameToPackageRootMap st) (independent options))))))"
proof -
  define resolved where "resolved = resolveLocalPackageDependencies env (tree st) projects
                       (projectNameToPackageRootMap st) (independent options)"
  define st0 where "st0 = st\<lparr>projectNameToPackageRootMap := snd resolved\<rparr>"
  define deps where "deps = classifyDependents options (specifierSource st) (name project) (fst resolved)"
  have a: "forcedBumps st0 = forcedBumps st" by (simp add: st0_def)
  have unf: "applyVersion env options projects project path pp poetry st =
     (case recordVersionData options (name project) deps st0 of
        Inl e \<Rightarrow> Inl e
      | Inr st1 \<Rightarrow>
          if \<not> truthy (specifierOf st1) then Inr (skipProject options (name project) poetry st1)
          else bumpProject env options projects (name project) path pp poetry deps st1)"
    unfolding applyVersion_unfold deps_def st0_def resolved_def ..
  show ?thesis
    unfolding resolved_def [symmetric] deps_def [symmetric]
  proof (cases "recordVersionData options (name project) deps st0")
    case (Inl e)
    then show "case applyVersion env options projects project path pp poetry st of
     Inl e \<Rightarrow> True
   | Inr st' \<Rightarrow>
       count_list (forcedBumps st') N
         \<le> count_list (forcedBumps st) N
             + length (filter (\<lambda>d. source d = N) (dep_outside deps))
             + length (filter (\<lambda>d. source d = N \<and> transitiveForce (dep_circular deps) d \<noteq> None)
                 (dep_transitive deps))"
      unfolding unf by simp
  next
    case r: (Inr st1)
    with recordVersionData_result [where options = options and n = "name project"
        and deps = deps and st = st0]
    have b: "forcedBumps st1 = forcedBumps st" by (simp add: a)
    show "case applyVersion env options projects project path pp poetry st of
     Inl e \<Rightarrow> True
   | Inr st' \<Rightarrow>
       count_list (forcedBumps st') N
         \<le> count_list (forcedBumps st) N
             + length (filter (\<lambda>d. source d = N) (dep_outside deps))
             + length (filter (\<lambda>d. source d = N \<and> transitiveForce (dep_circular deps) d \<noteq> None)
                 (dep_transitive deps))"
    proof (cases "truthy (specifierOf st1)")
      case False
      with r b show ?thesis unfolding unf by (simp add: skipProject_frame)
    next
      case True
      note bumpProject_count [where env = env and options = options
          and projects = projects and projectName = "name project" and path = path and pp = pp
          and poetry = poetry and deps = deps and st = st1 and N = N, unfolded b]
      then show ?thesis unfolding unf r using True by simp
    qed
  qed
qed

lemma length_filter_mono:
  "(\<And>x. P x \<Longrightarrow> Q x) \<Longrightarrow> length (filter P xs) \<le> length (filter Q xs)"
  by (induction xs) auto

lemma classifyDependents_outside:
  "length (filter (\<lambda>d. source d = N) (dep_outside (classifyDependents options specSource A edges)))
     \<le> length (filter (\<lambda>d. source d = N \<and> target d = A) edges)"
proof -
  have "length (filter (\<lambda>x. target x = A \<and> \<not> isInCurrentBatch options specSource x \<and> source x = N)
                  edges)
          \<le> length (filter (\<lambda>d. source d = N \<and> target d = A) edges)"
    by (rule length_filter_mono) simp
  then show ?thesis by (simp add: classifyDependents_def Let_def)
qed

lemma classifyDependents_transitive:
  assumes "d \<in> set (dep_transitive (classifyDependents options specSource A edges))"
  shows "d \<in> set edges \<and> (\<exists>d' \<in> set edges. target d' = A \<and> target d = source d')"
  using assms
  by (auto simp: classifyDependents_def Let_def transitiveLocalPackageDependentsOf_def
        split: if_splits)

lemma classifyDependents_circular:
  assumes "d' \<in> set edges" and "target d' = A"
  shows "circularKey (source d') A \<in> set (dep_circular (classifyDependents options specSource A edges))"
    and "circularKey A (source d') \<in> set (dep_circular (classifyDependents options specSource A edges))"
  using assms
  by (auto simp: classifyDependents_def Let_def circularDependenciesOf_def)

lemma transitiveForce_flagged:
  "circularKey (source d) (target d) \<in> set circular \<Longrightarrow> transitiveForce circular d = None"
  by (simp add: transitiveForce_def)

lemma transitive_flagged_self:
  assumes "d \<in> set (dep_transitive (classifyDependents options specSource A edges))"
    and "source d = A"
  shows "transitiveForce (dep_circular (classifyDependents options specSource A edges)) d = None"
proof -
  from classifyDependents_transitive [OF assms(1)]
  obtain d' where d': "d' \<in> set edges" "target d' = A" "target d = source d'" by blast
  have "circularKey A (source d')
          \<in> set (dep_circular (classifyDependents options specSource A edges))"
    using d'(1) d'(2) by (rule classifyDependents_circular(2))
  then have "circularKey (source d) (target d)
          \<in> set (dep_circular (classifyDependents options specSource A edges))"
    unfolding assms(2) d'(3) .
  then show ?thesis by (rule transitiveForce_flagged)
qed

lemma transitive_flagged_partner:
  assumes "d \<in> set (dep_transitive (classifyDependents options specSource A edges))"
    and "source d = B"
    and noother: "\<forall>d\<in>set edges. source d = B \<and> target d \<noteq> A \<longrightarrow>
                    (\<forall>d'\<in>set edges. target d' = A \<longrightarrow> source d' \<noteq> target d)"
  shows "transitiveForce (dep_circular (classifyDependents options specSource A edges)) d = None"
proof -
  from classifyDependents_transitive [OF assms(1)]
  obtain d' where d: "d \<in> set edges" and d': "d' \<in> set edges" "target d' = A" "target d = source d'"
    by blast
  have t: "target d = A"
  proof (rule ccontr)
    assume "target d \<noteq> A"
    with noother d assms(2) have "\<forall>d'\<in>set edges. target d' = A \<longrightarrow> source d' \<noteq> target d"
      by blast
    with d' show False by auto
  qed
  have "circularKey (source d) A
          \<in> set (dep_circular (classifyDependents options specSource A edges))"
    using d t by (rule classifyDependents_circular(1))
  then have "circularKey (source d) (target d)
          \<in> set (dep_circular (classifyDependents options specSource A edges))"
    unfolding t .
  then show ?thesis by (rule transitiveForce_flagged)
qed

text \<open>
  C1 (as the code has it). Let \<^verbatim>\<open>A\<close> and \<^verbatim>\<open>B\<close> depend on each other, and let the iteration
  of \<^verbatim>\<open>A\<close> run. The pair is in the circular-dependency set, so the transitive pass gives the
  edge from \<^verbatim>\<open>A\<close> to \<^verbatim>\<open>B\<close> no forced bump, and \<^verbatim>\<open>A\<close> (which has no edge to itself) gets no
  forced bump from its own iteration. \<^verbatim>\<open>B\<close> gets at most one forced bump when it declares
  \<^verbatim>\<open>A\<close> once and depends on no other direct dependent of \<^verbatim>\<open>A\<close>.
\<close>

theorem circular_pair_forced_once:
  assumes edges: "edges = fst (resolveLocalPackageDependencies env (tree st) projects
                                (projectNameToPackageRootMap st) (independent options))"
    and A: "name project = A"
    and ab: "dAB \<in> set edges \<and> source dAB = A \<and> target dAB = B"
    and ba: "dBA \<in> set edges \<and> source dBA = B \<and> target dBA = A"
    and noself: "\<forall>d\<in>set edges. source d = A \<longrightarrow> target d \<noteq> A"
    and single: "length (filter (\<lambda>d. source d = B \<and> target d = A) edges) \<le> 1"
    and noother: "\<forall>d\<in>set edges. source d = B \<and> target d \<noteq> A \<longrightarrow>
                    (\<forall>d'\<in>set edges. target d' = A \<longrightarrow> source d' \<noteq> target d)"
    and run: "processProject env options projects project st = Inr st'"
  shows "count_list (forcedBumps st') B \<le> count_list (forcedBumps st) B + 1
         \<and> count_list (forcedBumps st') A \<le> count_list (forcedBumps st) A
         \<and> (\<forall>specSource.
               transitiveForce (dep_circular (classifyDependents options specSource A edges)) dAB
                 = None)"
proof -
  obtain path pp poetry st2 where
    res: "resolveProject env options projects project st = Inr (path, pp, poetry, st2)"
    and app: "applyVersion env options projects project path pp poetry st2 = Inr st'"
  proof (cases "resolveProject env options projects project st")
    case (Inl e)
    with run show ?thesis by (simp add: processProject_def)
  next
    case (Inr r)
    obtain path pp poetry st2 where r: "r = (path, pp, poetry, st2)" by (cases r) auto
    from run have "applyVersion env options projects project path pp poetry st2 = Inr st'"
      by (simp add: processProject_def Inr r)
    with Inr r that show ?thesis by blast
  qed
  from resolveProject_sameStore [OF res]
  have same: "tree st2 = tree st" "projectNameToPackageRootMap st2 = projectNameToPackageRootMap st"
    "forcedBumps st2 = forcedBumps st"
    by (simp_all add: sameStore_def)
  define deps where "deps = classifyDependents options (specifierSource st2) A edges"
  have bound: "count_list (forcedBumps st') N
         \<le> count_list (forcedBumps st) N
             + length (filter (\<lambda>d. source d = N) (dep_outside deps))
             + length (filter (\<lambda>d. source d = N \<and> transitiveForce (dep_circular deps) d \<noteq> None)
                         (dep_transitive deps))" for N
  proof -
    note applyVersion_count [where env = env and options = options and projects = projects
        and project = project and path = path and pp = pp and poetry = poetry and st = st2
        and N = N, unfolded app same A edges [symmetric] deps_def [symmetric]]
    then show ?thesis by (simp only: sum.case)
  qed
  have tB: "filter (\<lambda>d. source d = B \<and> transitiveForce (dep_circular deps) d \<noteq> None)
              (dep_transitive deps) = []"
    unfolding filter_empty_conv
  proof (intro ballI notI)
    fix d
    assume d: "d \<in> set (dep_transitive deps)"
      and h: "source d = B \<and> transitiveForce (dep_circular deps) d \<noteq> None"
    from h have "source d = B" ..
    with d have "transitiveForce (dep_circular deps) d = None"
      unfolding deps_def by (rule transitive_flagged_partner [OF _ _ noother])
    with h show False by (elim conjE notE)
  qed
  have tA: "filter (\<lambda>d. source d = A \<and> transitiveForce (dep_circular deps) d \<noteq> None)
              (dep_transitive deps) = []"
    unfolding filter_empty_conv
  proof (intro ballI notI)
    fix d
    assume d: "d \<in> set (dep_transitive deps)"
      and h: "source d = A \<and> transitiveForce (dep_circular deps) d \<noteq> None"
    from h have "source d = A" ..
    with d have "transitiveForce (dep_circular deps) d = None"
      unfolding deps_def by (rule transitive_flagged_self)
    with h show False by (elim conjE notE)
  qed
  have oB: "length (filter (\<lambda>d. source d = B) (dep_outside deps)) \<le> 1"
    unfolding deps_def
    by (rule le_trans [OF classifyDependents_outside single])
  have eA: "filter (\<lambda>d. source d = A \<and> target d = A) edges = []"
    unfolding filter_empty_conv
  proof (intro ballI notI)
    fix d
    assume "d \<in> set edges" and "source d = A \<and> target d = A"
    with noself show False by auto
  qed
  have "length (filter (\<lambda>d. source d = A) (dep_outside deps))
          \<le> length (filter (\<lambda>d. source d = A \<and> target d = A) edges)"
    unfolding deps_def by (rule classifyDependents_outside)
  then have oA: "length (filter (\<lambda>d. source d = A) (dep_outside deps)) = 0"
    unfolding eA by (simp only: list.size le_zero_eq)
  have flag: "transitiveForce (dep_circular (classifyDependents options specSource A edges)) dAB = None"
    for specSource
  proof -
    from ba have m: "dBA \<in> set edges" and t: "target dBA = A" and s: "source dBA = B" by blast+
    have "circularKey A (source dBA)
                 \<in> set (dep_circular (classifyDependents options specSource A edges))"
      using m t by (rule classifyDependents_circular(2))
    moreover from ab have "source dAB = A" and "target dAB = B" by blast+
    ultimately show ?thesis by (simp add: transitiveForce_def s)
  qed
  from bound [of B] oB
  have cB: "count_list (forcedBumps st') B \<le> count_list (forcedBumps st) B + 1"
    unfolding tB by (simp only: list.size)
  from bound [of A]
  have cA: "count_list (forcedBumps st') A \<le> count_list (forcedBumps st) A"
    unfolding tA oA by (simp only: list.size add_0_right)
  show ?thesis
  proof (intro conjI allI)
    show "count_list (forcedBumps st') B \<le> count_list (forcedBumps st) B + 1" by (rule cB)
    show "count_list (forcedBumps st') A \<le> count_list (forcedBumps st) A" by (rule cA)
    show "transitiveForce (dep_circular (classifyDependents options specSource A edges)) dAB = None"
      for specSource by (rule flag)
  qed
qed

theorem circular_pair_forced_once_witness:
  "(case processProject mutualEnv (demoOptions [''a'']) [projectNode ''a''] (projectNode ''a'')
           (demoState cycleTree [''a'']) of
      Inl e \<Rightarrow> False
    | Inr st' \<Rightarrow>
        forcedBumps st' = [''b'']
        \<and> count_list (forcedBumps st') ''b''
            \<le> count_list (forcedBumps (demoState cycleTree [''a''])) ''b'' + 1
        \<and> count_list (forcedBumps st') ''a''
            \<le> count_list (forcedBumps (demoState cycleTree [''a''])) ''a'')"
proof -
  let ?edges = "[edge ''a'' ''b'', edge ''b'' ''a'']"
  let ?st = "demoState cycleTree [''a'']"
  have edges: "?edges = fst (resolveLocalPackageDependencies mutualEnv (tree ?st) [projectNode ''a'']
                                (projectNameToPackageRootMap ?st) (independent (demoOptions [''a''])))"
    by (simp add: mutualEnv_def demoEnv_def)
  have A: "name (projectNode ''a'') = ''a''"
    by (simp add: projectNode_def)
  have ab: "edge ''a'' ''b'' \<in> set ?edges \<and> source (edge ''a'' ''b'') = ''a''
              \<and> target (edge ''a'' ''b'') = ''b''"
    by (simp add: edge_def)
  have ba: "edge ''b'' ''a'' \<in> set ?edges \<and> source (edge ''b'' ''a'') = ''b''
              \<and> target (edge ''b'' ''a'') = ''a''"
    by (simp add: edge_def)
  have noself: "\<forall>d\<in>set ?edges. source d = ''a'' \<longrightarrow> target d \<noteq> ''a''"
    by (simp add: edge_def)
  have single: "length (filter (\<lambda>d. source d = ''b'' \<and> target d = ''a'') ?edges) \<le> 1"
    by (simp add: edge_def)
  have noother: "\<forall>d\<in>set ?edges. source d = ''b'' \<and> target d \<noteq> ''a'' \<longrightarrow>
                    (\<forall>d'\<in>set ?edges. target d' = ''a'' \<longrightarrow> source d' \<noteq> target d)"
    by (simp add: edge_def)
  have facts: "(case processProject mutualEnv (demoOptions [''a'']) [projectNode ''a''] (projectNode ''a'')
           ?st of
      Inl e \<Rightarrow> False
    | Inr st' \<Rightarrow> forcedBumps st' = [''b''])"
    by code_simp
  show ?thesis
  proof (cases "processProject mutualEnv (demoOptions [''a'']) [projectNode ''a''] (projectNode ''a'') ?st")
    case (Inl e)
    from facts show ?thesis unfolding Inl by simp
  next
    case (Inr st')
    from facts have f: "forcedBumps st' = [''b'']" unfolding Inr by simp
    from circular_pair_forced_once [OF edges A ab ba noself single noother Inr]
    have "count_list (forcedBumps st') ''b'' \<le> count_list (forcedBumps ?st) ''b'' + 1
         \<and> count_list (forcedBumps st') ''a'' \<le> count_list (forcedBumps ?st) ''a''"
      by (elim conjE) (intro conjI)
    with f show ?thesis unfolding Inr by (simp only: sum.case simp_thms)
  qed
qed

text \<open>
  Without the last condition \<^verbatim>\<open>B\<close> is bumped twice: in \<open>cycleTree\<close>, bumping \<^verbatim>\<open>a\<close> forces a
  bump on \<^verbatim>\<open>b\<close> as a direct dependent of \<^verbatim>\<open>a\<close> and again as a dependent of \<^verbatim>\<open>c\<close>, and
  \<^verbatim>\<open>b\<close> goes from 1.0.0 to 1.0.2.
\<close>

theorem circular_pair_forced_twice_counterexample:
  "(case releaseVersionGenerator diamondEnv cycleTree (demoOptions [''a'']) of
      Inl e \<Rightarrow> False
    | Inr st \<Rightarrow>
        forcedBumps st = [''b'', ''c'', ''b'']
        \<and> map_option (\<lambda>e. (currentVersion e, newVersion e)) (versionData st ''b'')
            = Some (Some ''1.0.1'', Some ''1.0.2'')
        \<and> Option.bind (Option.bind (tree st ''b/pyproject.toml'') tool_poetry) poetry_version
            = Some ''1.0.2'')"
  by code_simp

subsection \<open>The order on versions\<close>

lemma str_lt_irrefl: "\<not> str_lt s s"
  by (induction s) simp_all

lemma str_lt_trans: "str_lt a b \<Longrightarrow> str_lt b c \<Longrightarrow> str_lt a c"
proof (induction a arbitrary: b c)
  case Nil
  then show ?case by (cases b; cases c) simp_all
next
  case (Cons x xs)
  from Cons.prems(1) obtain y ys where b: "b = y # ys" by (cases b) simp_all
  from Cons.prems(2) b obtain z zs where c: "c = z # zs" by (cases c) simp_all
  from Cons.prems have 1: "(of_char x :: nat) < of_char y \<or> x = y \<and> str_lt xs ys"
    and 2: "(of_char y :: nat) < of_char z \<or> y = z \<and> str_lt ys zs"
    unfolding b c by simp_all
  from 1 2 have "(of_char x :: nat) < of_char z \<or> x = z \<and> str_lt xs ys \<and> str_lt ys zs"
    by (elim disjE conjE) simp_all
  then have "(of_char x :: nat) < of_char z \<or> x = z \<and> str_lt xs zs"
    using Cons.IH by blast
  then show ?case unfolding c by simp
qed

lemma str_lt_total: "a \<noteq> b \<Longrightarrow> str_lt a b \<or> str_lt b a"
proof (induction a arbitrary: b)
  case Nil
  then show ?case by (cases b) simp_all
next
  case (Cons x xs)
  show ?case
  proof (cases b)
    case Nil
    then show ?thesis by simp
  next
    case (Cons y ys)
    show ?thesis
    proof (cases "x = y")
      case True
      with Cons.prems Cons have "xs \<noteq> ys" by simp
      from Cons.IH [OF this] True show ?thesis unfolding Cons by simp
    next
      case False
      then have "(of_char x :: nat) \<noteq> of_char y" by simp
      then have "(of_char x :: nat) < of_char y \<or> (of_char y :: nat) < of_char x" by linarith
      then show ?thesis unfolding Cons by auto
    qed
  qed
qed

lemma compareIdentifiers_lt_safe:
  "compareIdentifiers_lt (Numeric a) (Numeric b) = (a < b)"
  "\<not> numeric_string t \<Longrightarrow> compareIdentifiers_lt (Numeric a) (AlphaNum t) = True"
  "\<not> numeric_string s \<Longrightarrow> compareIdentifiers_lt (AlphaNum s) (Numeric b) = False"
  "\<not> numeric_string s \<Longrightarrow> \<not> numeric_string t \<Longrightarrow>
     compareIdentifiers_lt (AlphaNum s) (AlphaNum t) = str_lt s t"
  by (simp_all add: compareIdentifiers_lt_def)

lemma compareIdentifiers_lt_irrefl: "\<not> compareIdentifiers_lt x x"
  by (cases x) (simp_all add: compareIdentifiers_lt_def str_lt_irrefl)

lemma compareIdentifiers_lt_trans:
  assumes "safe_identifier x" "safe_identifier y" "safe_identifier z"
    and "compareIdentifiers_lt x y" "compareIdentifiers_lt y z"
  shows "compareIdentifiers_lt x z"
  using assms str_lt_trans
  by (cases x; cases y; cases z) (auto simp: compareIdentifiers_lt_safe)

lemma compareIdentifiers_lt_total:
  assumes "safe_identifier x" "safe_identifier y" "x \<noteq> y"
  shows "compareIdentifiers_lt x y \<or> compareIdentifiers_lt y x"
  using assms str_lt_total
  by (cases x; cases y) (auto simp: compareIdentifiers_lt_safe)

lemma comparePre_lt_irrefl: "\<not> comparePre_lt p p"
  by (induction p) simp_all

lemma comparePre_lt_trans:
  assumes "list_all safe_identifier p" "list_all safe_identifier q" "list_all safe_identifier r"
    and "comparePre_lt p q" "comparePre_lt q r"
  shows "comparePre_lt p r"
  using assms
proof (induction p arbitrary: q r)
  case Nil
  then show ?case by (cases q; cases r) simp_all
next
  case (Cons x xs)
  from Cons.prems(4) obtain y ys where q: "q = y # ys" by (cases q) simp_all
  from Cons.prems(5) q obtain z zs where r: "r = z # zs" by (cases r) simp_all
  from Cons.prems(1,2,3) have s: "safe_identifier x" "safe_identifier y" "safe_identifier z"
    and ss: "list_all safe_identifier xs" "list_all safe_identifier ys" "list_all safe_identifier zs"
    unfolding q r by simp_all
  from Cons.prems(4) have 1: "if x = y then comparePre_lt xs ys else compareIdentifiers_lt x y"
    unfolding q by simp
  from Cons.prems(5) have 2: "if y = z then comparePre_lt ys zs else compareIdentifiers_lt y z"
    unfolding q r by simp
  have "if x = z then comparePre_lt xs zs else compareIdentifiers_lt x z"
  proof (cases "x = y")
    case xy: True
    show ?thesis
    proof (cases "y = z")
      case True
      with xy 1 2 have "comparePre_lt xs ys" "comparePre_lt ys zs" by simp_all
      from Cons.IH [OF ss this] xy True show ?thesis by simp
    next
      case False
      with xy 2 show ?thesis by simp
    qed
  next
    case xy: False
    with 1 have c1: "compareIdentifiers_lt x y" by simp
    show ?thesis
    proof (cases "y = z")
      case True
      with xy c1 show ?thesis by simp
    next
      case False
      with 2 have c2: "compareIdentifiers_lt y z" by simp
      from compareIdentifiers_lt_trans [OF s c1 c2] have c3: "compareIdentifiers_lt x z" .
      with compareIdentifiers_lt_irrefl [of x] have "x \<noteq> z" by auto
      with c3 show ?thesis by simp
    qed
  qed
  then show ?case unfolding r by simp
qed

lemma comparePre_lt_total:
  assumes "list_all safe_identifier p" "list_all safe_identifier q" "p \<noteq> q"
  shows "comparePre_lt p q \<or> comparePre_lt q p"
  using assms
proof (induction p arbitrary: q)
  case Nil
  then show ?case by (cases q) simp_all
next
  case (Cons x xs)
  show ?case
  proof (cases q)
    case Nil
    then show ?thesis by simp
  next
    case (Cons y ys)
    show ?thesis
    proof (cases "x = y")
      case True
      with Cons.prems Cons have "xs \<noteq> ys" "list_all safe_identifier xs" "list_all safe_identifier ys"
        by simp_all
      from Cons.IH [OF this(2) this(3) this(1)] True show ?thesis unfolding Cons by simp
    next
      case False
      from Cons.prems(1,2) have "safe_identifier x" "safe_identifier y" unfolding Cons by simp_all
      from compareIdentifiers_lt_total [OF this False] False show ?thesis unfolding Cons by auto
    qed
  qed
qed

lemma semver_lt_irrefl: "\<not> semver_lt a a"
  by (simp add: semver_lt_def comparePre_lt_irrefl)

lemma lex_cases:
  "(A \<or> (B \<and> (C \<or> (D \<and> (E \<or> (F \<and> G)))))) = (A \<or> B \<and> C \<or> B \<and> D \<and> E \<or> B \<and> D \<and> F \<and> G)"
  by blast

lemma lex_trans:
  fixes a1 a2 a3 b1 b2 b3 c1 c2 c3 :: int
  assumes "a1 < b1 \<or> a1 = b1 \<and> a2 < b2 \<or> a1 = b1 \<and> a2 = b2 \<and> a3 < b3
             \<or> a1 = b1 \<and> a2 = b2 \<and> a3 = b3 \<and> Pab"
    and "b1 < c1 \<or> b1 = c1 \<and> b2 < c2 \<or> b1 = c1 \<and> b2 = c2 \<and> b3 < c3
             \<or> b1 = c1 \<and> b2 = c2 \<and> b3 = c3 \<and> Pbc"
    and "Pab \<Longrightarrow> Pbc \<Longrightarrow> Pac"
  shows "a1 < c1 \<or> a1 = c1 \<and> a2 < c2 \<or> a1 = c1 \<and> a2 = c2 \<and> a3 < c3
             \<or> a1 = c1 \<and> a2 = c2 \<and> a3 = c3 \<and> Pac"
  using assms by auto

lemma lex_total:
  fixes a1 a2 a3 b1 b2 b3 :: int
  assumes "a1 = b1 \<and> a2 = b2 \<and> a3 = b3 \<Longrightarrow> Pab \<or> Pba"
  shows "(a1 < b1 \<or> a1 = b1 \<and> a2 < b2 \<or> a1 = b1 \<and> a2 = b2 \<and> a3 < b3
             \<or> a1 = b1 \<and> a2 = b2 \<and> a3 = b3 \<and> Pab)
       \<or> (b1 < a1 \<or> b1 = a1 \<and> b2 < a2 \<or> b1 = a1 \<and> b2 = a2 \<and> b3 < a3
             \<or> b1 = a1 \<and> b2 = a2 \<and> b3 = a3 \<and> Pba)"
  using assms by (cases "a1 = b1"; cases "a2 = b2"; cases "a3 = b3") auto

lemma semver_lt_cases:
  "semver_lt a b \<longleftrightarrow>
     v_major a < v_major b
     \<or> v_major a = v_major b \<and> v_minor a < v_minor b
     \<or> v_major a = v_major b \<and> v_minor a = v_minor b \<and> v_patch a < v_patch b
     \<or> v_major a = v_major b \<and> v_minor a = v_minor b \<and> v_patch a = v_patch b
        \<and> (if v_prerelease a = [] then False
            else if v_prerelease b = [] then True
            else comparePre_lt (v_prerelease a) (v_prerelease b))"
  unfolding semver_lt_def by (rule lex_cases)

lemma pre_part_trans:
  assumes "list_all safe_identifier p" "list_all safe_identifier q" "list_all safe_identifier r"
  shows "(if p = [] then False else if q = [] then True else comparePre_lt p q) \<Longrightarrow>
         (if q = [] then False else if r = [] then True else comparePre_lt q r) \<Longrightarrow>
         (if p = [] then False else if r = [] then True else comparePre_lt p r)"
  using comparePre_lt_trans [OF assms] by (auto split: if_splits)

lemma pre_part_total:
  assumes "list_all safe_identifier p" "list_all safe_identifier q" "p \<noteq> q"
  shows "(if p = [] then False else if q = [] then True else comparePre_lt p q) \<or>
         (if q = [] then False else if p = [] then True else comparePre_lt q p)"
  using comparePre_lt_total [OF assms] by (auto split: if_splits)

lemma semver_lt_trans:
  assumes safe: "list_all safe_identifier (v_prerelease a)" "list_all safe_identifier (v_prerelease b)"
      "list_all safe_identifier (v_prerelease c)"
    and ab: "semver_lt a b" and bc: "semver_lt b c"
  shows "semver_lt a c"
  unfolding semver_lt_cases
  by (rule lex_trans [OF ab [unfolded semver_lt_cases] bc [unfolded semver_lt_cases]])
     (rule pre_part_trans [OF safe])

lemma semver_lt_total:
  assumes safe: "list_all safe_identifier (v_prerelease a)" "list_all safe_identifier (v_prerelease b)"
    and ne: "a \<noteq> b"
  shows "semver_lt a b \<or> semver_lt b a"
  unfolding semver_lt_cases
proof (rule lex_total)
  assume "v_major a = v_major b \<and> v_minor a = v_minor b \<and> v_patch a = v_patch b"
  with ne have "v_prerelease a \<noteq> v_prerelease b"
    by (cases a; cases b) simp
  with safe show "(if v_prerelease a = [] then False
            else if v_prerelease b = [] then True
            else comparePre_lt (v_prerelease a) (v_prerelease b))
        \<or> (if v_prerelease b = [] then False
            else if v_prerelease a = [] then True
            else comparePre_lt (v_prerelease b) (v_prerelease a))"
    by (rule pre_part_total)
qed

lemma semver_lt_asym:
  assumes "list_all safe_identifier (v_prerelease a)" "list_all safe_identifier (v_prerelease b)"
    and "semver_lt a b"
  shows "\<not> semver_lt b a"
proof
  assume "semver_lt b a"
  from semver_lt_trans [OF assms(1) assms(2) assms(1) assms(3) this] semver_lt_irrefl
  show False by blast
qed

lemma semver_lt_after_not_greater:
  assumes safe: "list_all safe_identifier (v_prerelease a)" "list_all safe_identifier (v_prerelease b)"
      "list_all safe_identifier (v_prerelease s)"
    and "semver_lt a s" and "\<not> semver_lt a b"
  shows "semver_lt b s"
proof (cases "a = b")
  case True
  with assms(4) show ?thesis by simp
next
  case False
  from semver_lt_total [OF safe(1) safe(2) this] assms(5) have "semver_lt b a" by simp
  from semver_lt_trans [OF safe(2) safe(1) safe(3) this assms(4)] show ?thesis .
qed

lemma safe_versionE:
  assumes "safe_version a"
  obtains x where "Option.bind a parse_semver = Some x" "list_all safe_identifier (v_prerelease x)"
  using assms unfolding safe_version_def by (cases "Option.bind a parse_semver") simp_all

lemma gt_safe:
  assumes a: "Option.bind a parse_semver = Some x" "list_all safe_identifier (v_prerelease x)"
    and b: "Option.bind b parse_semver = Some y" "list_all safe_identifier (v_prerelease y)"
  shows "gt a b = Inr (semver_lt y x)"
  using semver_lt_asym [OF b(2) a(2)] a(1) b(1)
  by (auto simp: gt_def compare_def)

lemma gt_trans:
  assumes "safe_version a" "safe_version b" "safe_version c"
    and "gt a b = Inr True" and "gt b c = Inr True"
  shows "gt a c = Inr True"
proof -
  from assms(1) obtain x where x: "Option.bind a parse_semver = Some x"
    "list_all safe_identifier (v_prerelease x)" by (rule safe_versionE)
  from assms(2) obtain y where y: "Option.bind b parse_semver = Some y"
    "list_all safe_identifier (v_prerelease y)" by (rule safe_versionE)
  from assms(3) obtain z where z: "Option.bind c parse_semver = Some z"
    "list_all safe_identifier (v_prerelease z)" by (rule safe_versionE)
  from assms(4) have 1: "semver_lt y x" unfolding gt_safe [OF x y] by simp
  from assms(5) have 2: "semver_lt z y" unfolding gt_safe [OF y z] by simp
  from semver_lt_trans [OF z(2) y(2) x(2) 2 1] show ?thesis unfolding gt_safe [OF x z] by simp
qed

lemma gt_after_not_greater:
  assumes "safe_version s" "safe_version a" "safe_version b"
    and "gt s a = Inr True" and "gt b a = Inr False"
  shows "gt s b = Inr True"
proof -
  from assms(1) obtain x where x: "Option.bind s parse_semver = Some x"
    "list_all safe_identifier (v_prerelease x)" by (rule safe_versionE)
  from assms(2) obtain y where y: "Option.bind a parse_semver = Some y"
    "list_all safe_identifier (v_prerelease y)" by (rule safe_versionE)
  from assms(3) obtain z where z: "Option.bind b parse_semver = Some z"
    "list_all safe_identifier (v_prerelease z)" by (rule safe_versionE)
  from assms(4) have 1: "semver_lt y x" unfolding gt_safe [OF x y] by simp
  from assms(5) have 2: "\<not> semver_lt y z" unfolding gt_safe [OF z y] by simp
  from semver_lt_after_not_greater [OF y(2) z(2) x(2) 1 2]
  show ?thesis unfolding gt_safe [OF x z] by simp
qed

lemma gt_irrefl: "gt a a \<noteq> Inr True"
  by (auto simp: gt_def compare_def semver_lt_irrefl split: option.splits)

lemma gt_total:
  assumes "safe_version a" "safe_version b"
  shows "gt a b = Inr True \<or> gt a b = Inr False"
proof -
  from assms(1) obtain x where x: "Option.bind a parse_semver = Some x"
    "list_all safe_identifier (v_prerelease x)" by (rule safe_versionE)
  from assms(2) obtain y where y: "Option.bind b parse_semver = Some y"
    "list_all safe_identifier (v_prerelease y)" by (rule safe_versionE)
  show ?thesis unfolding gt_safe [OF x y] by simp
qed

subsection \<open>Version plans\<close>

lemma pick_keep:
  assumes safe: "\<forall>x\<in>set (acc # b # rest). safe_version (inc current x None)"
    and dec: "acc # rest = pre @ spec # post"
    and pre: "\<forall>x\<in>set pre. gt (inc current spec None) (inc current x None) = Inr True"
    and post: "\<forall>x\<in>set post. gt (inc current x None) (inc current spec None) \<noteq> Inr True"
    and b: "gt (inc current b None) (inc current acc None) = Inr False"
  shows "\<exists>pre' post'. acc # b # rest = pre' @ spec # post'
           \<and> (\<forall>x\<in>set pre'. gt (inc current spec None) (inc current x None) = Inr True)
           \<and> (\<forall>x\<in>set post'. gt (inc current x None) (inc current spec None) \<noteq> Inr True)"
proof (cases pre)
  case Nil
  with dec have s: "spec = acc" "post = rest" by simp_all
  have "acc # b # rest = [] @ spec # (b # post)" unfolding s by simp
  moreover have "\<forall>x\<in>set (b # post). gt (inc current x None) (inc current spec None) \<noteq> Inr True"
    using post b unfolding s by simp
  ultimately show ?thesis by (intro exI [where x = "[]"] exI [where x = "b # post"]) simp
next
  case (Cons a pre'')
  with dec have a: "a = acc" and rest: "rest = pre'' @ spec # post" by simp_all
  from pre have sa: "gt (inc current spec None) (inc current acc None) = Inr True"
    unfolding Cons a by simp
  from safe have w: "safe_version (inc current spec None)" "safe_version (inc current acc None)"
    "safe_version (inc current b None)"
    unfolding rest by simp_all
  from gt_after_not_greater [OF w sa b]
  have sb: "gt (inc current spec None) (inc current b None) = Inr True" .
  have "acc # b # rest = (acc # b # pre'') @ spec # post" unfolding rest by simp
  moreover have "\<forall>x\<in>set (acc # b # pre''). gt (inc current spec None) (inc current x None) = Inr True"
    using pre sb unfolding Cons a by simp
  ultimately show ?thesis using post
    by (intro exI [where x = "acc # b # pre''"] exI [where x = post]) simp
qed

lemma pick_replace:
  assumes safe: "\<forall>x\<in>set (acc # b # rest). safe_version (inc current x None)"
    and dec: "b # rest = pre @ spec # post"
    and pre: "\<forall>x\<in>set pre. gt (inc current spec None) (inc current x None) = Inr True"
    and post: "\<forall>x\<in>set post. gt (inc current x None) (inc current spec None) \<noteq> Inr True"
    and b: "gt (inc current b None) (inc current acc None) = Inr True"
  shows "\<exists>pre' post'. acc # b # rest = pre' @ spec # post'
           \<and> (\<forall>x\<in>set pre'. gt (inc current spec None) (inc current x None) = Inr True)
           \<and> (\<forall>x\<in>set post'. gt (inc current x None) (inc current spec None) \<noteq> Inr True)"
proof -
  have sa: "gt (inc current spec None) (inc current acc None) = Inr True"
  proof (cases pre)
    case Nil
    with dec have "spec = b" by simp
    with b show ?thesis by simp
  next
    case (Cons a pre'')
    with dec have ab: "a = b" and rest: "rest = pre'' @ spec # post" by simp_all
    from pre Cons ab have sb: "gt (inc current spec None) (inc current b None) = Inr True" by simp
    from safe have w: "safe_version (inc current spec None)" "safe_version (inc current b None)"
      "safe_version (inc current acc None)"
      unfolding rest by simp_all
    from gt_trans [OF w sb b] show ?thesis .
  qed
  have "acc # b # rest = (acc # pre) @ spec # post" using dec by simp
  moreover have "\<forall>x\<in>set (acc # pre). gt (inc current spec None) (inc current x None) = Inr True"
    using pre sa by simp
  ultimately show ?thesis using post
    by (intro exI [where x = "acc # pre"] exI [where x = post]) simp
qed

lemma reduceProjectsVersionPlans_truthy:
  assumes "truthy acc"
    and "list_all (\<lambda>plan. case plan of ProjectsVersionPlan a r m \<Rightarrow> True | GroupVersionPlan a r b \<Rightarrow> False) plans"
    and "\<forall>x\<in>set (acc # filter truthy (map (projectVersionBump p) plans)).
           safe_version (inc current x None)"
  shows "\<exists>spec pre post.
           reduceProjectsVersionPlans current p plans acc = Inr spec
           \<and> acc # filter truthy (map (projectVersionBump p) plans) = pre @ spec # post
           \<and> (\<forall>x\<in>set pre. gt (inc current spec None) (inc current x None) = Inr True)
           \<and> (\<forall>x\<in>set post. gt (inc current x None) (inc current spec None) \<noteq> Inr True)"
  using assms
proof (induction plans arbitrary: acc)
  case Nil
  show ?case by (intro exI [where x = acc] exI [where x = "[]"]) simp
next
  case (Cons plan plans)
  from Cons.prems(2) obtain a r m where plan: "plan = ProjectsVersionPlan a r m"
    by (cases plan) simp_all
  from Cons.prems(2) have kinds: "list_all (\<lambda>plan. case plan of ProjectsVersionPlan a r m \<Rightarrow> True
                                             | GroupVersionPlan a r b \<Rightarrow> False) plans"
    by simp
  have bump: "projectVersionBump p plan = m p"
    unfolding plan projectVersionBump_def by simp
  let ?rest = "filter truthy (map (projectVersionBump p) plans)"
  show ?case
  proof (cases "truthy (m p)")
    case False
    with Cons.prems(3) have safe: "\<forall>x\<in>set (acc # ?rest). safe_version (inc current x None)"
      by (simp add: bump)
    from Cons.IH [OF Cons.prems(1) kinds safe] False Cons.prems(1) show ?thesis
      unfolding plan by (simp add: bump [unfolded plan])
  next
    case True
    with Cons.prems(3) have safe: "\<forall>x\<in>set (acc # m p # ?rest). safe_version (inc current x None)"
      by (simp add: bump)
    then have w: "safe_version (inc current (m p) None)" "safe_version (inc current acc None)"
      by simp_all
    from safe have safe1: "\<forall>x\<in>set (m p # ?rest). safe_version (inc current x None)"
      and safe2: "\<forall>x\<in>set (acc # ?rest). safe_version (inc current x None)"
      by simp_all
    have list: "acc # filter truthy (map (projectVersionBump p) (plan # plans)) = acc # m p # ?rest"
      using True by (simp add: bump)
    from gt_total [OF w] show ?thesis
    proof
      assume g: "gt (inc current (m p) None) (inc current acc None) = Inr True"
      from Cons.IH [OF True kinds safe1] obtain spec pre post where
        r: "reduceProjectsVersionPlans current p plans (m p) = Inr spec"
        and d: "m p # ?rest = pre @ spec # post"
        and pre: "\<forall>x\<in>set pre. gt (inc current spec None) (inc current x None) = Inr True"
        and post: "\<forall>x\<in>set post. gt (inc current x None) (inc current spec None) \<noteq> Inr True"
        by blast
      have run: "reduceProjectsVersionPlans current p (plan # plans) acc = Inr spec"
        unfolding plan using Cons.prems(1) True g r by simp
      from pick_replace [OF safe d pre post g] run show ?thesis
        unfolding list by blast
    next
      assume g: "gt (inc current (m p) None) (inc current acc None) = Inr False"
      from Cons.IH [OF Cons.prems(1) kinds safe2] obtain spec pre post where
        r: "reduceProjectsVersionPlans current p plans acc = Inr spec"
        and d: "acc # ?rest = pre @ spec # post"
        and pre: "\<forall>x\<in>set pre. gt (inc current spec None) (inc current x None) = Inr True"
        and post: "\<forall>x\<in>set post. gt (inc current x None) (inc current spec None) \<noteq> Inr True"
        by blast
      have run: "reduceProjectsVersionPlans current p (plan # plans) acc = Inr spec"
        unfolding plan using Cons.prems(1) True g r by simp
      from pick_keep [OF safe d pre post g] run show ?thesis
        unfolding list by blast
    qed
  qed
qed

lemma reduceGroupVersionPlans_truthy:
  assumes "truthy acc"
    and "list_all (\<lambda>plan. truthy (groupVersionBump plan)) plans"
    and "\<forall>x\<in>set (acc # map groupVersionBump plans). safe_version (inc current x None)"
  shows "\<exists>spec pre post.
           reduceGroupVersionPlans current plans acc = Inr spec
           \<and> acc # map groupVersionBump plans = pre @ spec # post
           \<and> (\<forall>x\<in>set pre. gt (inc current spec None) (inc current x None) = Inr True)
           \<and> (\<forall>x\<in>set post. gt (inc current x None) (inc current spec None) \<noteq> Inr True)"
  using assms
proof (induction plans arbitrary: acc)
  case Nil
  show ?case by (intro exI [where x = acc] exI [where x = "[]"]) simp
next
  case (Cons plan plans)
  let ?b = "groupVersionBump plan"
  let ?rest = "map groupVersionBump plans"
  from Cons.prems(2) have t: "truthy ?b"
    and kinds: "list_all (\<lambda>plan. truthy (groupVersionBump plan)) plans"
    by simp_all
  from Cons.prems(3) have safe: "\<forall>x\<in>set (acc # ?b # ?rest). safe_version (inc current x None)"
    by simp
  then have w: "safe_version (inc current ?b None)" "safe_version (inc current acc None)"
    by simp_all
  from safe have safe1: "\<forall>x\<in>set (?b # ?rest). safe_version (inc current x None)"
    and safe2: "\<forall>x\<in>set (acc # ?rest). safe_version (inc current x None)"
    by simp_all
  have list: "acc # map groupVersionBump (plan # plans) = acc # ?b # ?rest"
    by simp
  from gt_total [OF w] show ?case
  proof
    assume g: "gt (inc current ?b None) (inc current acc None) = Inr True"
    from Cons.IH [OF t kinds safe1] obtain spec pre post where
      r: "reduceGroupVersionPlans current plans ?b = Inr spec"
      and d: "?b # ?rest = pre @ spec # post"
      and pre: "\<forall>x\<in>set pre. gt (inc current spec None) (inc current x None) = Inr True"
      and post: "\<forall>x\<in>set post. gt (inc current x None) (inc current spec None) \<noteq> Inr True"
      by blast
    have run: "reduceGroupVersionPlans current (plan # plans) acc = Inr spec"
      using Cons.prems(1) g r by simp
    from pick_replace [OF safe d pre post g] run show ?thesis
      unfolding list by blast
  next
    assume g: "gt (inc current ?b None) (inc current acc None) = Inr False"
    from Cons.IH [OF Cons.prems(1) kinds safe2] obtain spec pre post where
      r: "reduceGroupVersionPlans current plans acc = Inr spec"
      and d: "acc # ?rest = pre @ spec # post"
      and pre: "\<forall>x\<in>set pre. gt (inc current spec None) (inc current x None) = Inr True"
      and post: "\<forall>x\<in>set post. gt (inc current x None) (inc current spec None) \<noteq> Inr True"
      by blast
    have run: "reduceGroupVersionPlans current (plan # plans) acc = Inr spec"
      using Cons.prems(1) g r by simp
    from pick_keep [OF safe d pre post g] run show ?thesis
      unfolding list by blast
  qed
qed

lemma firstGreatest_split:
  assumes d: "bumps = pre @ spec # post"
    and pre: "\<forall>x\<in>set pre. gt (inc current spec None) (inc current x None) = Inr True"
    and post: "\<forall>x\<in>set post. gt (inc current x None) (inc current spec None) \<noteq> Inr True"
    and safe: "\<forall>x\<in>set bumps. safe_version (inc current x None)"
  shows "firstGreatest current bumps spec"
proof -
  have notin: "\<forall>x\<in>set pre. x \<noteq> spec"
    using pre gt_irrefl [of "inc current spec None"] by auto
  then have tw: "takeWhile (\<lambda>x. x \<noteq> spec) bumps = pre"
    unfolding d by (simp add: takeWhile_append2)
  from safe have ws: "safe_version (inc current spec None)" unfolding d by simp
  have "\<forall>x\<in>set pre. gt (inc current x None) (inc current spec None) \<noteq> Inr True"
  proof
    fix x assume x: "x \<in> set pre"
    with pre have g: "gt (inc current spec None) (inc current x None) = Inr True" by simp
    from safe x have wx: "safe_version (inc current x None)" unfolding d by simp
    show "gt (inc current x None) (inc current spec None) \<noteq> Inr True"
    proof
      assume "gt (inc current x None) (inc current spec None) = Inr True"
      from gt_trans [OF ws wx ws g this] gt_irrefl show False by blast
    qed
  qed
  with post have "\<forall>x\<in>set bumps. gt (inc current x None) (inc current spec None) \<noteq> Inr True"
    unfolding d using gt_irrefl [of "inc current spec None"] by auto
  with pre show ?thesis unfolding firstGreatest_def tw unfolding d by simp
qed

lemma reduceProjectsVersionPlans_start:
  assumes "\<not> truthy acc"
    and "list_all (\<lambda>plan. case plan of ProjectsVersionPlan a r m \<Rightarrow> True | GroupVersionPlan a r b \<Rightarrow> False) plans"
    and "\<forall>x\<in>set (filter truthy (map (projectVersionBump p) plans)). safe_version (inc current x None)"
    and "filter truthy (map (projectVersionBump p) plans) \<noteq> []"
  shows "\<exists>spec. reduceProjectsVersionPlans current p plans acc = Inr spec
           \<and> firstGreatest current (filter truthy (map (projectVersionBump p) plans)) spec"
  using assms
proof (induction plans arbitrary: acc)
  case Nil
  then show ?case by simp
next
  case (Cons plan plans)
  from Cons.prems(2) obtain a r m where plan: "plan = ProjectsVersionPlan a r m"
    by (cases plan) simp_all
  from Cons.prems(2) have kinds: "list_all (\<lambda>plan. case plan of ProjectsVersionPlan a r m \<Rightarrow> True
                                             | GroupVersionPlan a r b \<Rightarrow> False) plans"
    by simp
  have bump: "projectVersionBump p plan = m p"
    unfolding plan projectVersionBump_def by simp
  have run: "reduceProjectsVersionPlans current p (plan # plans) acc
               = reduceProjectsVersionPlans current p plans (m p)"
    unfolding plan using Cons.prems(1) by simp
  show ?case
  proof (cases "truthy (m p)")
    case True
    with Cons.prems(3) have safe: "\<forall>x\<in>set (m p # filter truthy (map (projectVersionBump p) plans)).
           safe_version (inc current x None)"
      by (simp add: bump)
    from reduceProjectsVersionPlans_truthy [OF True kinds safe] obtain spec pre post where
      r: "reduceProjectsVersionPlans current p plans (m p) = Inr spec"
      and d: "m p # filter truthy (map (projectVersionBump p) plans) = pre @ spec # post"
      and pre: "\<forall>x\<in>set pre. gt (inc current spec None) (inc current x None) = Inr True"
      and post: "\<forall>x\<in>set post. gt (inc current x None) (inc current spec None) \<noteq> Inr True"
      by blast
    from firstGreatest_split [OF d pre post safe] r True show ?thesis
      unfolding run by (simp add: bump)
  next
    case False
    with Cons.prems(3,4) have "\<forall>x\<in>set (filter truthy (map (projectVersionBump p) plans)).
           safe_version (inc current x None)"
      and "filter truthy (map (projectVersionBump p) plans) \<noteq> []"
      by (simp_all add: bump)
    from Cons.IH [OF False kinds this] False show ?thesis
      unfolding run by (simp add: bump)
  qed
qed

lemma reduceGroupVersionPlans_start:
  assumes "list_all (\<lambda>plan. truthy (groupVersionBump plan)) plans"
    and "\<forall>x\<in>set (map groupVersionBump plans). safe_version (inc current x None)"
    and "plans \<noteq> []"
  shows "\<exists>spec. reduceGroupVersionPlans current plans None = Inr spec
           \<and> firstGreatest current (map groupVersionBump plans) spec"
proof -
  from assms(3) obtain plan rest where plans: "plans = plan # rest" by (cases plans) simp_all
  from assms(1) have t: "truthy (groupVersionBump plan)"
    and kinds: "list_all (\<lambda>plan. truthy (groupVersionBump plan)) rest"
    unfolding plans by simp_all
  from assms(2) have safe: "\<forall>x\<in>set (groupVersionBump plan # map groupVersionBump rest).
                              safe_version (inc current x None)"
    unfolding plans by simp
  have run: "reduceGroupVersionPlans current plans None
               = reduceGroupVersionPlans current rest (groupVersionBump plan)"
    unfolding plans by (simp add: truthy_def)
  from reduceGroupVersionPlans_truthy [OF t kinds safe] obtain spec pre post where
    r: "reduceGroupVersionPlans current rest (groupVersionBump plan) = Inr spec"
    and d: "groupVersionBump plan # map groupVersionBump rest = pre @ spec # post"
    and pre: "\<forall>x\<in>set pre. gt (inc current spec None) (inc current x None) = Inr True"
    and post: "\<forall>x\<in>set post. gt (inc current x None) (inc current spec None) \<noteq> Inr True"
    by blast
  from firstGreatest_split [OF d pre post safe] r
  have "\<exists>spec. reduceGroupVersionPlans current rest (groupVersionBump plan) = Inr spec
           \<and> firstGreatest current (groupVersionBump plan # map groupVersionBump rest) spec"
    by blast
  then show ?thesis
    unfolding run unfolding plans by simp
qed

lemma requestedBumps_independent:
  assumes "independent options" and "list_all (planMatchesGroup options) plans"
  shows "list_all (\<lambda>plan. case plan of ProjectsVersionPlan a r m \<Rightarrow> True
                            | GroupVersionPlan a r b \<Rightarrow> False) plans"
    and "requestedBumps options projectName plans
           = filter truthy (map (projectVersionBump projectName) plans)"
  using assms
  by (auto simp: list_all_iff planMatchesGroup_def requestedBumps_def split: VersionPlan.splits)

lemma requestedBumps_fixed:
  assumes "\<not> independent options" and "list_all (planMatchesGroup options) plans"
  shows "list_all (\<lambda>plan. truthy (groupVersionBump plan)) plans"
    and "requestedBumps options projectName plans = map groupVersionBump plans"
proof -
  from assms(2) show t: "list_all (\<lambda>plan. truthy (groupVersionBump plan)) plans"
  proof (induction plans)
    case Nil
    show ?case by simp
  next
    case (Cons plan plans)
    from Cons.prems have "planMatchesGroup options plan" by simp
    with assms(1) have "truthy (groupVersionBump plan)"
      by (cases plan) (simp_all add: planMatchesGroup_def truthy_def)
    with Cons show ?case by simp
  qed
  then have "filter truthy (map groupVersionBump plans) = map groupVersionBump plans"
    by (induction plans) simp_all
  with assms(1) show "requestedBumps options projectName plans = map groupVersionBump plans"
    by (simp add: requestedBumps_def)
qed

text \<open>
  C3 (as the code has it). With version plans as the source, whenever the specifier is
  resolved for a project (for every project of an independent release group, and while the
  loop variable is still undefined otherwise), the plans are of the kind of the group, they
  request at least one bump for the project, and every requested bump applied to the current
  version gives a valid version whose prerelease numbers are safe integers, the resolution
  returns, and the resolved specifier is one of the requested bumps: no requested bump gives a
  greater version when applied to the current version (compared as versions), and every bump
  requested before it gives a strictly smaller version, so that on a tie the first one is kept.
\<close>

theorem version_plans_select_greatest:
  assumes nooverride: "\<not> truthy (opt_specifier options)"
    and unresolved: "specifier_var st = None \<or> independent options"
    and source: "specifierSource st = Some ''version-plans''"
    and enabled: "rg_versionPlans (opt_releaseGroup options)"
    and plans: "rg_resolvedVersionPlans (opt_releaseGroup options) = Some plans"
    and kinds: "list_all (planMatchesGroup options) plans"
    and some: "requestedBumps options projectName plans \<noteq> []"
    and valid: "list_all (\<lambda>b. safe_version (inc (currentVersion_var st) b None))
                  (requestedBumps options projectName plans)"
  shows "\<exists>st' spec.
           resolveSpecifier env options projects projectName st = Inr st'
           \<and> specifier_var st' = Some spec
           \<and> firstGreatest (currentVersion_var st) (requestedBumps options projectName plans) spec"
proof -
  let ?r = "if independent options
            then reduceProjectsVersionPlans (currentVersion_var st) projectName plans None
            else reduceGroupVersionPlans (currentVersion_var st) plans None"
  have n: "\<not> truthy None" by (simp add: truthy_def)
  from valid have safe: "\<forall>x\<in>set (requestedBumps options projectName plans).
                            safe_version (inc (currentVersion_var st) x None)"
    by (simp add: list_all_iff)
  have "\<exists>spec. ?r = Inr spec
          \<and> firstGreatest (currentVersion_var st) (requestedBumps options projectName plans) spec"
  proof (cases "independent options")
    case True
    note k = requestedBumps_independent [OF True kinds]
    from reduceProjectsVersionPlans_start [OF n k(1) safe [unfolded k(2)] some [unfolded k(2)]] True
    show ?thesis unfolding k(2) by simp
  next
    case False
    note k = requestedBumps_fixed [OF False kinds]
    from some have ne: "plans \<noteq> []" unfolding k(2) by simp
    from reduceGroupVersionPlans_start [OF k(1) safe [unfolded k(2)] ne] False
    show ?thesis unfolding k(2) by simp
  qed
  then obtain spec where r: "?r = Inr spec"
    and fg: "firstGreatest (currentVersion_var st) (requestedBumps options projectName plans) spec"
    by blast
  from fg have "spec \<in> set (requestedBumps options projectName plans)"
    by (simp add: firstGreatest_def)
  then have t: "truthy spec" by (simp add: requestedBumps_def)
  have eq: "resolveSpecifier env options projects projectName st
              = versionPlansSpecifier options projectName st"
    using resolveSpecifier_unresolved [OF nooverride unresolved] source by simp
  have "\<exists>st'. versionPlansSpecifier options projectName st = Inr st' \<and> specifier_var st' = Some spec"
    using enabled plans r t
    by (simp add: versionPlansSpecifier_def Let_def)
  with fg show ?thesis unfolding eq by blast
qed

text \<open>
  In a fixed release group the specifier is resolved once, on the first project, and reused
  for the others whatever their versions: with the plans \<^verbatim>\<open>patch\<close> and \<^verbatim>\<open>minor\<close>, \<^verbatim>\<open>lib-a\<close> at
  1.0.0-beta.1 and \<^verbatim>\<open>app-b\<close> at 2.0.0, both bumps take \<^verbatim>\<open>lib-a\<close> to 1.0.0, the first one,
  \<^verbatim>\<open>patch\<close>, is kept, and \<^verbatim>\<open>app-b\<close> becomes 2.0.1 although \<^verbatim>\<open>minor\<close> gives the greater 2.1.0.
\<close>

theorem version_plans_fixed_group_counterexample:
  "(case releaseVersionGenerator scenarioEnv prereleaseTree
           (fixedOptions [''lib-a'', ''app-b''] [groupPatchPlan, groupMinorPlan]) of
      Inl e \<Rightarrow> False
    | Inr st \<Rightarrow>
        specifier_var st = Some (Some ''patch'')
        \<and> map (\<lambda>n. map_option (\<lambda>e. (currentVersion e, newVersion e)) (versionData st n))
              [''lib-a'', ''app-b'']
            = [Some (Some ''1.0.0-beta.1'', Some ''1.0.0''), Some (Some ''2.0.0'', Some ''2.0.1'')])
   \<and> requestedBumps (fixedOptions [''lib-a'', ''app-b''] [groupPatchPlan, groupMinorPlan]) ''app-b''
        [groupPatchPlan, groupMinorPlan] = [Some ''patch'', Some ''minor'']
   \<and> \<not> firstGreatest (Some ''2.0.0'') [Some ''patch'', Some ''minor''] (Some ''patch'')
   \<and> inc (Some ''2.0.0'') (Some ''patch'') None = Some ''2.0.1''
   \<and> inc (Some ''2.0.0'') (Some ''minor'') None = Some ''2.1.0''
   \<and> gt (Some ''2.1.0'') (Some ''2.0.1'') = Inr True"
  by code_simp

theorem version_plans_select_greatest_witness:
  "(case resolveCurrentVersion scenarioEnv (plansOptions [''lib-a''] [minorPlan, patchPlan])
           ''lib-a'' ''lib-a'' (Some ''1.0.0'') ''lib-a/pyproject.toml''
           (buffer (LogReading ''lib-a'' ''lib-a/pyproject.toml'')
              ((plansState [''lib-a''] [minorPlan, patchPlan])\<lparr>logs := []\<rparr>)) of
      Inl e \<Rightarrow> False
    | Inr st \<Rightarrow>
        currentVersion_var st = Some ''1.0.0''
        \<and> (\<exists>st' spec.
              resolveSpecifier scenarioEnv (plansOptions [''lib-a''] [minorPlan, patchPlan])
                [projectNode ''lib-a''] ''lib-a'' st = Inr st'
              \<and> specifier_var st' = Some spec \<and> spec = Some ''minor''
              \<and> firstGreatest (Some ''1.0.0'') [Some ''minor'', Some ''patch''] spec))
   \<and> (case resolveCurrentVersion scenarioEnv
              (fixedOptions [''lib-a'', ''app-b''] [groupPatchPlan, groupMinorPlan])
              ''lib-a'' ''lib-a'' (Some ''1.0.0'') ''lib-a/pyproject.toml''
              (buffer (LogReading ''lib-a'' ''lib-a/pyproject.toml'')
                 ((initialState scenarioEnv
                     (fixedOptions [''lib-a'', ''app-b''] [groupPatchPlan, groupMinorPlan])
                     (map projectNode [''lib-a'', ''app-b'']) scenarioTree)\<lparr>logs := []\<rparr>)) of
         Inl e \<Rightarrow> False
       | Inr st \<Rightarrow>
           currentVersion_var st = Some ''1.0.0''
           \<and> (\<exists>st' spec.
                 resolveSpecifier scenarioEnv
                   (fixedOptions [''lib-a'', ''app-b''] [groupPatchPlan, groupMinorPlan])
                   (map projectNode [''lib-a'', ''app-b'']) ''lib-a'' st = Inr st'
                 \<and> specifier_var st' = Some spec \<and> spec = Some ''minor''
                 \<and> firstGreatest (Some ''1.0.0'') [Some ''patch'', Some ''minor''] spec))
   \<and> inc (Some ''1.0.0'') (Some ''minor'') None = Some ''1.1.0''
   \<and> inc (Some ''1.0.0'') (Some ''patch'') None = Some ''1.0.1''
   \<and> gt (Some ''1.1.0'') (Some ''1.0.1'') = Inr True"
proof -
  let ?o = "plansOptions [''lib-a''] [minorPlan, patchPlan]"
  let ?s0 = "buffer (LogReading ''lib-a'' ''lib-a/pyproject.toml'')
              ((plansState [''lib-a''] [minorPlan, patchPlan])\<lparr>logs := []\<rparr>)"
  let ?f = "fixedOptions [''lib-a'', ''app-b''] [groupPatchPlan, groupMinorPlan]"
  let ?P = "map projectNode [''lib-a'', ''app-b'']"
  let ?t0 = "buffer (LogReading ''lib-a'' ''lib-a/pyproject.toml'')
               ((initialState scenarioEnv ?f ?P scenarioTree)\<lparr>logs := []\<rparr>)"
  have o: "\<not> truthy (opt_specifier ?o)" "independent ?o" "rg_versionPlans (opt_releaseGroup ?o)"
    "rg_resolvedVersionPlans (opt_releaseGroup ?o) = Some [minorPlan, patchPlan]"
    by (simp_all add: plansOptions_def demoOptions_def truthy_def independent_def)
  have ok: "list_all (planMatchesGroup ?o) [minorPlan, patchPlan]"
    by (simp add: planMatchesGroup_def minorPlan_def patchPlan_def independent_def
          plansOptions_def demoOptions_def)
  have ob: "requestedBumps ?o ''lib-a'' [minorPlan, patchPlan] = [Some ''minor'', Some ''patch'']"
    by code_simp
  have f: "\<not> truthy (opt_specifier ?f)" "\<not> independent ?f" "rg_versionPlans (opt_releaseGroup ?f)"
    "rg_resolvedVersionPlans (opt_releaseGroup ?f) = Some [groupPatchPlan, groupMinorPlan]"
    by (simp_all add: fixedOptions_def plansOptions_def demoOptions_def truthy_def independent_def)
  have fk: "list_all (planMatchesGroup ?f) [groupPatchPlan, groupMinorPlan]"
    by (simp add: planMatchesGroup_def groupPatchPlan_def groupMinorPlan_def independent_def
          fixedOptions_def plansOptions_def demoOptions_def)
  have fb: "requestedBumps ?f ''lib-a'' [groupPatchPlan, groupMinorPlan]
              = [Some ''patch'', Some ''minor'']"
    by code_simp
  have safe: "list_all (\<lambda>b. safe_version (inc (Some ''1.0.0'') b None)) [Some ''minor'', Some ''patch'']"
    "list_all (\<lambda>b. safe_version (inc (Some ''1.0.0'') b None)) [Some ''patch'', Some ''minor'']"
    by code_simp+
  have versions: "inc (Some ''1.0.0'') (Some ''minor'') None = Some ''1.1.0''
      \<and> inc (Some ''1.0.0'') (Some ''patch'') None = Some ''1.0.1''
      \<and> gt (Some ''1.1.0'') (Some ''1.0.1'') = Inr True"
    by code_simp
  have facts: "(case resolveCurrentVersion scenarioEnv ?o ''lib-a'' ''lib-a'' (Some ''1.0.0'')
                      ''lib-a/pyproject.toml'' ?s0 of
      Inl e \<Rightarrow> False
    | Inr st \<Rightarrow>
        currentVersion_var st = Some ''1.0.0'' \<and> specifierSource st = Some ''version-plans''
        \<and> (case resolveSpecifier scenarioEnv ?o [projectNode ''lib-a''] ''lib-a'' st of
              Inl e \<Rightarrow> False | Inr st' \<Rightarrow> specifier_var st' = Some (Some ''minor'')))"
    by code_simp
  have facts': "(case resolveCurrentVersion scenarioEnv ?f ''lib-a'' ''lib-a'' (Some ''1.0.0'')
                      ''lib-a/pyproject.toml'' ?t0 of
      Inl e \<Rightarrow> False
    | Inr st \<Rightarrow>
        currentVersion_var st = Some ''1.0.0'' \<and> specifierSource st = Some ''version-plans''
        \<and> specifier_var st = None
        \<and> (case resolveSpecifier scenarioEnv ?f ?P ''lib-a'' st of
              Inl e \<Rightarrow> False | Inr st' \<Rightarrow> specifier_var st' = Some (Some ''minor'')))"
    by code_simp
  have one: "(case resolveCurrentVersion scenarioEnv ?o ''lib-a'' ''lib-a'' (Some ''1.0.0'')
                      ''lib-a/pyproject.toml'' ?s0 of
      Inl e \<Rightarrow> False
    | Inr st \<Rightarrow>
        currentVersion_var st = Some ''1.0.0''
        \<and> (\<exists>st' spec.
              resolveSpecifier scenarioEnv ?o [projectNode ''lib-a''] ''lib-a'' st = Inr st'
              \<and> specifier_var st' = Some spec \<and> spec = Some ''minor''
              \<and> firstGreatest (Some ''1.0.0'') [Some ''minor'', Some ''patch''] spec))"
  proof (cases "resolveCurrentVersion scenarioEnv ?o ''lib-a'' ''lib-a'' (Some ''1.0.0'')
                      ''lib-a/pyproject.toml'' ?s0")
    case (Inl e)
    from facts show ?thesis unfolding Inl by simp
  next
    case (Inr st)
    from facts have c: "currentVersion_var st = Some ''1.0.0''"
      and s: "specifierSource st = Some ''version-plans''"
      and r: "(case resolveSpecifier scenarioEnv ?o [projectNode ''lib-a''] ''lib-a'' st of
              Inl e \<Rightarrow> False | Inr st' \<Rightarrow> specifier_var st' = Some (Some ''minor''))"
      unfolding Inr by simp_all
    have some: "requestedBumps ?o ''lib-a'' [minorPlan, patchPlan] \<noteq> []"
      unfolding ob by simp
    have valid: "list_all (\<lambda>b. safe_version (inc (currentVersion_var st) b None))
                   (requestedBumps ?o ''lib-a'' [minorPlan, patchPlan])"
      unfolding ob c by (rule safe(1))
    from version_plans_select_greatest [OF o(1) disjI2 [OF o(2)] s o(3) o(4) ok some valid,
        where env = scenarioEnv and projects = "[projectNode ''lib-a'']"]
    obtain st' spec where
      x: "resolveSpecifier scenarioEnv ?o [projectNode ''lib-a''] ''lib-a'' st = Inr st'"
        "specifier_var st' = Some spec"
        "firstGreatest (Some ''1.0.0'') [Some ''minor'', Some ''patch''] spec"
      unfolding ob c by blast
    from r x(2) have "spec = Some ''minor''" unfolding x(1) by simp
    with x have "\<exists>st' spec.
              resolveSpecifier scenarioEnv ?o [projectNode ''lib-a''] ''lib-a'' st = Inr st'
              \<and> specifier_var st' = Some spec \<and> spec = Some ''minor''
              \<and> firstGreatest (Some ''1.0.0'') [Some ''minor'', Some ''patch''] spec"
      by blast
    with c show ?thesis unfolding Inr by simp
  qed
  have two: "(case resolveCurrentVersion scenarioEnv ?f ''lib-a'' ''lib-a'' (Some ''1.0.0'')
                      ''lib-a/pyproject.toml'' ?t0 of
         Inl e \<Rightarrow> False
       | Inr st \<Rightarrow>
           currentVersion_var st = Some ''1.0.0''
           \<and> (\<exists>st' spec.
                 resolveSpecifier scenarioEnv ?f ?P ''lib-a'' st = Inr st'
                 \<and> specifier_var st' = Some spec \<and> spec = Some ''minor''
                 \<and> firstGreatest (Some ''1.0.0'') [Some ''patch'', Some ''minor''] spec))"
  proof (cases "resolveCurrentVersion scenarioEnv ?f ''lib-a'' ''lib-a'' (Some ''1.0.0'')
                      ''lib-a/pyproject.toml'' ?t0")
    case (Inl e)
    from facts' show ?thesis unfolding Inl by simp
  next
    case (Inr st)
    from facts' have c: "currentVersion_var st = Some ''1.0.0''"
      and s: "specifierSource st = Some ''version-plans''"
      and u: "specifier_var st = None"
      and r: "(case resolveSpecifier scenarioEnv ?f ?P ''lib-a'' st of
              Inl e \<Rightarrow> False | Inr st' \<Rightarrow> specifier_var st' = Some (Some ''minor''))"
      unfolding Inr by simp_all
    have some: "requestedBumps ?f ''lib-a'' [groupPatchPlan, groupMinorPlan] \<noteq> []"
      unfolding fb by simp
    have valid: "list_all (\<lambda>b. safe_version (inc (currentVersion_var st) b None))
                   (requestedBumps ?f ''lib-a'' [groupPatchPlan, groupMinorPlan])"
      unfolding fb c by (rule safe(2))
    from version_plans_select_greatest [OF f(1) disjI1 [OF u] s f(3) f(4) fk some valid,
        where env = scenarioEnv and projects = ?P]
    obtain st' spec where
      x: "resolveSpecifier scenarioEnv ?f ?P ''lib-a'' st = Inr st'"
        "specifier_var st' = Some spec"
        "firstGreatest (Some ''1.0.0'') [Some ''patch'', Some ''minor''] spec"
      unfolding fb c by blast
    from r x(2) have "spec = Some ''minor''" unfolding x(1) by simp
    with x have "\<exists>st' spec.
                 resolveSpecifier scenarioEnv ?f ?P ''lib-a'' st = Inr st'
                 \<and> specifier_var st' = Some spec \<and> spec = Some ''minor''
                 \<and> firstGreatest (Some ''1.0.0'') [Some ''patch'', Some ''minor''] spec"
      by blast
    with c show ?thesis unfolding Inr by simp
  qed
  from one two versions show ?thesis by (intro conjI) simp_all
qed

end
